(* ===== verification/Auth_Prelude.thy ===== *)
theory Auth_Prelude
  imports Main
begin

text \<open>
  Shared vocabulary of the AuthCore development: the fact collections the
  component theories feed, the Python notions every handler of \<^verbatim>\<open>src/app.py\<close>
  uses (truthiness of an optional string, \<^verbatim>\<open>datetime\<close> and \<^verbatim>\<open>timedelta\<close>
  arithmetic, exceptions as values), and the list lemmas behind the table model
  (first matching row, replacement of the row with a given key).
\<close>

section \<open>Fact collections\<close>

named_theorems auth_defs "definitions of model operations unfolded in handler proofs"
named_theorems row_simps "how the table operations act on rows and columns"

section \<open>Python values\<close>

text \<open>
  \<^verbatim>\<open>datetime\<close> values are microseconds on the UTC time line and \<^verbatim>\<open>timedelta\<close>
  values are microsecond counts; both are unbounded integers, as Python's are
  within the supported calendar range. \<^verbatim>\<open>timedelta(minutes=m)\<close> is \<open>m\<close> minutes in
  that unit.
\<close>

type_synonym datetime = int
type_synonym timedelta = int

definition timedelta_minutes :: "int \<Rightarrow> timedelta" where
  "timedelta_minutes m = m * 60000000"

text \<open>
  A request reads the clock with \<^verbatim>\<open>datetime.utcnow()\<close> once per call of
  \<^verbatim>\<open>is_locked\<close> and once when it sets a lockout. A \<open>clock\<close> gives the value of
  the \<open>k\<close>-th reading taken while one request is served.
\<close>

type_synonym clock = "nat \<Rightarrow> datetime"

definition mono_clock :: "clock \<Rightarrow> bool" where
  "mono_clock clk \<longleftrightarrow> (\<forall>i j. i \<le> j \<longrightarrow> clk i \<le> clk j)"

text \<open>
  A field read from the request body with \<^verbatim>\<open>data.get(key)\<close> is \<open>None\<close> when the
  key is missing or null and a string otherwise. \<open>py_not v\<close> is Python's
  \<^verbatim>\<open>not v\<close> on such a value: true for \<open>None\<close> and for the empty string.
  \<open>py_all vs\<close> is \<^verbatim>\<open>all([...])\<close> on a list of them.
\<close>

definition py_not :: "string option \<Rightarrow> bool" where
  "py_not v = (case v of None \<Rightarrow> True | Some s \<Rightarrow> s = [])"

definition py_all :: "string option list \<Rightarrow> bool" where
  "py_all vs = list_all (\<lambda>v. \<not> py_not v) vs"

text \<open>
  \<open>py_str v\<close> is the string held by a field that passed the truthiness check;
  the handlers use it only behind the guard \<open>\<not> py_not v\<close>.
\<close>

definition py_str :: "string option \<Rightarrow> string" where
  "py_str v = (case v of None \<Rightarrow> [] | Some s \<Rightarrow> s)"

text \<open>
  The exceptions the modelled code can raise. \<open>IntegrityError\<close> is what
  \<^verbatim>\<open>db.session.commit()\<close> raises when an \<^verbatim>\<open>INSERT\<close> violates a constraint of
  the \<^verbatim>\<open>users\<close> table; its argument names the constraint.
  \<open>AttributeError\<close> is what \<^verbatim>\<open>data.get(...)\<close> raises when \<^verbatim>\<open>data\<close> is not a
  dict. \<open>OperationalError\<close> is what a statement raises when the database
  cannot be opened, read or written.
\<close>

datatype constraint_name = NotNull_password_hash | Unique_username

datatype exn = IntegrityError constraint_name | AttributeError | OperationalError

type_synonym 'a raises = "exn + 'a"

section \<open>Rows of a table\<close>

text \<open>
  A table is the list of its rows in insertion order. \<open>first_by f k\<close> is
  \<^verbatim>\<open>filter_by(f=k).first()\<close>; \<open>replace_by key v\<close> is the \<^verbatim>\<open>UPDATE\<close> that
  writes the object \<open>v\<close> over the row with \<open>v\<close>'s key.
\<close>

definition first_by :: "('a \<Rightarrow> 'k) \<Rightarrow> 'k \<Rightarrow> 'a list \<Rightarrow> 'a option" where
  "first_by f k xs = find (\<lambda>r. f r = k) xs"

definition replace_by :: "('a \<Rightarrow> 'k) \<Rightarrow> 'a \<Rightarrow> 'a list \<Rightarrow> 'a list" where
  "replace_by key v xs = map (\<lambda>r. if key r = key v then v else r) xs"

section \<open>Lemmas on Python values\<close>

lemma py_not_simps [simp]:
  "py_not None" "py_not (Some s) \<longleftrightarrow> s = []"
  by (simp_all add: py_not_def)

lemma py_not_iff: "\<not> py_not v \<longleftrightarrow> (\<exists>s. v = Some s \<and> s \<noteq> [])"
  by (cases v) simp_all

lemma py_str_simps [simp]: "py_str None = []" "py_str (Some s) = s"
  by (simp_all add: py_str_def)

lemma py_str_nonempty: "\<not> py_not v \<Longrightarrow> py_str v \<noteq> [] \<and> v = Some (py_str v)"
  by (cases v) simp_all

lemma py_all_simps [simp]:
  "py_all []" "py_all (v # vs) \<longleftrightarrow> \<not> py_not v \<and> py_all vs"
  by (simp_all add: py_all_def)

lemma timedelta_minutes_pos [simp]: "0 < timedelta_minutes m \<longleftrightarrow> 0 < m"
  by (simp add: timedelta_minutes_def zero_less_mult_iff)

lemma timedelta_minutes_mono: "m \<le> n \<Longrightarrow> timedelta_minutes m \<le> timedelta_minutes n"
  by (simp add: timedelta_minutes_def)

lemma mono_clockD: "mono_clock clk \<Longrightarrow> i \<le> j \<Longrightarrow> clk i \<le> clk j"
  by (simp add: mono_clock_def)

lemma mono_clock_const [simp]: "mono_clock (\<lambda>_. t)"
  by (simp add: mono_clock_def)

section \<open>Lemmas on rows\<close>

lemma first_by_Nil [simp]: "first_by f k [] = None"
  by (simp add: first_by_def)

lemma first_by_Cons [simp]:
  "first_by f k (x # xs) = (if f x = k then Some x else first_by f k xs)"
  by (simp add: first_by_def)

lemma first_by_append:
  "first_by f k (xs @ ys) = (case first_by f k xs of None \<Rightarrow> first_by f k ys | Some x \<Rightarrow> Some x)"
  by (induction xs) simp_all

lemma first_by_None_iff: "first_by f k xs = None \<longleftrightarrow> k \<notin> f ` set xs"
  by (induction xs) auto

lemma first_by_SomeD: "first_by f k xs = Some x \<Longrightarrow> x \<in> set xs \<and> f x = k"
  by (induction xs) (auto split: if_splits)

lemma distinct_key_eq:
  "distinct (map key xs) \<Longrightarrow> r \<in> set xs \<Longrightarrow> u \<in> set xs \<Longrightarrow> key r = key u \<Longrightarrow> r = u"
  by (auto simp: distinct_map dest: inj_onD)

lemma distinct_count_one:
  "distinct (map f xs) \<Longrightarrow> k \<in> f ` set xs \<Longrightarrow> length (filter (\<lambda>x. f x = k) xs) = 1"
proof (induction xs)
  case Nil
  then show ?case by simp
next
  case (Cons x xs)
  show ?case
  proof (cases "f x = k")
    case True
    with Cons.prems(1) have "\<forall>y\<in>set xs. f y \<noteq> k"
      by (auto simp: image_iff)
    then have "filter (\<lambda>x. f x = k) xs = []"
      by (simp add: filter_empty_conv)
    with True show ?thesis by simp
  next
    case False
    with Cons show ?thesis by auto
  qed
qed

lemma first_by_absent: "k \<notin> f ` set xs \<Longrightarrow> first_by f k xs = None"
  by (induction xs) auto

lemma first_by_distinct:
  "distinct (map f xs) \<Longrightarrow> x \<in> set xs \<Longrightarrow> first_by f (f x) xs = Some x"
  by (induction xs) (auto simp: image_iff)

lemma first_by_Some_iff:
  "distinct (map f xs) \<Longrightarrow> first_by f k xs = Some x \<longleftrightarrow> x \<in> set xs \<and> f x = k"
  using first_by_SomeD first_by_distinct by fastforce

lemma replace_by_Nil [simp]: "replace_by key v [] = []"
  by (simp add: replace_by_def)

lemma replace_by_Cons [simp]:
  "replace_by key v (x # xs) = (if key x = key v then v else x) # replace_by key v xs"
  by (simp add: replace_by_def)

lemma length_replace_by [simp]: "length (replace_by key v xs) = length xs"
  by (simp add: replace_by_def)

lemma map_key_replace_by [simp]: "map key (replace_by key v xs) = map key xs"
  by (simp add: replace_by_def)

lemma map_replace_by_same:
  "\<forall>r\<in>set xs. key r = key v \<longrightarrow> g r = g v \<Longrightarrow> map g (replace_by key v xs) = map g xs"
  by (induction xs) simp_all

lemma set_replace_by:
  "set (replace_by key v xs) \<subseteq> insert v (set xs)"
  by (induction xs) auto

lemma replace_by_absent:
  "key v \<notin> key ` set xs \<Longrightarrow> replace_by key v xs = xs"
  by (induction xs) auto

lemma replace_by_idem:
  "distinct (map key xs) \<Longrightarrow> v \<in> set xs \<Longrightarrow> replace_by key v xs = xs"
  by (induction xs) (auto simp: image_iff replace_by_absent)

lemma first_by_key_replace_by:
  "first_by key k (replace_by key v xs) =
     (if k = key v then (if key v \<in> key ` set xs then Some v else None) else first_by key k xs)"
  by (induction xs) auto

lemma first_by_replace_by:
  "\<forall>r\<in>set xs. key r = key v \<longrightarrow> g r = g v \<Longrightarrow>
   first_by g k (replace_by key v xs) =
     map_option (\<lambda>r. if key r = key v then v else r) (first_by g k xs)"
  by (induction xs) auto

lemma list_all_replace_by:
  "list_all P xs \<Longrightarrow> P v \<Longrightarrow> list_all P (replace_by key v xs)"
  by (induction xs) simp_all

lemmas first_by_simps = first_by_append first_by_key_replace_by

end
