(* ===== verification/Config.thy ===== *)
theory Config
  imports Auth_Prelude
begin

text \<open>
  The configuration class of \<^verbatim>\<open>src/config.py\<close>: its five settings as a record,
  the loading of the \<^verbatim>\<open>.env\<close> file into the process environment, the class
  body as a function of that environment, and the condition on the two
  lockout settings under which the lockout rules make sense.
\<close>

section \<open>Settings\<close>

record config =
  SECRET_KEY :: string
  SQLALCHEMY_DATABASE_URI :: string
  SQLALCHEMY_TRACK_MODIFICATIONS :: bool
  LOCKOUT_ATTEMPTS :: int
  LOCKOUT_DURATION_MINUTES :: int

text \<open>
  The process environment, and \<^verbatim>\<open>os.environ.get(key, default)\<close> on it.
\<close>

type_synonym environ = "string \<rightharpoonup> string"

text \<open>
  \<^verbatim>\<open>load_dotenv()\<close> with the variables \<open>dotenv\<close> of the \<^verbatim>\<open>.env\<close> file: a
  variable of the file is set unless the environment has it already.
\<close>

definition load_dotenv :: "environ \<Rightarrow> environ \<Rightarrow> environ" where
  "load_dotenv dotenv env = dotenv ++ env"

definition environ_get :: "environ \<Rightarrow> string \<Rightarrow> string \<Rightarrow> string" where
  "environ_get env k d = (case env k of None \<Rightarrow> d | Some v \<Rightarrow> v)"

definition Config :: "environ \<Rightarrow> config" where
  "Config env =
     \<lparr>SECRET_KEY = environ_get env ''SECRET_KEY'' ''a_default_fallback_secret_key'',
      SQLALCHEMY_DATABASE_URI = environ_get env ''DATABASE_URI'' ''sqlite:///app.db'',
      SQLALCHEMY_TRACK_MODIFICATIONS = False,
      LOCKOUT_ATTEMPTS = 3,
      LOCKOUT_DURATION_MINUTES = 2\<rparr>"

text \<open>
  The lockout duration of a configuration as a \<^verbatim>\<open>timedelta\<close>, and the
  condition the specification puts on the two lockout settings: both positive.
\<close>

definition lockout_duration :: "config \<Rightarrow> timedelta" where
  "lockout_duration cfg = timedelta_minutes (LOCKOUT_DURATION_MINUTES cfg)"

definition config_ok :: "config \<Rightarrow> bool" where
  "config_ok cfg \<longleftrightarrow> 0 < LOCKOUT_ATTEMPTS cfg \<and> 0 < LOCKOUT_DURATION_MINUTES cfg"

section \<open>Lemmas\<close>

lemma environ_get_simps [simp]:
  "env k = None \<Longrightarrow> environ_get env k d = d"
  "env k = Some v \<Longrightarrow> environ_get env k d = v"
  by (simp_all add: environ_get_def)

lemma load_dotenv_apply:
  "load_dotenv dotenv env k = (case env k of None \<Rightarrow> dotenv k | Some v \<Rightarrow> Some v)"
  by (simp add: load_dotenv_def map_add_def)

lemma load_dotenv_empty [simp]: "load_dotenv Map.empty env = env"
  by (simp add: load_dotenv_def)

lemma environ_get_load_dotenv:
  "environ_get (load_dotenv dotenv env) k d =
     (case env k of None \<Rightarrow> environ_get dotenv k d | Some v \<Rightarrow> v)"
  by (simp add: environ_get_def load_dotenv_apply split: option.split)

lemma Config_lockout [simp]:
  "LOCKOUT_ATTEMPTS (Config env) = 3"
  "LOCKOUT_DURATION_MINUTES (Config env) = 2"
  by (simp_all add: Config_def)

lemma lockout_duration_Config [simp]: "lockout_duration (Config env) = 120000000"
  by (simp add: lockout_duration_def timedelta_minutes_def)

lemma config_ok_Config [simp]: "config_ok (Config env)"
  by (simp add: config_ok_def)

lemma lockout_duration_pos: "config_ok cfg \<Longrightarrow> 0 < lockout_duration cfg"
  by (simp add: config_ok_def lockout_duration_def)

lemma Config_ignores_lockout_env:
  "LOCKOUT_ATTEMPTS (Config env) = LOCKOUT_ATTEMPTS (Config env') \<and>
   LOCKOUT_DURATION_MINUTES (Config env) = LOCKOUT_DURATION_MINUTES (Config env')"
  by simp

end
