(* ===== verification/Hashing.thy ===== *)
theory Hashing
  imports Auth_Prelude
begin

text \<open>
  The password-hashing extension \<^verbatim>\<open>bcrypt = Bcrypt()\<close> of \<^verbatim>\<open>src/models.py\<close>
  as an interface: the two methods the code calls, with the salt that
  \<^verbatim>\<open>generate_password_hash\<close> draws made an argument. The handlers are stated
  over any value of the interface; the two contracts below are what the
  theorems about passwords assume of it, and \<open>ref_hasher\<close> is an executable
  instance that meets both; \<open>prefix_hasher\<close> is one that is complete and
  not sound, as a hasher that reads a prefix of its input is.
\<close>

section \<open>The interface\<close>

record 's hasher =
  generate_password_hash :: "'s \<Rightarrow> string \<Rightarrow> string"
  check_password_hash :: "string \<Rightarrow> string \<Rightarrow> bool"

text \<open>
  Completeness: a digest verifies against the password it was made from.
  Soundness: it verifies against no other password. bcrypt is complete; it is
  sound only up to collisions and its 72-byte input limit, so soundness is an
  idealisation and appears as an explicit hypothesis wherever it is used.
\<close>

definition hasher_complete :: "'s hasher \<Rightarrow> bool" where
  "hasher_complete H \<longleftrightarrow>
     (\<forall>s p. check_password_hash H (generate_password_hash H s p) p)"

definition hasher_sound :: "'s hasher \<Rightarrow> bool" where
  "hasher_sound H \<longleftrightarrow>
     (\<forall>s p q. check_password_hash H (generate_password_hash H s p) q \<longrightarrow> q = p)"

section \<open>A reference instance\<close>

text \<open>
  The salt is a number \<open>s\<close>; the digest is \<open>s\<close> filler characters, a separator
  and the password. Checking strips the filler and compares.
\<close>

definition ref_generate :: "nat \<Rightarrow> string \<Rightarrow> string" where
  "ref_generate s p = replicate s CHR ''x'' @ CHR ''$'' # p"

definition ref_check :: "string \<Rightarrow> string \<Rightarrow> bool" where
  "ref_check h p \<longleftrightarrow> dropWhile (\<lambda>c. c = CHR ''x'') h = CHR ''$'' # p"

definition ref_hasher :: "nat hasher" where
  "ref_hasher = \<lparr>generate_password_hash = ref_generate, check_password_hash = ref_check\<rparr>"

section \<open>An instance that reads a prefix\<close>

text \<open>
  The reference instance applied to the first \<open>k\<close> characters of the
  password, as bcrypt reads the first 72 bytes of its input: passwords that
  agree on the prefix have the same digests.
\<close>

definition prefix_hasher :: "nat \<Rightarrow> nat hasher" where
  "prefix_hasher k =
     \<lparr>generate_password_hash = (\<lambda>s p. ref_generate s (take k p)),
      check_password_hash = (\<lambda>h p. ref_check h (take k p))\<rparr>"

section \<open>Lemmas\<close>

lemma hasher_completeD [simp]:
  "hasher_complete H \<Longrightarrow> check_password_hash H (generate_password_hash H s p) p"
  by (simp add: hasher_complete_def)

lemma hasher_soundD:
  "hasher_sound H \<Longrightarrow> check_password_hash H (generate_password_hash H s p) q \<Longrightarrow> q = p"
  by (auto simp: hasher_sound_def)

lemma hasher_check_iff:
  "hasher_complete H \<Longrightarrow> hasher_sound H \<Longrightarrow>
   check_password_hash H (generate_password_hash H s p) q \<longleftrightarrow> q = p"
  by (auto dest: hasher_soundD)

lemma dropWhile_filler [simp]:
  "dropWhile (\<lambda>c. c = CHR ''x'') (replicate s CHR ''x'' @ CHR ''$'' # p) = CHR ''$'' # p"
  by (induction s) simp_all

lemma ref_check_generate [simp]: "ref_check (ref_generate s p) q \<longleftrightarrow> q = p"
  by (auto simp: ref_check_def ref_generate_def)

lemma ref_hasher_sel [simp]:
  "generate_password_hash ref_hasher = ref_generate"
  "check_password_hash ref_hasher = ref_check"
  by (simp_all add: ref_hasher_def)

lemma ref_hasher_complete [simp]: "hasher_complete ref_hasher"
  by (simp add: hasher_complete_def)

lemma ref_hasher_sound [simp]: "hasher_sound ref_hasher"
  by (simp add: hasher_sound_def)

lemma ref_generate_salted: "s \<noteq> s' \<Longrightarrow> ref_generate s p \<noteq> ref_generate s' p"
proof
  assume ne: "s \<noteq> s'" and eq: "ref_generate s p = ref_generate s' p"
  from eq have "length (ref_generate s p) = length (ref_generate s' p)" by simp
  with ne show False by (simp add: ref_generate_def)
qed

lemma prefix_hasher_sel [simp]:
  "generate_password_hash (prefix_hasher k) s p = ref_generate s (take k p)"
  "check_password_hash (prefix_hasher k) h p = ref_check h (take k p)"
  by (simp_all add: prefix_hasher_def)

lemma prefix_hasher_complete [simp]: "hasher_complete (prefix_hasher k)"
  by (simp add: hasher_complete_def)

lemma prefix_hasher_not_sound: "\<not> hasher_sound (prefix_hasher k)"
proof
  assume "hasher_sound (prefix_hasher k)"
  from hasher_soundD [OF this, of 0 "replicate k CHR ''a''" "replicate k CHR ''a'' @ ''a''"]
  show False by simp
qed

end
