(* ===== verification/Http.thy ===== *)
theory Http
  imports Auth_Prelude
begin

text \<open>
  What the handlers of \<^verbatim>\<open>src/app.py\<close> exchange with Flask: the JSON body of a
  request as \<^verbatim>\<open>request.get_json()\<close> returns it, and the pair of a body and a
  status code that a view function returns.
\<close>

section \<open>Request bodies\<close>

text \<open>
  A request body is a JSON object whose values are strings or null; \<open>data k\<close>
  is \<^verbatim>\<open>data.get(k)\<close>. Bodies that are not objects, and members that are
  numbers, booleans, arrays or objects, are outside the model.
\<close>

type_synonym json_request = "string \<rightharpoonup> string"

text \<open>
  The bodies with a user name and a password, both non-empty: the ones that
  pass the validation of the register and login handlers. \<open>credentials\<close>
  builds the body with exactly these two members.
\<close>

definition has_credentials :: "json_request \<Rightarrow> string \<Rightarrow> string \<Rightarrow> bool" where
  "has_credentials data name password \<longleftrightarrow>
     data ''username'' = Some name \<and> data ''password'' = Some password \<and>
     name \<noteq> [] \<and> password \<noteq> []"

definition credentials :: "string \<Rightarrow> string \<Rightarrow> json_request" where
  "credentials name password = [''username'' \<mapsto> name, ''password'' \<mapsto> password]"

text \<open>
  The bodies with the three fields of a password reset, all non-empty, and
  the body with exactly these members.
\<close>

definition has_reset_fields :: "json_request \<Rightarrow> string \<Rightarrow> string \<Rightarrow> string \<Rightarrow> bool" where
  "has_reset_fields data name old_password new_password \<longleftrightarrow>
     data ''username'' = Some name \<and> data ''old_password'' = Some old_password \<and>
     data ''new_password'' = Some new_password \<and>
     name \<noteq> [] \<and> old_password \<noteq> [] \<and> new_password \<noteq> []"

definition reset_fields :: "string \<Rightarrow> string \<Rightarrow> string \<Rightarrow> json_request" where
  "reset_fields name old_password new_password =
     [''username'' \<mapsto> name, ''old_password'' \<mapsto> old_password,
      ''new_password'' \<mapsto> new_password]"

section \<open>Responses\<close>

text \<open>
  The JSON values the handlers build. \<open>JIsoformat t\<close> stands for the string
  \<^verbatim>\<open>t.isoformat()\<close> of a \<^verbatim>\<open>datetime\<close>; the rendering itself is not modelled.
\<close>

datatype json =
    JNull
  | JBool bool
  | JInt int
  | JString string
  | JIsoformat datetime
  | JList "json list"
  | JDict "(string \<times> json) list"

datatype body = Jsonify json | Template string

record response =
  body :: body
  status :: nat

text \<open>
  \<open>jsonify_status d c\<close> is the view result \<^verbatim>\<open>jsonify({...}), c\<close> for a dict
  literal with the members \<open>d\<close>; \<open>error_response\<close> and \<open>message_response\<close> are
  the two one-member shapes the handlers use; \<open>render_template\<close> is a page
  with Flask's default status.
\<close>

definition jsonify_status :: "(string \<times> json) list \<Rightarrow> nat \<Rightarrow> response" where
  "jsonify_status d c = \<lparr>body = Jsonify (JDict d), status = c\<rparr>"

definition error_response :: "string \<Rightarrow> nat \<Rightarrow> response" where
  "error_response msg c = jsonify_status [(''error'', JString msg)] c"

definition message_response :: "string \<Rightarrow> nat \<Rightarrow> response" where
  "message_response msg c = jsonify_status [(''message'', JString msg)] c"

definition render_template :: "string \<Rightarrow> response" where
  "render_template name = \<lparr>body = Template name, status = 200\<rparr>"

text \<open>Success is a status in the 2xx range.\<close>

definition is_success :: "response \<Rightarrow> bool" where
  "is_success r \<longleftrightarrow> 200 \<le> status r \<and> status r < 300"

section \<open>Lemmas\<close>

lemma has_credentials_credentials [simp]:
  "has_credentials (credentials name password) n p \<longleftrightarrow>
     n = name \<and> p = password \<and> name \<noteq> [] \<and> password \<noteq> []"
  by (auto simp: has_credentials_def credentials_def)

lemma credentials_fields [simp]:
  "credentials name password ''username'' = Some name"
  "credentials name password ''password'' = Some password"
  by (simp_all add: credentials_def)

lemma credentials_of_valid:
  "\<not> (py_not (data ''username'') \<or> py_not (data ''password'')) \<Longrightarrow>
   has_credentials data (py_str (data ''username'')) (py_str (data ''password''))"
  by (auto simp: has_credentials_def py_not_iff)

lemma has_credentials_py_str:
  "has_credentials data name password \<Longrightarrow> py_str (data ''username'') = name"
  by (simp add: has_credentials_def)

lemma has_credentials_unique:
  "has_credentials data n p \<Longrightarrow> has_credentials data n' p' \<Longrightarrow> n' = n \<and> p' = p"
  by (simp add: has_credentials_def)

lemma has_credentials_valid:
  "has_credentials data n p \<Longrightarrow> \<not> py_not (data ''username'') \<and> \<not> py_not (data ''password'')"
  by (simp add: has_credentials_def)

lemma status_simps [simp]:
  "status (jsonify_status d c) = c"
  "status (error_response msg c) = c"
  "status (message_response msg c) = c"
  "status (render_template name) = 200"
  by (simp_all add: jsonify_status_def error_response_def message_response_def
      render_template_def)

lemma body_simps [simp]:
  "body (jsonify_status d c) = Jsonify (JDict d)"
  "body (error_response msg c) = Jsonify (JDict [(''error'', JString msg)])"
  "body (message_response msg c) = Jsonify (JDict [(''message'', JString msg)])"
  "body (render_template name) = Template name"
  by (simp_all add: jsonify_status_def error_response_def message_response_def
      render_template_def)

lemma response_eqI: "body r = body r' \<Longrightarrow> status r = status r' \<Longrightarrow> (r::response) = r'"
  by simp

lemma is_success_status [simp]:
  "is_success (jsonify_status d c) \<longleftrightarrow> 200 \<le> c \<and> c < 300"
  "is_success (error_response msg c) \<longleftrightarrow> 200 \<le> c \<and> c < 300"
  "is_success (message_response msg c) \<longleftrightarrow> 200 \<le> c \<and> c < 300"
  "is_success (render_template name)"
  by (simp_all add: is_success_def)

lemma has_reset_fields_reset_fields [simp]:
  "has_reset_fields (reset_fields name old new) n p q \<longleftrightarrow>
     n = name \<and> p = old \<and> q = new \<and> name \<noteq> [] \<and> old \<noteq> [] \<and> new \<noteq> []"
  by (auto simp: has_reset_fields_def reset_fields_def)

lemma reset_fields_sel [simp]:
  "reset_fields name old new ''username'' = Some name"
  "reset_fields name old new ''old_password'' = Some old"
  "reset_fields name old new ''new_password'' = Some new"
  by (simp_all add: reset_fields_def)

lemma has_reset_fields_strs:
  "has_reset_fields data name old new \<Longrightarrow>
   py_str (data ''username'') = name \<and> py_str (data ''old_password'') = old \<and>
   py_str (data ''new_password'') = new \<and> name \<noteq> [] \<and> old \<noteq> [] \<and> new \<noteq> []"
  by (simp add: has_reset_fields_def)

lemma has_credentials_strs:
  "has_credentials data name password \<Longrightarrow>
   py_str (data ''username'') = name \<and> py_str (data ''password'') = password \<and>
   name \<noteq> [] \<and> password \<noteq> []"
  by (simp add: has_credentials_def)

lemma invalid_credentials_strs:
  "py_not (data ''username'') \<or> py_not (data ''password'') \<Longrightarrow>
   py_str (data ''username'') = [] \<or> py_str (data ''password'') = []"
  by (cases "data ''username''"; cases "data ''password''") auto

lemma invalid_reset_fields_strs:
  "\<not> py_all [data ''username'', data ''old_password'', data ''new_password''] \<Longrightarrow>
   py_str (data ''username'') = [] \<or> py_str (data ''old_password'') = [] \<or>
   py_str (data ''new_password'') = []"
  by (cases "data ''username''"; cases "data ''old_password''"; cases "data ''new_password''")
    auto

lemma reset_fields_of_valid:
  "py_all [data ''username'', data ''old_password'', data ''new_password''] \<Longrightarrow>
   has_reset_fields data (py_str (data ''username'')) (py_str (data ''old_password''))
     (py_str (data ''new_password''))"
  by (auto simp: has_reset_fields_def py_not_iff)

lemma has_reset_fields_unique:
  "has_reset_fields data n p q \<Longrightarrow> has_reset_fields data n' p' q' \<Longrightarrow>
   n' = n \<and> p' = p \<and> q' = q"
  by (simp add: has_reset_fields_def)

lemma has_reset_fields_valid:
  "has_reset_fields data n p q \<Longrightarrow>
   py_all [data ''username'', data ''old_password'', data ''new_password'']"
  by (simp add: has_reset_fields_def)

end
