(* ===== verification/User_Model.thy ===== *)
theory User_Model
  imports Hashing Http
begin

text \<open>
  The \<^verbatim>\<open>User\<close> class of \<^verbatim>\<open>src/models.py\<close>: a row of the \<^verbatim>\<open>users\<close> table as a
  record with one field per column, the object built by \<^verbatim>\<open>User(username=...)\<close>
  before it is inserted, and the methods \<^verbatim>\<open>set_password\<close>,
  \<^verbatim>\<open>check_password\<close>, \<^verbatim>\<open>is_locked\<close> and \<^verbatim>\<open>__repr__\<close>. The lemmas give
  the frame of each method (which columns it leaves alone) and the facts about
  the derived lock state: it is a function of \<open>lockout_until\<close> and the clock
  reading only, and it ends by itself when the clock passes \<open>lockout_until\<close>.
\<close>

section \<open>Rows and pending objects\<close>

text \<open>
  A loaded \<^verbatim>\<open>User\<close>: \<open>user_id\<close> is the column \<^verbatim>\<open>id\<close>. The only column declared
  nullable is \<open>lockout_until\<close>. \<open>failed_login_attempts\<close> is an integer in every
  row this program inserts, by the column default.
\<close>

record user =
  user_id :: int
  username :: string
  password_hash :: string
  failed_login_attempts :: int
  lockout_until :: "datetime option"

text \<open>
  The object between \<^verbatim>\<open>User(username=username)\<close> and its \<^verbatim>\<open>INSERT\<close>: the
  constructor sets the user name and nothing else, so the password hash is
  absent until \<^verbatim>\<open>set_password\<close> runs.
\<close>

record pending_user =
  new_username :: string
  new_password_hash :: "string option"

definition User_init :: "string \<Rightarrow> pending_user" where
  "User_init name = \<lparr>new_username = name, new_password_hash = None\<rparr>"

section \<open>Methods\<close>

definition set_password_new :: "'s hasher \<Rightarrow> 's \<Rightarrow> string \<Rightarrow> pending_user \<Rightarrow> pending_user" where
  "set_password_new H salt password p =
     p\<lparr>new_password_hash := Some (generate_password_hash H salt password)\<rparr>"

definition set_password :: "'s hasher \<Rightarrow> 's \<Rightarrow> string \<Rightarrow> user \<Rightarrow> user" where
  "set_password H salt password u =
     u\<lparr>password_hash := generate_password_hash H salt password\<rparr>"

definition check_password :: "'s hasher \<Rightarrow> user \<Rightarrow> string \<Rightarrow> bool" where
  "check_password H u password = check_password_hash H (password_hash u) password"

definition is_locked :: "user \<Rightarrow> datetime \<Rightarrow> bool" where
  "is_locked u now = (case lockout_until u of None \<Rightarrow> False | Some t \<Rightarrow> now < t)"

definition repr :: "user \<Rightarrow> string" where
  "repr u = ''<User '' @ username u @ ''>''"

text \<open>
  \<^verbatim>\<open>user.lockout_until.isoformat()\<close> as the login handler sends it. The handler
  evaluates it only for a locked user, whose \<open>lockout_until\<close> is present.
\<close>

definition lockout_until_isoformat :: "user \<Rightarrow> json" where
  "lockout_until_isoformat u = (case lockout_until u of None \<Rightarrow> JNull | Some t \<Rightarrow> JIsoformat t)"

section \<open>Lemmas\<close>

lemma User_init_sel [simp]:
  "new_username (User_init name) = name"
  "new_password_hash (User_init name) = None"
  by (simp_all add: User_init_def)

lemma set_password_new_sel [simp]:
  "new_username (set_password_new H salt password p) = new_username p"
  "new_password_hash (set_password_new H salt password p) =
     Some (generate_password_hash H salt password)"
  by (simp_all add: set_password_new_def)

lemma set_password_sel [simp]:
  "user_id (set_password H salt password u) = user_id u"
  "username (set_password H salt password u) = username u"
  "password_hash (set_password H salt password u) = generate_password_hash H salt password"
  "failed_login_attempts (set_password H salt password u) = failed_login_attempts u"
  "lockout_until (set_password H salt password u) = lockout_until u"
  by (simp_all add: set_password_def)

lemma check_password_set_password [simp]:
  "hasher_complete H \<Longrightarrow> check_password H (set_password H salt password u) password"
  by (simp add: check_password_def)

lemma check_password_set_password_iff:
  "hasher_complete H \<Longrightarrow> hasher_sound H \<Longrightarrow>
   check_password H (set_password H salt password u) q \<longleftrightarrow> q = password"
  by (simp add: check_password_def hasher_check_iff)

lemma check_password_cong:
  "password_hash u = password_hash u' \<Longrightarrow> check_password H u = check_password H u'"
  by (simp add: check_password_def fun_eq_iff)

lemma check_password_update [simp]:
  "check_password H (u\<lparr>failed_login_attempts := c\<rparr>) = check_password H u"
  "check_password H (u\<lparr>lockout_until := l\<rparr>) = check_password H u"
  "check_password H (u\<lparr>user_id := i\<rparr>) = check_password H u"
  by (simp_all add: check_password_def fun_eq_iff)

lemma is_locked_simps [simp]:
  "lockout_until u = None \<Longrightarrow> \<not> is_locked u now"
  "lockout_until u = Some t \<Longrightarrow> is_locked u now \<longleftrightarrow> now < t"
  by (simp_all add: is_locked_def)

lemma is_locked_iff: "is_locked u now \<longleftrightarrow> (\<exists>t. lockout_until u = Some t \<and> now < t)"
  by (simp add: is_locked_def split: option.split)

lemma is_locked_update [simp]:
  "is_locked (u\<lparr>lockout_until := None\<rparr>) now = False"
  "is_locked (u\<lparr>lockout_until := Some t\<rparr>) now \<longleftrightarrow> now < t"
  "is_locked (u\<lparr>failed_login_attempts := c\<rparr>) now = is_locked u now"
  "is_locked (u\<lparr>password_hash := h\<rparr>) now = is_locked u now"
  "is_locked (set_password H salt password u) now = is_locked u now"
  by (simp_all add: is_locked_def)

lemma is_locked_antimono: "is_locked u now' \<Longrightarrow> now \<le> now' \<Longrightarrow> is_locked u now"
  by (auto simp: is_locked_iff)

lemma is_locked_expires: "lockout_until u = Some t \<Longrightarrow> t \<le> now \<Longrightarrow> \<not> is_locked u now"
  by simp

lemma is_locked_isoformat:
  "is_locked u now \<Longrightarrow> \<exists>t. lockout_until_isoformat u = JIsoformat t \<and> now < t"
  by (auto simp: is_locked_iff lockout_until_isoformat_def)

lemma repr_inj: "repr u = repr u' \<longleftrightarrow> username u = username u'"
  by (simp add: repr_def)

end
