(* ===== verification/User_Store.thy ===== *)
theory User_Store
  imports User_Model
begin

text \<open>
  The \<^verbatim>\<open>users\<close> table behind \<^verbatim>\<open>db.session\<close> and \<^verbatim>\<open>User.query\<close>: the table as
  the list of its rows in insertion order and the four ways \<^verbatim>\<open>src/app.py\<close>
  touches it (look a user up by name, list all users, insert a new user,
  write a changed user back). The constraints of the table declared in
  \<^verbatim>\<open>src/models.py\<close> (primary key, \<^verbatim>\<open>unique\<close>, \<^verbatim>\<open>nullable=False\<close>, the
  column default) are checked or applied by the insert. The lemmas give
  lookup after insert and after write-back, and that both keep the table
  constraints.
\<close>

section \<open>Operations\<close>

type_synonym db = "user list"

text \<open>\<^verbatim>\<open>User.query.filter_by(username=name).first()\<close> and \<^verbatim>\<open>User.query.all()\<close>.\<close>

definition query_first_by_username :: "db \<Rightarrow> string \<Rightarrow> user option" where
  "query_first_by_username table name = first_by username name table"

definition query_all :: "db \<Rightarrow> user list" where
  "query_all table = table"

text \<open>
  The integer primary key of a new row: one more than the largest key in the
  table, \<open>1\<close> in an empty table.
\<close>

definition max_id :: "db \<Rightarrow> int" where
  "max_id table = foldr (\<lambda>u m. max (user_id u) m) table 0"

definition next_id :: "db \<Rightarrow> int" where
  "next_id table = max_id table + 1"

text \<open>
  \<^verbatim>\<open>db.session.add(new_user); db.session.commit()\<close>: the \<^verbatim>\<open>INSERT\<close> fails on a
  missing password hash and on a user name the table already holds;
  otherwise the row gets the next key, a zero failure counter by the column
  default and no lockout.
\<close>

definition session_add_commit :: "db \<Rightarrow> pending_user \<Rightarrow> db raises" where
  "session_add_commit table p =
     (case new_password_hash p of
        None \<Rightarrow> Inl (IntegrityError NotNull_password_hash)
      | Some h \<Rightarrow>
          if query_first_by_username table (new_username p) \<noteq> None
          then Inl (IntegrityError Unique_username)
          else Inr (table @
            [\<lparr>user_id = next_id table, username = new_username p, password_hash = h,
              failed_login_attempts = 0, lockout_until = None\<rparr>]))"

text \<open>
  \<^verbatim>\<open>db.session.commit()\<close> after attributes of a loaded user were assigned: the
  \<^verbatim>\<open>UPDATE\<close> writes the object over the row with its primary key. No caller
  assigns \<open>username\<close> or \<open>user_id\<close>, so this write cannot violate a constraint.
\<close>

definition session_commit :: "db \<Rightarrow> user \<Rightarrow> db" where
  "session_commit table u = replace_by user_id u table"

section \<open>Table constraints\<close>

text \<open>
  The constraints the schema declares, as a predicate on tables: keys are
  positive and unique, user names are unique.
\<close>

definition table_ok :: "db \<Rightarrow> bool" where
  "table_ok table \<longleftrightarrow>
     distinct (map user_id table) \<and> distinct (map username table) \<and>
     list_all (\<lambda>u. 0 < user_id u) table"

section \<open>Lemmas\<close>

lemma query_first_by_username_Nil [simp]: "query_first_by_username [] name = None"
  by (simp add: query_first_by_username_def)

lemma query_first_by_username_Cons [simp]:
  "query_first_by_username (u # table) name =
     (if username u = name then Some u else query_first_by_username table name)"
  by (simp add: query_first_by_username_def)

lemma query_first_SomeD:
  "query_first_by_username table name = Some u \<Longrightarrow> u \<in> set table \<and> username u = name"
  unfolding query_first_by_username_def by (rule first_by_SomeD)

lemma query_first_None_iff:
  "query_first_by_username table name = None \<longleftrightarrow> name \<notin> username ` set table"
  by (simp add: query_first_by_username_def first_by_None_iff)

lemma query_first_member:
  "table_ok table \<Longrightarrow> u \<in> set table \<Longrightarrow> query_first_by_username table (username u) = Some u"
  by (simp add: query_first_by_username_def table_ok_def first_by_distinct)

lemma table_ok_same_keys:
  assumes "table_ok table"
    and "map user_id table' = map user_id table" and "map username table' = map username table"
  shows "table_ok table'"
proof -
  from assms(2) have "set (map user_id table') = set (map user_id table)" by simp
  then have "user_id ` set table' = user_id ` set table" by (simp only: set_map)
  with assms(1) have "\<forall>u\<in>set table'. 0 < user_id u"
    unfolding table_ok_def list_all_iff by (metis imageE imageI)
  with assms show ?thesis by (simp add: table_ok_def list_all_iff)
qed

lemma max_id_ge: "u \<in> set table \<Longrightarrow> user_id u \<le> max_id table"
  by (induction table) (auto simp: max_id_def)

lemma max_id_nonneg [simp]: "0 \<le> max_id table"
  by (induction table) (auto simp: max_id_def)

lemma next_id_fresh: "next_id table \<notin> user_id ` set table"
  using max_id_ge by (fastforce simp: next_id_def)

lemma next_id_pos [simp]: "0 < next_id table"
  using max_id_nonneg [of table] by (simp add: next_id_def)

lemma session_commit_Nil [simp]: "session_commit [] u = []"
  by (simp add: session_commit_def)

lemma session_commit_Cons [simp]:
  "session_commit (r # table) u = (if user_id r = user_id u then u else r) # session_commit table u"
  by (simp add: session_commit_def)

lemma length_session_commit [row_simps]: "length (session_commit table u) = length table"
  by (simp add: session_commit_def)

lemma map_user_id_session_commit [row_simps]:
  "map user_id (session_commit table u) = map user_id table"
  by (simp add: session_commit_def)

text \<open>
  \<open>same_identity u u'\<close>: the object \<open>u'\<close> is the loaded row \<open>u\<close> with only
  columns other than the key and the user name assigned.
\<close>

lemma session_commit_proj:
  assumes "table_ok table" and "u \<in> set table" and "user_id u' = user_id u" and "g u' = g u"
  shows "map g (session_commit table u') = map g table"
proof -
  have "\<forall>r\<in>set table. user_id r = user_id u' \<longrightarrow> g r = g u'"
  proof (intro ballI impI)
    fix r assume "r \<in> set table" and "user_id r = user_id u'"
    with assms have "r = u"
      by (auto simp: table_ok_def elim: distinct_key_eq)
    with assms show "g r = g u'" by simp
  qed
  then show ?thesis
    unfolding session_commit_def by (rule map_replace_by_same)
qed

lemma session_commit_table_ok:
  assumes "table_ok table" and "u \<in> set table"
    and "user_id u' = user_id u" and "username u' = username u"
  shows "table_ok (session_commit table u')"
proof -
  have "map username (session_commit table u') = map username table"
    using assms by (rule session_commit_proj)
  moreover have "0 < user_id u'"
    using assms by (auto simp: table_ok_def list_all_iff)
  ultimately show ?thesis
    using assms(1)
    by (simp add: table_ok_def map_user_id_session_commit)
      (simp add: session_commit_def list_all_replace_by)
qed

lemma query_first_session_commit:
  assumes "table_ok table" and "u \<in> set table"
    and "user_id u' = user_id u" and "username u' = username u"
  shows "query_first_by_username (session_commit table u') name =
     (if name = username u then Some u' else query_first_by_username table name)"
proof -
  have same: "\<forall>r\<in>set table. user_id r = user_id u' \<longrightarrow> username r = username u'"
  proof (intro ballI impI)
    fix r assume "r \<in> set table" and "user_id r = user_id u'"
    with assms have "r = u"
      by (auto simp: table_ok_def elim: distinct_key_eq)
    with assms show "username r = username u'" by simp
  qed
  have eq: "query_first_by_username (session_commit table u') name =
      map_option (\<lambda>r. if user_id r = user_id u' then u' else r)
        (query_first_by_username table name)"
    unfolding query_first_by_username_def session_commit_def
    using same by (rule first_by_replace_by)
  show ?thesis
  proof (cases "name = username u")
    case True
    with assms have "query_first_by_username table name = Some u"
      by (simp add: query_first_member)
    with eq True assms show ?thesis by simp
  next
    case False
    show ?thesis
    proof (cases "query_first_by_username table name")
      case None
      with eq False show ?thesis by simp
    next
      case (Some r)
      then have r: "r \<in> set table" "username r = name"
        by (auto dest: query_first_SomeD)
      have "user_id r \<noteq> user_id u'"
      proof
        assume "user_id r = user_id u'"
        with same r(1) have "username r = username u'" by blast
        with r(2) assms(4) False show False by simp
      qed
      with eq Some False show ?thesis by simp
    qed
  qed
qed

lemma session_commit_row:
  assumes "table_ok table" and "query_first_by_username table name = Some u"
    and "user_id u' = user_id u" and "username u' = username u"
  shows "table_ok (session_commit table u')"
    and "query_first_by_username (session_commit table u') name = Some u'"
proof -
  from assms(2) have "u \<in> set table" "username u = name"
    by (auto dest: query_first_SomeD)
  with assms show "table_ok (session_commit table u')"
    and "query_first_by_username (session_commit table u') name = Some u'"
    by (simp_all add: session_commit_table_ok query_first_session_commit)
qed

lemma set_session_commit: "set (session_commit table u') \<subseteq> insert u' (set table)"
  by (simp add: session_commit_def set_replace_by)

lemma list_all_session_commit:
  "list_all P table \<Longrightarrow> P u' \<Longrightarrow> list_all P (session_commit table u')"
  by (simp add: session_commit_def list_all_replace_by)

lemma session_commit_same:
  "table_ok table \<Longrightarrow> u \<in> set table \<Longrightarrow> session_commit table u = table"
  by (simp add: session_commit_def table_ok_def replace_by_idem)

lemma session_add_commit_Inr_iff:
  "session_add_commit table p = Inr table' \<longleftrightarrow>
     (\<exists>h. new_password_hash p = Some h \<and> new_username p \<notin> username ` set table \<and>
        table' = table @ [\<lparr>user_id = next_id table, username = new_username p,
          password_hash = h, failed_login_attempts = 0, lockout_until = None\<rparr>])"
  by (auto simp: session_add_commit_def query_first_None_iff split: option.splits)

lemma session_add_commit_table_ok:
  "table_ok table \<Longrightarrow> session_add_commit table p = Inr table' \<Longrightarrow> table_ok table'"
  using next_id_fresh [of table]
  by (auto simp: session_add_commit_Inr_iff table_ok_def)

lemma query_first_session_add_commit:
  "session_add_commit table p = Inr table' \<Longrightarrow>
   query_first_by_username table' name =
     (if name = new_username p then Some (last table') else query_first_by_username table name)"
  by (auto simp: session_add_commit_Inr_iff query_first_by_username_def first_by_append
      first_by_absent split: option.splits)


end
