(* ===== verification/Auth_Invariant.thy ===== *)
theory Auth_Invariant
  imports Config User_Store
begin

text \<open>
  The state invariant of the service: what holds of the \<^verbatim>\<open>users\<close> table after
  any sequence of requests under one configuration. It joins the table
  constraints of \<open>User_Store\<close> with three facts the handlers of
  \<^verbatim>\<open>src/app.py\<close> maintain for every row: the user name is not empty, the
  failure counter is not negative, and a row that carries a lockout time has a
  counter at or above the threshold. The handler theories prove that their
  handler keeps it; this theory holds the predicate and the lemmas on how it
  behaves under the two table writes.
\<close>

section \<open>The invariant\<close>

definition row_ok :: "config \<Rightarrow> user \<Rightarrow> bool" where
  "row_ok cfg u \<longleftrightarrow>
     username u \<noteq> [] \<and> 0 \<le> failed_login_attempts u \<and>
     (lockout_until u \<noteq> None \<longrightarrow> LOCKOUT_ATTEMPTS cfg \<le> failed_login_attempts u)"

definition db_ok :: "config \<Rightarrow> db \<Rightarrow> bool" where
  "db_ok cfg table \<longleftrightarrow> table_ok table \<and> list_all (row_ok cfg) table"

text \<open>
  \<open>same_identity u u'\<close>: the object \<open>u'\<close> is the loaded row \<open>u\<close> with no
  assignment to its key or its user name, which is how every handler changes
  a user.
\<close>

definition same_identity :: "user \<Rightarrow> user \<Rightarrow> bool" where
  "same_identity u u' \<longleftrightarrow> user_id u' = user_id u \<and> username u' = username u"

section \<open>Lemmas\<close>

lemma db_ok_Nil [simp]: "db_ok cfg []"
  by (simp add: db_ok_def table_ok_def)

lemma db_ok_table_ok: "db_ok cfg table \<Longrightarrow> table_ok table"
  by (simp add: db_ok_def)

lemma db_ok_row_ok: "db_ok cfg table \<Longrightarrow> u \<in> set table \<Longrightarrow> row_ok cfg u"
  by (simp add: db_ok_def list_all_iff)

lemma db_ok_query_first:
  "db_ok cfg table \<Longrightarrow> query_first_by_username table name = Some u \<Longrightarrow>
   u \<in> set table \<and> username u = name \<and> row_ok cfg u"
  by (auto dest: query_first_SomeD db_ok_row_ok)

lemma same_identity_refl [simp]: "same_identity u u"
  by (simp add: same_identity_def)

lemma same_identity_update [simp]:
  "same_identity u (u'\<lparr>failed_login_attempts := c\<rparr>) = same_identity u u'"
  "same_identity u (u'\<lparr>lockout_until := l\<rparr>) = same_identity u u'"
  "same_identity u (u'\<lparr>password_hash := h\<rparr>) = same_identity u u'"
  "same_identity u (set_password H salt password u') = same_identity u u'"
  by (simp_all add: same_identity_def)

lemma row_ok_reset [simp]:
  "row_ok cfg (u\<lparr>failed_login_attempts := 0, lockout_until := None\<rparr>) \<longleftrightarrow> username u \<noteq> []"
  by (simp add: row_ok_def)

lemma row_ok_password [simp]:
  "row_ok cfg (u\<lparr>password_hash := h\<rparr>) = row_ok cfg u"
  "row_ok cfg (set_password H salt password u) = row_ok cfg u"
  by (simp_all add: row_ok_def)

lemma row_ok_increment:
  "row_ok cfg u \<Longrightarrow> failed_login_attempts u + 1 < LOCKOUT_ATTEMPTS cfg \<Longrightarrow>
   row_ok cfg (u\<lparr>failed_login_attempts := failed_login_attempts u + 1\<rparr>)"
  by (auto simp: row_ok_def)

lemma row_ok_lock:
  "row_ok cfg u \<Longrightarrow> LOCKOUT_ATTEMPTS cfg \<le> failed_login_attempts u + 1 \<Longrightarrow>
   row_ok cfg (u\<lparr>failed_login_attempts := failed_login_attempts u + 1, lockout_until := Some t\<rparr>)"
  by (simp add: row_ok_def)

lemma row_ok_unlocked_below:
  "row_ok cfg u \<Longrightarrow> failed_login_attempts u < LOCKOUT_ATTEMPTS cfg \<Longrightarrow> lockout_until u = None"
  by (auto simp: row_ok_def)

lemma db_ok_session_commit:
  assumes "db_ok cfg table" and "u \<in> set table" and "same_identity u u'" and "row_ok cfg u'"
  shows "db_ok cfg (session_commit table u')"
  using assms
  by (simp add: db_ok_def same_identity_def session_commit_table_ok list_all_session_commit)

lemma db_ok_session_add_commit:
  assumes "db_ok cfg table" and "session_add_commit table p = Inr table'"
    and "new_username p \<noteq> []"
  shows "db_ok cfg table'"
proof -
  from assms(1,2) have "table_ok table'"
    by (auto simp: db_ok_def intro: session_add_commit_table_ok)
  moreover from assms have "list_all (row_ok cfg) table'"
    by (auto simp: db_ok_def session_add_commit_Inr_iff row_ok_def)
  ultimately show ?thesis by (simp add: db_ok_def)
qed

end
