(* ===== verification/Auth_Examples.thy ===== *)
theory Auth_Examples
  imports Auth_Invariant
begin

text \<open>
  Concrete states used to instantiate the theorems of the handler theories:
  the default configuration, and rows for two users under the reference
  hasher at different points of the lockout cycle. Times are small numbers of
  microseconds.
\<close>

definition cfg0 :: config where
  "cfg0 = Config Map.empty"

definition alice :: user where
  "alice = \<lparr>user_id = 1, username = ''alice'', password_hash = ref_generate 7 ''p1'',
     failed_login_attempts = 0, lockout_until = None\<rparr>"

definition alice_failed :: "int \<Rightarrow> user" where
  "alice_failed n = alice\<lparr>failed_login_attempts := n\<rparr>"

definition alice_locked :: "datetime \<Rightarrow> user" where
  "alice_locked t = alice\<lparr>failed_login_attempts := 3, lockout_until := Some t\<rparr>"

definition bob :: user where
  "bob = \<lparr>user_id = 2, username = ''bob'', password_hash = ref_generate 3 ''hunter2'',
     failed_login_attempts = 1, lockout_until = None\<rparr>"

lemma cfg0_sel [simp]:
  "LOCKOUT_ATTEMPTS cfg0 = 3" "LOCKOUT_DURATION_MINUTES cfg0 = 2"
  "lockout_duration cfg0 = 120000000" "config_ok cfg0"
  by (simp_all add: cfg0_def)

lemma alice_sel [simp]:
  "user_id alice = 1" "username alice = ''alice''"
  "password_hash alice = ref_generate 7 ''p1''"
  "failed_login_attempts alice = 0" "lockout_until alice = None"
  by (simp_all add: alice_def)

lemma alice_failed_sel [simp]:
  "user_id (alice_failed n) = 1" "username (alice_failed n) = ''alice''"
  "password_hash (alice_failed n) = ref_generate 7 ''p1''"
  "failed_login_attempts (alice_failed n) = n" "lockout_until (alice_failed n) = None"
  by (simp_all add: alice_failed_def)

lemma alice_locked_sel [simp]:
  "user_id (alice_locked t) = 1" "username (alice_locked t) = ''alice''"
  "password_hash (alice_locked t) = ref_generate 7 ''p1''"
  "failed_login_attempts (alice_locked t) = 3" "lockout_until (alice_locked t) = Some t"
  by (simp_all add: alice_locked_def)

lemma bob_sel [simp]:
  "user_id bob = 2" "username bob = ''bob''"
  "password_hash bob = ref_generate 3 ''hunter2''"
  "failed_login_attempts bob = 1" "lockout_until bob = None"
  by (simp_all add: bob_def)

lemma alice_failed_0 [simp]: "alice_failed 0 = alice"
  by (simp add: alice_failed_def alice_def)

lemma check_password_examples [simp]:
  "check_password ref_hasher alice p \<longleftrightarrow> p = ''p1''"
  "check_password ref_hasher (alice_failed n) p \<longleftrightarrow> p = ''p1''"
  "check_password ref_hasher (alice_locked t) p \<longleftrightarrow> p = ''p1''"
  "check_password ref_hasher bob p \<longleftrightarrow> p = ''hunter2''"
  by (simp_all add: check_password_def)

lemma table_ok_examples [simp]:
  "table_ok [alice, bob]" "table_ok [alice_failed n, bob]" "table_ok [alice_locked t, bob]"
  by (simp_all add: table_ok_def)

lemma db_ok_examples [simp]:
  "db_ok cfg0 [alice, bob]" "db_ok cfg0 [alice_locked t, bob]"
  "0 \<le> n \<Longrightarrow> db_ok cfg0 [alice_failed n, bob]"
  by (simp_all add: db_ok_def row_ok_def)

end
