(* ===== verification/Login.thy ===== *)
theory Login
  imports Auth_Examples
begin

text \<open>
  The login handler \<^verbatim>\<open>api_login\<close> of \<^verbatim>\<open>src/app.py\<close>, the account-lockout state
  machine of the service. The handler is one definition with the branches of
  the code in the code's order. The lemmas give its result on every branch,
  its frame (what a login can never change), preservation of the state
  invariant, and the lockout rules: no change while locked, reset on
  success, count and lock on failure, natural expiry.
\<close>

section \<open>The handler\<close>

text \<open>The response of a login attempt on a locked account.\<close>

definition locked_response :: "user \<Rightarrow> response" where
  "locked_response u =
     jsonify_status
       [(''error'', JString ''Account locked. Try again later.''),
        (''locked_until'', lockout_until_isoformat u)] 403"

text \<open>
  \<open>clk 0\<close> is the clock reading inside \<^verbatim>\<open>is_locked\<close>, \<open>clk 1\<close> the later
  reading that the new lockout time is computed from.
\<close>

definition api_login ::
    "config \<Rightarrow> 's hasher \<Rightarrow> clock \<Rightarrow> json_request \<Rightarrow> db \<Rightarrow> response \<times> db" where
  "api_login cfg H clk data table =
     (let name = data ''username''; password = data ''password'' in
      if py_not name \<or> py_not password then
        (error_response ''Username and password are required'' 400, table)
      else
        case query_first_by_username table (py_str name) of
          None \<Rightarrow> (error_response ''Invalid credentials'' 401, table)
        | Some user \<Rightarrow>
            if is_locked user (clk 0) then (locked_response user, table)
            else if \<not> check_password H user (py_str password) then
              (let user1 = user\<lparr>failed_login_attempts := failed_login_attempts user + 1\<rparr> in
               if LOCKOUT_ATTEMPTS cfg \<le> failed_login_attempts user1 then
                 (error_response ''Account locked due to too many failed attempts'' 403,
                  session_commit table
                    (user1\<lparr>lockout_until := Some (clk 1 + lockout_duration cfg)\<rparr>))
               else
                 (error_response ''Invalid credentials'' 401, session_commit table user1))
            else
              (message_response ''Login successful'' 200,
               session_commit table
                 (user\<lparr>failed_login_attempts := 0, lockout_until := None\<rparr>)))"


section \<open>The result on every branch\<close>


lemma api_login_invalid:
  "py_not (data ''username'') \<or> py_not (data ''password'') \<Longrightarrow>
   api_login cfg H clk data table =
     (error_response ''Username and password are required'' 400, table)"
  by (simp add: api_login_def)

lemma api_login_valid:
  "has_credentials data name password \<Longrightarrow>
   api_login cfg H clk data table =
     (case query_first_by_username table name of
        None \<Rightarrow> (error_response ''Invalid credentials'' 401, table)
      | Some user \<Rightarrow>
          if is_locked user (clk 0) then (locked_response user, table)
          else if \<not> check_password H user password then
            (if LOCKOUT_ATTEMPTS cfg \<le> failed_login_attempts user + 1 then
               (error_response ''Account locked due to too many failed attempts'' 403,
                session_commit table
                  (user\<lparr>failed_login_attempts := failed_login_attempts user + 1,
                        lockout_until := Some (clk 1 + lockout_duration cfg)\<rparr>))
             else
               (error_response ''Invalid credentials'' 401,
                session_commit table
                  (user\<lparr>failed_login_attempts := failed_login_attempts user + 1\<rparr>)))
          else
            (message_response ''Login successful'' 200,
             session_commit table
               (user\<lparr>failed_login_attempts := 0, lockout_until := None\<rparr>)))"
  by (simp add: api_login_def has_credentials_def Let_def split: option.split)

lemma api_login_unknown:
  "has_credentials data name password \<Longrightarrow> query_first_by_username table name = None \<Longrightarrow>
   api_login cfg H clk data table = (error_response ''Invalid credentials'' 401, table)"
  by (simp add: api_login_valid)

lemma api_login_locked:
  "has_credentials data name password \<Longrightarrow> query_first_by_username table name = Some u \<Longrightarrow>
   is_locked u (clk 0) \<Longrightarrow>
   api_login cfg H clk data table = (locked_response u, table)"
  by (simp add: api_login_valid)

lemma api_login_success:
  "has_credentials data name password \<Longrightarrow> query_first_by_username table name = Some u \<Longrightarrow>
   \<not> is_locked u (clk 0) \<Longrightarrow> check_password H u password \<Longrightarrow>
   api_login cfg H clk data table =
     (message_response ''Login successful'' 200,
      session_commit table (u\<lparr>failed_login_attempts := 0, lockout_until := None\<rparr>))"
  by (simp add: api_login_valid)

lemma api_login_wrong:
  "has_credentials data name password \<Longrightarrow> query_first_by_username table name = Some u \<Longrightarrow>
   \<not> is_locked u (clk 0) \<Longrightarrow> \<not> check_password H u password \<Longrightarrow>
   failed_login_attempts u + 1 < LOCKOUT_ATTEMPTS cfg \<Longrightarrow>
   api_login cfg H clk data table =
     (error_response ''Invalid credentials'' 401,
      session_commit table (u\<lparr>failed_login_attempts := failed_login_attempts u + 1\<rparr>))"
  by (simp add: api_login_valid)

lemma api_login_wrong_lock:
  "has_credentials data name password \<Longrightarrow> query_first_by_username table name = Some u \<Longrightarrow>
   \<not> is_locked u (clk 0) \<Longrightarrow> \<not> check_password H u password \<Longrightarrow>
   LOCKOUT_ATTEMPTS cfg \<le> failed_login_attempts u + 1 \<Longrightarrow>
   api_login cfg H clk data table =
     (error_response ''Account locked due to too many failed attempts'' 403,
      session_commit table
        (u\<lparr>failed_login_attempts := failed_login_attempts u + 1,
           lockout_until := Some (clk 1 + lockout_duration cfg)\<rparr>))"
  by (simp add: api_login_valid)

lemmas api_login_branches =
  api_login_unknown api_login_locked api_login_success api_login_wrong api_login_wrong_lock

text \<open>
  Every login request falls into exactly one of six cases; the case rule
  below is how the theorems of this theory split on a request.
\<close>


lemma api_login_cases [case_names invalid unknown locked success wrong wrong_lock]:
  fixes cfg :: config and H :: "'s hasher"
  obtains
    (invalid) "py_not (data ''username'') \<or> py_not (data ''password'')"
  | (unknown) name password where "has_credentials data name password"
      "query_first_by_username table name = None"
  | (locked) name password u where "has_credentials data name password"
      "query_first_by_username table name = Some u" "is_locked u (clk 0)"
  | (success) name password u where "has_credentials data name password"
      "query_first_by_username table name = Some u" "\<not> is_locked u (clk 0)"
      "check_password H u password"
  | (wrong) name password u where "has_credentials data name password"
      "query_first_by_username table name = Some u" "\<not> is_locked u (clk 0)"
      "\<not> check_password H u password"
      "failed_login_attempts u + 1 < LOCKOUT_ATTEMPTS cfg"
  | (wrong_lock) name password u where "has_credentials data name password"
      "query_first_by_username table name = Some u" "\<not> is_locked u (clk 0)"
      "\<not> check_password H u password"
      "LOCKOUT_ATTEMPTS cfg \<le> failed_login_attempts u + 1"
proof (cases "py_not (data ''username'') \<or> py_not (data ''password'')")
  case True
  then show ?thesis by (rule invalid)
next
  case False
  then have c: "has_credentials data (py_str (data ''username'')) (py_str (data ''password''))"
    by (rule credentials_of_valid)
  show ?thesis
  proof (cases "query_first_by_username table (py_str (data ''username''))")
    case None
    with c show ?thesis by (rule unknown)
  next
    case (Some u)
    with c show ?thesis
      using locked success wrong wrong_lock by (meson not_le)
  qed
qed


section \<open>Effect on the table\<close>

text \<open>
  A login leaves the table alone or writes one row back: the row of the named
  user, with the same key, user name and password hash, and satisfying the
  row invariant if it did before.
\<close>

lemma api_login_effect:
  fixes cfg :: config and H :: "'s hasher"
  obtains (unchanged) "snd (api_login cfg H clk data table) = table"
  | (written) u u' where "u \<in> set table" "username u = py_str (data ''username'')"
      "same_identity u u'" "password_hash u' = password_hash u"
      "row_ok cfg u \<longrightarrow> row_ok cfg u'"
      "snd (api_login cfg H clk data table) = session_commit table u'"
      "failed_login_attempts u' = 0 \<or>
       failed_login_attempts u' = failed_login_attempts u + 1"
proof (cases rule: api_login_cases [where data=data and table=table and clk=clk and H=H and cfg=cfg])
  case invalid
  then show ?thesis by (intro unchanged) (simp add: api_login_invalid)
next
  case (unknown name password)
  then show ?thesis by (intro unchanged) (simp add: api_login_unknown)
next
  case (locked name password u)
  then show ?thesis by (intro unchanged) (simp add: api_login_locked)
next
  case (success name password u)
  then show ?thesis
    by (intro written [of u "u\<lparr>failed_login_attempts := 0, lockout_until := None\<rparr>"])
      (auto simp: api_login_success has_credentials_py_str row_ok_def dest: query_first_SomeD)
next
  case (wrong name password u)
  then show ?thesis
    by (intro written [of u "u\<lparr>failed_login_attempts := failed_login_attempts u + 1\<rparr>"])
      (auto simp: api_login_wrong has_credentials_py_str row_ok_increment dest: query_first_SomeD)
next
  case (wrong_lock name password u)
  then show ?thesis
    by (intro written [of u "u\<lparr>failed_login_attempts := failed_login_attempts u + 1,
          lockout_until := Some (clk 1 + lockout_duration cfg)\<rparr>"])
      (auto simp: api_login_wrong_lock has_credentials_py_str row_ok_lock dest: query_first_SomeD)
qed

lemma api_login_db_ok:
  assumes "db_ok cfg table"
  shows "db_ok cfg (snd (api_login cfg H clk data table))"
proof (cases rule: api_login_effect [where data=data and table=table and clk=clk and H=H and cfg=cfg])
  case unchanged
  with assms show ?thesis by simp
next
  case (written u u')
  with assms show ?thesis
    by (simp add: db_ok_session_commit db_ok_row_ok)
qed

lemma api_login_frame:
  assumes "table_ok table"
  shows "map user_id (snd (api_login cfg H clk data table)) = map user_id table \<and>
         map username (snd (api_login cfg H clk data table)) = map username table \<and>
         map password_hash (snd (api_login cfg H clk data table)) = map password_hash table"
proof (cases rule: api_login_effect [where data=data and table=table and clk=clk and H=H and cfg=cfg])
  case unchanged
  then show ?thesis by simp
next
  case (written u u')
  with assms show ?thesis
    by (simp add: same_identity_def session_commit_proj)
qed

lemma api_login_others:
  assumes "table_ok table" and "name \<noteq> py_str (data ''username'')"
  shows "query_first_by_username (snd (api_login cfg H clk data table)) name =
         query_first_by_username table name"
proof (cases rule: api_login_effect [where data=data and table=table and clk=clk and H=H and cfg=cfg])
  case unchanged
  then show ?thesis by simp
next
  case (written u u')
  with assms show ?thesis
    by (simp add: same_identity_def query_first_session_commit)
qed


section \<open>The lockout rules\<close>

text \<open>
  Claim C1. A login attempt on a locked account fails with status 403 and the
  current \<open>lockout_until\<close> in the body, whatever the password, and leaves
  the table as it was: the failure counter is not raised and the lockout is
  neither extended nor shortened.
\<close>
theorem login_locked_unchanged:
  assumes "has_credentials data name password"
    and "query_first_by_username table name = Some u"
    and "is_locked u (clk 0)"
  shows "snd (api_login cfg H clk data table) = table \<and>
         status (fst (api_login cfg H clk data table)) = 403 \<and>
         (\<exists>t. lockout_until u = Some t \<and> clk 0 < t \<and>
            body (fst (api_login cfg H clk data table)) =
              Jsonify (JDict [(''error'', JString ''Account locked. Try again later.''),
                              (''locked_until'', JIsoformat t)]))"
  using assms
  by (auto simp: api_login_locked locked_response_def lockout_until_isoformat_def is_locked_iff)

theorem login_locked_unchanged_witness:
  "snd (api_login cfg0 ref_hasher (\<lambda>_. 500) (credentials ''alice'' ''p1'') [alice_locked 900, bob])
     = [alice_locked 900, bob] \<and>
   status (fst (api_login cfg0 ref_hasher (\<lambda>_. 500) (credentials ''alice'' ''p1'')
     [alice_locked 900, bob])) = 403"
  using login_locked_unchanged [of "credentials ''alice'' ''p1''" "''alice''" "''p1''"
      "[alice_locked 900, bob]" "alice_locked 900" "\<lambda>_. 500" cfg0 ref_hasher]
  by simp

text \<open>
  Claim C3. A login with the right password on an account that is not locked
  answers 200 and stores the user with the failure counter at zero and no
  lockout time, whatever the counter and the lockout time were before.
\<close>
theorem login_success_resets:
  assumes "table_ok table"
    and "has_credentials data name password"
    and "query_first_by_username table name = Some u"
    and "\<not> is_locked u (clk 0)"
    and "check_password H u password"
  shows "status (fst (api_login cfg H clk data table)) = 200 \<and>
         query_first_by_username (snd (api_login cfg H clk data table)) name =
           Some (u\<lparr>failed_login_attempts := 0, lockout_until := None\<rparr>)"
proof -
  from assms(1,3) have "u \<in> set table" and "username u = name"
    by (auto dest: query_first_SomeD)
  with assms show ?thesis
    by (simp add: api_login_success query_first_session_commit)
qed

theorem login_success_resets_witness:
  "status (fst (api_login cfg0 ref_hasher (\<lambda>_. 500) (credentials ''alice'' ''p1'')
     [alice_failed 2, bob])) = 200 \<and>
   query_first_by_username (snd (api_login cfg0 ref_hasher (\<lambda>_. 500)
     (credentials ''alice'' ''p1'') [alice_failed 2, bob])) ''alice'' = Some alice"
  using login_success_resets [where table="[alice_failed 2, bob]" and name="''alice''"
      and data="credentials ''alice'' ''p1''" and password="''p1''" and u="alice_failed 2"
      and clk="\<lambda>_. 500" and H=ref_hasher and cfg=cfg0, simplified]
  by (simp add: alice_failed_def alice_def)

text \<open>
  Claim C2. A login with a wrong password on an account that is not locked
  raises the failure counter by one. If the raised counter reaches the
  threshold, the lockout time becomes the second clock reading plus the
  configured duration and the status is 403; otherwise the lockout time is
  kept and the status is 401.
\<close>
theorem login_failure_counts:
  assumes "table_ok table"
    and "has_credentials data name password"
    and "query_first_by_username table name = Some u"
    and "\<not> is_locked u (clk 0)"
    and "\<not> check_password H u password"
  shows "query_first_by_username (snd (api_login cfg H clk data table)) name =
           Some (u\<lparr>failed_login_attempts := failed_login_attempts u + 1,
                   lockout_until :=
                     (if LOCKOUT_ATTEMPTS cfg \<le> failed_login_attempts u + 1
                      then Some (clk 1 + lockout_duration cfg) else lockout_until u)\<rparr>) \<and>
         status (fst (api_login cfg H clk data table)) =
           (if LOCKOUT_ATTEMPTS cfg \<le> failed_login_attempts u + 1 then 403 else 401)"
proof -
  from assms(1,3) have u: "u \<in> set table" "username u = name"
    by (auto dest: query_first_SomeD)
  show ?thesis
  proof (cases "LOCKOUT_ATTEMPTS cfg \<le> failed_login_attempts u + 1")
    case True
    with assms u show ?thesis
      by (simp add: api_login_wrong_lock query_first_session_commit)
  next
    case False
    with assms u show ?thesis
      by (simp add: api_login_wrong query_first_session_commit)
  qed
qed

theorem login_failure_counts_witness:
  "query_first_by_username (snd (api_login cfg0 ref_hasher (\<lambda>_. 500)
     (credentials ''alice'' ''wrong'') [alice_failed 2, bob])) ''alice'' =
     Some (alice_locked 120000500) \<and>
   status (fst (api_login cfg0 ref_hasher (\<lambda>_. 500)
     (credentials ''alice'' ''wrong'') [alice_failed 2, bob])) = 403"
  using login_failure_counts [where table="[alice_failed 2, bob]" and name="''alice''"
      and data="credentials ''alice'' ''wrong''" and password="''wrong''" and u="alice_failed 2"
      and clk="\<lambda>_. 500" and H=ref_hasher and cfg=cfg0, simplified]
  by (simp add: alice_failed_def alice_locked_def)




lemma status_locked_response [simp]: "status (locked_response u) = 403"
  by (simp add: locked_response_def)

text \<open>
  Claim C4. A login is accepted (status 200) exactly when the request carries
  both fields, the named user exists, the account is not locked at the first
  clock reading, and the password verifies against the stored hash.
\<close>
theorem login_accepts_iff:
  "status (fst (api_login cfg H clk data table)) = 200 \<longleftrightarrow>
     (\<exists>name password u. has_credentials data name password \<and>
        query_first_by_username table name = Some u \<and>
        \<not> is_locked u (clk 0) \<and> check_password H u password)"
proof (cases rule: api_login_cases [where data=data and table=table and clk=clk and H=H and cfg=cfg])
  case invalid
  then show ?thesis
    by (auto simp: api_login_invalid dest: has_credentials_valid)
next
  case (unknown name password)
  then show ?thesis
    by (auto simp: api_login_unknown dest: has_credentials_unique)
next
  case (locked name password u)
  then show ?thesis
    by (auto simp: api_login_locked dest: has_credentials_unique)
next
  case (success name password u)
  then show ?thesis
    by (auto simp: api_login_success)
next
  case (wrong name password u)
  then show ?thesis
    by (auto simp: api_login_wrong dest: has_credentials_unique)
next
  case (wrong_lock name password u)
  then show ?thesis
    by (auto simp: api_login_wrong_lock dest: has_credentials_unique)
qed

theorem login_accepts_iff_witness:
  "status (fst (api_login cfg0 ref_hasher (\<lambda>_. 500) (credentials ''bob'' ''hunter2'')
      [alice, bob])) = 200 \<and>
   status (fst (api_login cfg0 ref_hasher (\<lambda>_. 500) (credentials ''bob'' ''hunter3'')
      [alice, bob])) \<noteq> 200"
  using login_accepts_iff [of cfg0 ref_hasher "\<lambda>_. 500" "credentials ''bob'' ''hunter2''"
      "[alice, bob]"]
    login_accepts_iff [of cfg0 ref_hasher "\<lambda>_. 500" "credentials ''bob'' ''hunter3''"
      "[alice, bob]"]
  by simp




lemmas api_login_credentials =
  api_login_valid [where data = "credentials name password" and name = name
    and password = password, simplified] for name password

text \<open>The rows a login can leave in place of a row \<open>u\<close>.\<close>

definition login_row_results :: "config \<Rightarrow> clock \<Rightarrow> user \<Rightarrow> user list" where
  "login_row_results cfg clk u =
     [u,
      u\<lparr>failed_login_attempts := 0, lockout_until := None\<rparr>,
      u\<lparr>failed_login_attempts := failed_login_attempts u + 1\<rparr>,
      u\<lparr>failed_login_attempts := failed_login_attempts u + 1,
        lockout_until := Some (clk 1 + lockout_duration cfg)\<rparr>]"

lemma api_login_row:
  assumes "table_ok table" and "query_first_by_username table n = Some u"
  shows "\<exists>u' \<in> set (login_row_results cfg clk u).
           query_first_by_username (snd (api_login cfg H clk data table)) n = Some u'"
proof (cases rule: api_login_cases [where data=data and table=table and clk=clk and H=H and cfg=cfg])
  case invalid
  with assms show ?thesis by (simp add: api_login_invalid login_row_results_def)
next
  case (unknown name password)
  with assms show ?thesis by (simp add: api_login_unknown login_row_results_def)
next
  case (locked name password v)
  with assms show ?thesis by (simp add: api_login_locked login_row_results_def)
next
  case (success name password v)
  moreover from success assms have "v \<in> set table" "username v = name"
    by (auto dest: query_first_SomeD)
  ultimately show ?thesis using assms
    by (auto simp: api_login_success query_first_session_commit login_row_results_def)
next
  case (wrong name password v)
  moreover from wrong assms have "v \<in> set table" "username v = name"
    by (auto dest: query_first_SomeD)
  ultimately show ?thesis using assms
    by (auto simp: api_login_wrong query_first_session_commit login_row_results_def)
next
  case (wrong_lock name password v)
  moreover from wrong_lock assms have "v \<in> set table" "username v = name"
    by (auto dest: query_first_SomeD)
  ultimately show ?thesis using assms
    by (auto simp: api_login_wrong_lock query_first_session_commit login_row_results_def)
qed

text \<open>
  Claim C31. Whenever a login changes a user's \<open>lockout_until\<close> to a time
  \<open>t\<close>, that time is the second clock reading of the request plus the
  configured duration, hence strictly later than the moment it is set.
\<close>
theorem login_lockout_in_future:
  assumes "config_ok cfg" and "table_ok table"
    and "query_first_by_username table n = Some u"
    and "query_first_by_username (snd (api_login cfg H clk data table)) n = Some u'"
    and "lockout_until u' = Some t" and "lockout_until u \<noteq> Some t"
  shows "t = clk 1 + lockout_duration cfg \<and> clk 1 < t"
proof -
  from api_login_row [OF assms(2,3), of cfg clk H data] assms(4)
  have "u' \<in> set (login_row_results cfg clk u)" by auto
  with assms(5,6) have "t = clk 1 + lockout_duration cfg"
    by (auto simp: login_row_results_def)
  with lockout_duration_pos [OF assms(1)] show ?thesis by simp
qed

theorem login_lockout_in_future_witness:
  "query_first_by_username [alice_failed 2, bob] ''alice'' = Some (alice_failed 2) \<and>
   query_first_by_username
     (snd (api_login cfg0 ref_hasher (\<lambda>k. if k = 0 then 500 else 600)
        (credentials ''alice'' ''wrong'') [alice_failed 2, bob])) ''alice'' =
     Some (alice_locked 120000600) \<and>
   lockout_until (alice_failed 2) \<noteq> Some 120000600 \<and>
   (120000600::int) = 600 + lockout_duration cfg0 \<and> (600::int) < 120000600"
  using login_lockout_in_future [where cfg=cfg0 and table="[alice_failed 2, bob]"
      and n="''alice''" and u="alice_failed 2" and u'="alice_locked 120000600"
      and H=ref_hasher and clk="\<lambda>k. if k = 0 then 500 else 600"
      and data="credentials ''alice'' ''wrong''" and t=120000600]
  by (simp add: api_login_credentials alice_failed_def alice_locked_def)



text \<open>
  Claim C32. A lockout ends by itself: once the clock has reached
  \<open>lockout_until\<close>, a login with the right password is accepted and clears
  the counter and the lockout time, with no unlock action in between.
\<close>
theorem login_after_expiry:
  assumes "table_ok table"
    and "has_credentials data name password"
    and "query_first_by_username table name = Some u"
    and "lockout_until u = Some t" and "t \<le> clk 0"
    and "check_password H u password"
  shows "status (fst (api_login cfg H clk data table)) = 200 \<and>
         query_first_by_username (snd (api_login cfg H clk data table)) name =
           Some (u\<lparr>failed_login_attempts := 0, lockout_until := None\<rparr>)"
proof -
  from assms(4,5) have "\<not> is_locked u (clk 0)" by simp
  moreover from assms(1,3) have "u \<in> set table" and "username u = name"
    by (auto dest: query_first_SomeD)
  ultimately show ?thesis
    using assms by (simp add: api_login_success query_first_session_commit)
qed

theorem login_after_expiry_witness:
  "lockout_until (alice_locked 900) = Some 900 \<and> (900::int) \<le> 900 \<and>
   status (fst (api_login cfg0 ref_hasher (\<lambda>_. 900) (credentials ''alice'' ''p1'')
     [alice_locked 900, bob])) = 200"
  using login_after_expiry [where table="[alice_locked 900, bob]" and name="''alice''"
      and data="credentials ''alice'' ''p1''" and password="''p1''" and u="alice_locked 900"
      and t=900 and clk="\<lambda>_. 900" and H=ref_hasher and cfg=cfg0]
  by simp

text \<open>
  Claim C30. Expiry of a lockout does not clear the failure counter. In a state
  that satisfies the invariant, one wrong password on an account whose lockout
  has expired locks it again at once, for the full duration.
\<close>
theorem login_relock_after_expiry:
  assumes "db_ok cfg table"
    and "has_credentials data name password"
    and "query_first_by_username table name = Some u"
    and "lockout_until u = Some t" and "t \<le> clk 0"
    and "\<not> check_password H u password"
  shows "status (fst (api_login cfg H clk data table)) = 403 \<and>
         query_first_by_username (snd (api_login cfg H clk data table)) name =
           Some (u\<lparr>failed_login_attempts := failed_login_attempts u + 1,
                   lockout_until := Some (clk 1 + lockout_duration cfg)\<rparr>)"
proof -
  from assms(1,3) have "row_ok cfg u" by (auto dest: db_ok_query_first)
  with assms(4) have "LOCKOUT_ATTEMPTS cfg \<le> failed_login_attempts u + 1"
    by (simp add: row_ok_def)
  moreover from assms(4,5) have "\<not> is_locked u (clk 0)" by simp
  moreover from assms(1) have "table_ok table" by (rule db_ok_table_ok)
  moreover from assms(1,3) have "u \<in> set table" and "username u = name"
    by (auto dest: query_first_SomeD)
  ultimately show ?thesis
    using assms(2,3,6) by (simp add: api_login_wrong_lock query_first_session_commit)
qed

theorem login_relock_after_expiry_witness:
  "db_ok cfg0 [alice_locked 900, bob] \<and> (900::int) \<le> 1000 \<and>
   status (fst (api_login cfg0 ref_hasher (\<lambda>_. 1000) (credentials ''alice'' ''oops'')
     [alice_locked 900, bob])) = 403 \<and>
   query_first_by_username (snd (api_login cfg0 ref_hasher (\<lambda>_. 1000)
     (credentials ''alice'' ''oops'') [alice_locked 900, bob])) ''alice'' =
     Some ((alice_locked 900)\<lparr>failed_login_attempts := 4, lockout_until := Some 120001000\<rparr>)"
  using login_relock_after_expiry [where table="[alice_locked 900, bob]" and name="''alice''"
      and data="credentials ''alice'' ''oops''" and password="''oops''" and u="alice_locked 900"
      and t=900 and clk="\<lambda>_. 1000" and H=ref_hasher and cfg=cfg0, simplified]
  by simp


end
