(* ===== verification/Register.thy ===== *)
theory Register
  imports Auth_Examples
begin

text \<open>
  The registration handler \<^verbatim>\<open>api_register\<close> of \<^verbatim>\<open>src/app.py\<close>. It is the
  only handler whose table write can raise: the \<^verbatim>\<open>INSERT\<close> is guarded by the
  constraints of the table. The lemmas give the result on every branch, that
  the guards of the handler make the constraint violations unreachable, what
  the new row holds, and that the invariant is kept.
\<close>

section \<open>The handler\<close>

text \<open>
  \<open>salt\<close> is the randomness \<^verbatim>\<open>generate_password_hash\<close> draws while the
  request is served.
\<close>

definition api_register ::
    "'s hasher \<Rightarrow> 's \<Rightarrow> json_request \<Rightarrow> db \<Rightarrow> (response \<times> db) raises" where
  "api_register H salt data table =
     (let name = data ''username''; password = data ''password'' in
      if py_not name \<or> py_not password then
        Inr (error_response ''Username and password are required'' 400, table)
      else if query_first_by_username table (py_str name) \<noteq> None then
        Inr (error_response ''Username already exists'' 409, table)
      else
        (let new_user = User_init (py_str name);
             new_user = set_password_new H salt (py_str password) new_user
         in case session_add_commit table new_user of
              Inl e \<Rightarrow> Inl e
            | Inr table' \<Rightarrow>
                Inr (message_response
                       (''User '' @ py_str name @ '' registered successfully'') 201,
                     table')))"

text \<open>The row a successful registration appends.\<close>

definition registered_row :: "'s hasher \<Rightarrow> 's \<Rightarrow> string \<Rightarrow> string \<Rightarrow> db \<Rightarrow> user" where
  "registered_row H salt name password table =
     \<lparr>user_id = next_id table, username = name,
      password_hash = generate_password_hash H salt password,
      failed_login_attempts = 0, lockout_until = None\<rparr>"

section \<open>The result on every branch\<close>

lemma api_register_invalid:
  "py_not (data ''username'') \<or> py_not (data ''password'') \<Longrightarrow>
   api_register H salt data table =
     Inr (error_response ''Username and password are required'' 400, table)"
  by (simp add: api_register_def)

lemma api_register_valid:
  "has_credentials data name password \<Longrightarrow>
   api_register H salt data table =
     (if query_first_by_username table name \<noteq> None
      then Inr (error_response ''Username already exists'' 409, table)
      else Inr (message_response (''User '' @ name @ '' registered successfully'') 201,
                table @ [registered_row H salt name password table]))"
  by (simp add: api_register_def has_credentials_def Let_def session_add_commit_def
      registered_row_def)

lemma api_register_conflict:
  "has_credentials data name password \<Longrightarrow> query_first_by_username table name = Some u \<Longrightarrow>
   api_register H salt data table =
     Inr (error_response ''Username already exists'' 409, table)"
  by (simp add: api_register_valid)

lemma api_register_created:
  "has_credentials data name password \<Longrightarrow> query_first_by_username table name = None \<Longrightarrow>
   api_register H salt data table =
     Inr (message_response (''User '' @ name @ '' registered successfully'') 201,
          table @ [registered_row H salt name password table])"
  by (simp add: api_register_valid)

lemmas api_register_credentials =
  api_register_valid [where data = "credentials name password" and name = name
    and password = password, simplified] for name password

lemma api_register_cases [case_names invalid conflict created]:
  obtains
    (invalid) "py_not (data ''username'') \<or> py_not (data ''password'')"
  | (conflict) name password u where "has_credentials data name password"
      "query_first_by_username table name = Some u"
  | (created) name password where "has_credentials data name password"
      "query_first_by_username table name = None"
proof (cases "py_not (data ''username'') \<or> py_not (data ''password'')")
  case True
  then show ?thesis by (rule invalid)
next
  case False
  then have "has_credentials data (py_str (data ''username'')) (py_str (data ''password''))"
    by (rule credentials_of_valid)
  then show ?thesis
    using conflict created
    by (cases "query_first_by_username table (py_str (data ''username''))") auto
qed

lemma registered_row_sel [simp]:
  "user_id (registered_row H salt name password table) = next_id table"
  "username (registered_row H salt name password table) = name"
  "password_hash (registered_row H salt name password table) =
     generate_password_hash H salt password"
  "failed_login_attempts (registered_row H salt name password table) = 0"
  "lockout_until (registered_row H salt name password table) = None"
  by (simp_all add: registered_row_def)

lemma row_ok_registered_row [simp]:
  "row_ok cfg (registered_row H salt name password table) \<longleftrightarrow> name \<noteq> []"
  by (simp add: row_ok_def)

section \<open>Effect on the table\<close>

lemma api_register_effect:
  obtains (unchanged) r where "api_register H salt data table = Inr (r, table)"
      "status r = 400 \<or> status r = 409"
  | (inserted) r name password where "has_credentials data name password"
      "name \<notin> username ` set table"
      "api_register H salt data table =
         Inr (r, table @ [registered_row H salt name password table])"
      "status r = 201"
proof (cases rule: api_register_cases [where data=data and table=table])
  case invalid
  then show ?thesis
    by (intro unchanged [of "error_response ''Username and password are required'' 400"])
      (simp_all add: api_register_invalid)
next
  case (conflict name password u)
  then show ?thesis
    by (intro unchanged [of "error_response ''Username already exists'' 409"])
      (simp_all add: api_register_conflict)
next
  case (created name password)
  then show ?thesis
    by (intro inserted [of name password
          "message_response (''User '' @ name @ '' registered successfully'') 201"])
      (simp_all add: api_register_created query_first_None_iff)
qed

lemma table_ok_append_registered:
  "table_ok table \<Longrightarrow> name \<notin> username ` set table \<Longrightarrow>
   table_ok (table @ [registered_row H salt name password table])"
  using next_id_fresh [of table] by (simp add: table_ok_def)

lemma api_register_db_ok:
  assumes "db_ok cfg table" and "api_register H salt data table = Inr (r, table')"
  shows "db_ok cfg table'"
proof (cases rule: api_register_effect [where H=H and salt=salt and data=data and table=table])
  case (unchanged r0)
  with assms show ?thesis by simp
next
  case (inserted r0 name password)
  with assms have "table' = table @ [registered_row H salt name password table]"
    and "name \<noteq> []"
    by (simp_all add: has_credentials_def)
  with assms(1) inserted(2) show ?thesis
    by (simp add: db_ok_def table_ok_append_registered)
qed

lemma api_register_keeps_rows:
  assumes "api_register H salt data table = Inr (r, table')"
  shows "\<exists>rows. table' = table @ rows \<and> length rows \<le> 1"
proof (cases rule: api_register_effect [where H=H and salt=salt and data=data and table=table])
  case (unchanged r0)
  with assms show ?thesis by simp
next
  case (inserted r0 name password)
  with assms have "table' = table @ [registered_row H salt name password table]" by simp
  then show ?thesis by simp
qed

lemma register_never_raises_aux:
  "\<exists>r table'. api_register H salt data table = Inr (r, table')"
  by (cases rule: api_register_effect [where H=H and salt=salt and data=data and table=table])
    auto

section \<open>Properties of registration\<close>

text \<open>
  Claim C15. Registration never raises: on every request and every table it
  returns a response. The two constraint violations the insert can report
  are excluded by the handler's own guards, the missing hash by
  \<open>set_password\<close> and the duplicate name by the lookup before the insert.
\<close>
theorem register_never_raises:
  "\<exists>r table'. api_register H salt data table = Inr (r, table') \<and>
     status r \<in> {201, 400, 409} \<and> (status r \<noteq> 201 \<longrightarrow> table' = table)"
  by (cases rule: api_register_effect [where H=H and salt=salt and data=data and table=table])
    auto

theorem register_never_raises_witness:
  "\<exists>r table'. api_register ref_hasher 5 (credentials ''alice'' ''again'') [alice, bob] =
      Inr (r, table') \<and> status r = 409 \<and> status r \<noteq> 201 \<and> table' = [alice, bob]"
  using register_never_raises [of ref_hasher 5 "credentials ''alice'' ''again''" "[alice, bob]"]
  by (simp add: api_register_credentials)

text \<open>
  Claim C17. Registering a user name that is not in the table answers 201 and
  appends one row: it carries the next free key, the user name, a hash of the
  password made with the request's salt, a zero failure counter and no
  lockout; a later lookup of the name finds this row, and every row that was
  in the table is still there, unchanged and in the same place.
\<close>
theorem register_creates_user:
  assumes "has_credentials data name password"
    and "query_first_by_username table name = None"
  shows "\<exists>r. api_register H salt data table =
           Inr (r, table @ [registered_row H salt name password table]) \<and>
         status r = 201 \<and>
         query_first_by_username (table @ [registered_row H salt name password table]) name =
           Some (registered_row H salt name password table) \<and>
         user_id (registered_row H salt name password table) \<notin> user_id ` set table \<and>
         failed_login_attempts (registered_row H salt name password table) = 0 \<and>
         lockout_until (registered_row H salt name password table) = None"
  using assms next_id_fresh [of table]
  by (simp add: api_register_created query_first_by_username_def first_by_append)

theorem register_creates_user_witness:
  "has_credentials (credentials ''carol'' ''s3cret'') ''carol'' ''s3cret'' \<and>
   query_first_by_username [alice, bob] ''carol'' = None \<and>
   api_register ref_hasher 5 (credentials ''carol'' ''s3cret'') [alice, bob] =
     Inr (message_response ''User carol registered successfully'' 201,
          [alice, bob,
           \<lparr>user_id = 3, username = ''carol'', password_hash = ''xxxxx$s3cret'',
            failed_login_attempts = 0, lockout_until = None\<rparr>])"
  using register_creates_user [where data="credentials ''carol'' ''s3cret''" and name="''carol''"
      and password="''s3cret''" and table="[alice, bob]" and H=ref_hasher and salt=5]
  by (simp add: api_register_credentials registered_row_def next_id_def max_id_def
      ref_generate_def numeral_eq_Suc)

text \<open>
  Claim C16. Two registrations of the same user name in a row: the second
  answers 409 and changes nothing, and after the first the table holds
  exactly one row with that name.
\<close>
theorem register_twice_conflict:
  assumes "table_ok table"
    and "has_credentials data name password"
    and "has_credentials data' name password'"
    and "api_register H salt data table = Inr (r, table')"
  shows "api_register H salt' data' table' =
           Inr (error_response ''Username already exists'' 409, table') \<and>
         length (filter (\<lambda>u. username u = name) table') = 1"
proof -
  have "table_ok table' \<and> name \<in> username ` set table'"
  proof (cases "query_first_by_username table name")
    case None
    with assms have "table' = table @ [registered_row H salt name password table]"
      by (simp add: api_register_created)
    with assms(1) None show ?thesis
      by (simp add: table_ok_append_registered query_first_None_iff)
  next
    case (Some u)
    with assms have "table' = table" by (simp add: api_register_conflict)
    with assms(1) Some show ?thesis
      by (auto dest: query_first_SomeD)
  qed
  then have ok: "table_ok table'" and found: "name \<in> username ` set table'"
    by simp_all
  from found obtain u where "query_first_by_username table' name = Some u"
    by (cases "query_first_by_username table' name") (auto simp: query_first_None_iff)
  with assms(3) have "api_register H salt' data' table' =
      Inr (error_response ''Username already exists'' 409, table')"
    by (simp add: api_register_conflict)
  moreover from ok found have "length (filter (\<lambda>u. username u = name) table') = 1"
    by (simp add: table_ok_def distinct_count_one)
  ultimately show ?thesis by simp
qed

theorem register_twice_conflict_witness:
  "table_ok [alice, bob] \<and>
   api_register ref_hasher 9 (credentials ''carol'' ''other'')
     (snd (projr (api_register ref_hasher 5 (credentials ''carol'' ''s3cret'') [alice, bob]))) =
   Inr (error_response ''Username already exists'' 409,
     snd (projr (api_register ref_hasher 5 (credentials ''carol'' ''s3cret'') [alice, bob])))"
  using register_twice_conflict [where table="[alice, bob]" and name="''carol''"
      and data="credentials ''carol'' ''s3cret''" and password="''s3cret''"
      and data'="credentials ''carol'' ''other''" and password'="''other''"
      and H=ref_hasher and salt=5 and salt'=9
      and r="message_response ''User carol registered successfully'' 201"
      and table'="[alice, bob, registered_row ref_hasher 5 ''carol'' ''s3cret'' [alice, bob]]"]
  by (simp add: api_register_credentials)

end
