(* ===== verification/Reset.thy ===== *)
theory Reset
  imports Auth_Examples
begin

text \<open>
  The password-reset handler \<^verbatim>\<open>api_reset_password\<close> of \<^verbatim>\<open>src/app.py\<close>. The
  lemmas give its result on every branch, its effect on the table and
  preservation of the invariant; the theorems state when a reset goes
  through, that a lockout blocks it, and what a failed reset reveals.
\<close>

section \<open>The handler\<close>

text \<open>
  \<open>salt\<close> is the randomness of \<^verbatim>\<open>generate_password_hash\<close>; \<open>clk 0\<close> is the
  clock reading inside \<^verbatim>\<open>is_locked\<close>. The password check comes before
  the lock check, as in the code.
\<close>

definition api_reset_password ::
    "'s hasher \<Rightarrow> 's \<Rightarrow> clock \<Rightarrow> json_request \<Rightarrow> db \<Rightarrow> response \<times> db" where
  "api_reset_password H salt clk data table =
     (let name = data ''username'';
          old_password = data ''old_password'';
          new_password = data ''new_password''
      in
      if \<not> py_all [name, old_password, new_password] then
        (error_response ''Username, old_password, and new_password are required'' 400, table)
      else
        case query_first_by_username table (py_str name) of
          None \<Rightarrow> (error_response ''Invalid username or old password'' 401, table)
        | Some user \<Rightarrow>
            if \<not> check_password H user (py_str old_password) then
              (error_response ''Invalid username or old password'' 401, table)
            else if is_locked user (clk 0) then
              (error_response ''Account is locked, cannot reset password right now'' 403,
               table)
            else
              (message_response ''Password reset successful'' 200,
               session_commit table
                 ((set_password H salt (py_str new_password) user)
                    \<lparr>failed_login_attempts := 0, lockout_until := None\<rparr>)))"

text \<open>The row a successful reset writes in place of \<open>u\<close>.\<close>

definition reset_row :: "'s hasher \<Rightarrow> 's \<Rightarrow> string \<Rightarrow> user \<Rightarrow> user" where
  "reset_row H salt new_password u =
     (set_password H salt new_password u)\<lparr>failed_login_attempts := 0, lockout_until := None\<rparr>"

section \<open>The result on every branch\<close>

lemma api_reset_invalid:
  "\<not> py_all [data ''username'', data ''old_password'', data ''new_password''] \<Longrightarrow>
   api_reset_password H salt clk data table =
     (error_response ''Username, old_password, and new_password are required'' 400, table)"
  by (simp add: api_reset_password_def)

lemma api_reset_valid:
  "has_reset_fields data name old new \<Longrightarrow>
   api_reset_password H salt clk data table =
     (case query_first_by_username table name of
        None \<Rightarrow> (error_response ''Invalid username or old password'' 401, table)
      | Some user \<Rightarrow>
          if \<not> check_password H user old then
            (error_response ''Invalid username or old password'' 401, table)
          else if is_locked user (clk 0) then
            (error_response ''Account is locked, cannot reset password right now'' 403, table)
          else
            (message_response ''Password reset successful'' 200,
             session_commit table (reset_row H salt new user)))"
  by (simp add: api_reset_password_def has_reset_fields_def Let_def reset_row_def
      split: option.split)

lemma api_reset_unknown:
  "has_reset_fields data name old new \<Longrightarrow> query_first_by_username table name = None \<Longrightarrow>
   api_reset_password H salt clk data table =
     (error_response ''Invalid username or old password'' 401, table)"
  by (simp add: api_reset_valid)

lemma api_reset_wrong:
  "has_reset_fields data name old new \<Longrightarrow> query_first_by_username table name = Some u \<Longrightarrow>
   \<not> check_password H u old \<Longrightarrow>
   api_reset_password H salt clk data table =
     (error_response ''Invalid username or old password'' 401, table)"
  by (simp add: api_reset_valid)

lemma api_reset_locked:
  "has_reset_fields data name old new \<Longrightarrow> query_first_by_username table name = Some u \<Longrightarrow>
   check_password H u old \<Longrightarrow> is_locked u (clk 0) \<Longrightarrow>
   api_reset_password H salt clk data table =
     (error_response ''Account is locked, cannot reset password right now'' 403, table)"
  by (simp add: api_reset_valid)

lemma api_reset_success:
  "has_reset_fields data name old new \<Longrightarrow> query_first_by_username table name = Some u \<Longrightarrow>
   check_password H u old \<Longrightarrow> \<not> is_locked u (clk 0) \<Longrightarrow>
   api_reset_password H salt clk data table =
     (message_response ''Password reset successful'' 200,
      session_commit table (reset_row H salt new u))"
  by (simp add: api_reset_valid)

lemmas api_reset_branches =
  api_reset_unknown api_reset_wrong api_reset_locked api_reset_success

lemmas api_reset_fields =
  api_reset_valid [where data = "reset_fields name old new" and name = name
    and old = old and new = new, simplified] for name old new

lemma api_reset_cases [case_names invalid unknown wrong locked success]:
  fixes H :: "'s hasher"
  obtains
    (invalid) "\<not> py_all [data ''username'', data ''old_password'', data ''new_password'']"
  | (unknown) name old new where "has_reset_fields data name old new"
      "query_first_by_username table name = None"
  | (wrong) name old new u where "has_reset_fields data name old new"
      "query_first_by_username table name = Some u" "\<not> check_password H u old"
  | (locked) name old new u where "has_reset_fields data name old new"
      "query_first_by_username table name = Some u" "check_password H u old"
      "is_locked u (clk 0)"
  | (success) name old new u where "has_reset_fields data name old new"
      "query_first_by_username table name = Some u" "check_password H u old"
      "\<not> is_locked u (clk 0)"
proof (cases "py_all [data ''username'', data ''old_password'', data ''new_password'']")
  case False
  then show ?thesis by (rule invalid)
next
  case True
  then have c: "has_reset_fields data (py_str (data ''username''))
      (py_str (data ''old_password'')) (py_str (data ''new_password''))"
    by (rule reset_fields_of_valid)
  show ?thesis
  proof (cases "query_first_by_username table (py_str (data ''username''))")
    case None
    with c show ?thesis by (rule unknown)
  next
    case (Some u)
    with c show ?thesis
      using wrong locked success by meson
  qed
qed

lemma reset_row_sel [simp]:
  "user_id (reset_row H salt new u) = user_id u"
  "username (reset_row H salt new u) = username u"
  "password_hash (reset_row H salt new u) = generate_password_hash H salt new"
  "failed_login_attempts (reset_row H salt new u) = 0"
  "lockout_until (reset_row H salt new u) = None"
  by (simp_all add: reset_row_def)

lemma reset_row_facts [simp]:
  "same_identity u (reset_row H salt new u)"
  "row_ok cfg (reset_row H salt new u) \<longleftrightarrow> username u \<noteq> []"
  "\<not> is_locked (reset_row H salt new u) now"
  by (simp_all add: same_identity_def row_ok_def)

section \<open>Effect on the table\<close>

lemma api_reset_effect:
  fixes H :: "'s hasher"
  obtains (unchanged) "snd (api_reset_password H salt clk data table) = table"
      "status (fst (api_reset_password H salt clk data table)) \<noteq> 200"
  | (written) name old new u where "has_reset_fields data name old new"
      "query_first_by_username table name = Some u"
      "check_password H u old" "\<not> is_locked u (clk 0)"
      "api_reset_password H salt clk data table =
         (message_response ''Password reset successful'' 200,
          session_commit table (reset_row H salt new u))"
proof (cases rule: api_reset_cases [where data=data and table=table and clk=clk and H=H])
  case invalid
  then show ?thesis by (intro unchanged) (simp_all add: api_reset_invalid)
next
  case (unknown name old new)
  then show ?thesis by (intro unchanged) (simp_all add: api_reset_unknown)
next
  case (wrong name old new u)
  then show ?thesis by (intro unchanged) (simp_all add: api_reset_wrong)
next
  case (locked name old new u)
  then show ?thesis by (intro unchanged) (simp_all add: api_reset_locked)
next
  case (success name old new u)
  then show ?thesis by (intro written [of name old new u]) (simp_all add: api_reset_success)
qed

lemma api_reset_db_ok:
  assumes "db_ok cfg table"
  shows "db_ok cfg (snd (api_reset_password H salt clk data table))"
proof (cases rule: api_reset_effect [where data=data and table=table and clk=clk and H=H
      and salt=salt])
  case unchanged
  with assms show ?thesis by simp
next
  case (written name old new u)
  moreover from written(2) assms have "u \<in> set table" "row_ok cfg u"
    by (auto dest: db_ok_query_first)
  ultimately show ?thesis
    using assms by (simp add: db_ok_session_commit row_ok_def)
qed

lemma api_reset_frame:
  assumes "table_ok table"
  shows "map user_id (snd (api_reset_password H salt clk data table)) = map user_id table \<and>
         map username (snd (api_reset_password H salt clk data table)) = map username table"
proof (cases rule: api_reset_effect [where data=data and table=table and clk=clk and H=H
      and salt=salt])
  case unchanged
  then show ?thesis by simp
next
  case (written name old new u)
  moreover from written(2) have "u \<in> set table" by (auto dest: query_first_SomeD)
  ultimately show ?thesis
    using assms by (simp add: session_commit_proj map_user_id_session_commit)
qed

lemma api_reset_others:
  assumes "table_ok table" and "n \<noteq> py_str (data ''username'')"
  shows "query_first_by_username (snd (api_reset_password H salt clk data table)) n =
         query_first_by_username table n"
proof (cases rule: api_reset_effect [where data=data and table=table and clk=clk and H=H
      and salt=salt])
  case unchanged
  then show ?thesis by simp
next
  case (written name old new u)
  moreover from written(2) have "u \<in> set table" "username u = name"
    by (auto dest: query_first_SomeD)
  moreover from written(1) have "py_str (data ''username'') = name"
    by (simp add: has_reset_fields_def)
  ultimately show ?thesis
    using assms by (simp add: query_first_session_commit)
qed

section \<open>Properties of the reset\<close>

text \<open>
  A reset with the right old password on an account that is not
  locked answers 200 and stores the user with a hash of the new password, a
  zero failure counter and no lockout time; key and user name are kept.
\<close>

lemma reset_success:
  assumes "table_ok table"
    and "has_reset_fields data name old new"
    and "query_first_by_username table name = Some u"
    and "check_password H u old" and "\<not> is_locked u (clk 0)"
  shows "status (fst (api_reset_password H salt clk data table)) = 200 \<and>
         query_first_by_username (snd (api_reset_password H salt clk data table)) name =
           Some (u\<lparr>password_hash := generate_password_hash H salt new,
                   failed_login_attempts := 0, lockout_until := None\<rparr>)"
proof -
  from assms(3) have "u \<in> set table" and "username u = name"
    by (auto dest: query_first_SomeD)
  with assms show ?thesis
    by (simp add: api_reset_success query_first_session_commit reset_row_def set_password_def)
qed

lemma reset_success_example:
  "check_password ref_hasher bob ''hunter2'' \<and> \<not> is_locked bob 500 \<and>
   status (fst (api_reset_password ref_hasher 1 (\<lambda>_. 500)
     (reset_fields ''bob'' ''hunter2'' ''n3w'') [alice, bob])) = 200 \<and>
   query_first_by_username (snd (api_reset_password ref_hasher 1 (\<lambda>_. 500)
     (reset_fields ''bob'' ''hunter2'' ''n3w'') [alice, bob])) ''bob'' =
     Some (bob\<lparr>password_hash := ref_generate 1 ''n3w'', failed_login_attempts := 0,
       lockout_until := None\<rparr>)"
  using reset_success [where table="[alice, bob]" and name="''bob''" and old="''hunter2''"
      and new="''n3w''" and data="reset_fields ''bob'' ''hunter2'' ''n3w''" and u=bob
      and H=ref_hasher and salt=1 and clk="\<lambda>_. 500", simplified]
  by simp

text \<open>
  Claim C19. A reset cannot lift a lockout: on a locked account no row
  changes, whatever the old password, so the password, the failure counter
  and the lockout time all stay as they were; the answer is 403 when the old
  password is right and 401 when it is wrong.
\<close>
theorem reset_blocked_while_locked:
  assumes "has_reset_fields data name old new"
    and "query_first_by_username table name = Some u"
    and "is_locked u (clk 0)"
  shows "snd (api_reset_password H salt clk data table) = table \<and>
         status (fst (api_reset_password H salt clk data table)) =
           (if check_password H u old then 403 else 401)"
proof (cases "check_password H u old")
  case True
  with assms show ?thesis by (simp add: api_reset_locked)
next
  case False
  with assms show ?thesis by (simp add: api_reset_wrong)
qed

theorem reset_blocked_while_locked_witness:
  "check_password ref_hasher (alice_locked 900) ''p1'' \<and> is_locked (alice_locked 900) 500 \<and>
   snd (api_reset_password ref_hasher 1 (\<lambda>_. 500)
     (reset_fields ''alice'' ''p1'' ''n3w'') [alice_locked 900, bob]) = [alice_locked 900, bob] \<and>
   status (fst (api_reset_password ref_hasher 1 (\<lambda>_. 500)
     (reset_fields ''alice'' ''p1'' ''n3w'') [alice_locked 900, bob])) = 403"
  using reset_blocked_while_locked [where table="[alice_locked 900, bob]" and name="''alice''"
      and old="''p1''" and new="''n3w''" and data="reset_fields ''alice'' ''p1'' ''n3w''"
      and u="alice_locked 900" and H=ref_hasher and salt=1 and clk="\<lambda>_. 500"]
  by simp

text \<open>
  Claim C13. For an existing user the status of a reset tells whether the old
  password is right: it is 401 exactly when the password does not verify,
  locked or not. A reset that fails changes no row, so wrong guesses made
  through the reset handler are never counted and never lock the account.
\<close>
theorem reset_reveals_password:
  assumes "has_reset_fields data name old new"
    and "query_first_by_username table name = Some u"
  shows "(status (fst (api_reset_password H salt clk data table)) = 401 \<longleftrightarrow>
            \<not> check_password H u old) \<and>
         (\<not> check_password H u old \<longrightarrow>
            snd (api_reset_password H salt clk data table) = table)"
  using assms by (simp add: api_reset_valid)

theorem reset_reveals_password_witness:
  "status (fst (api_reset_password ref_hasher 1 (\<lambda>_. 500)
     (reset_fields ''alice'' ''guess'' ''n3w'') [alice_locked 900, bob])) = 401 \<and>
   status (fst (api_reset_password ref_hasher 1 (\<lambda>_. 500)
     (reset_fields ''alice'' ''p1'' ''n3w'') [alice_locked 900, bob])) \<noteq> 401 \<and>
   snd (api_reset_password ref_hasher 1 (\<lambda>_. 500)
     (reset_fields ''alice'' ''guess'' ''n3w'') [alice_locked 900, bob]) =
     [alice_locked 900, bob]"
  using reset_reveals_password [where table="[alice_locked 900, bob]" and name="''alice''"
      and old="''guess''" and new="''n3w''" and data="reset_fields ''alice'' ''guess'' ''n3w''"
      and u="alice_locked 900" and H=ref_hasher and salt=1 and clk="\<lambda>_. 500"]
    reset_reveals_password [where table="[alice_locked 900, bob]" and name="''alice''"
      and old="''p1''" and new="''n3w''" and data="reset_fields ''alice'' ''p1'' ''n3w''"
      and u="alice_locked 900" and H=ref_hasher and salt=1 and clk="\<lambda>_. 500"]
  by simp

end
