(* ===== verification/App.thy ===== *)
theory App
  imports Login Register Reset
begin

text \<open>
  The application that \<^verbatim>\<open>create_app\<close> of \<^verbatim>\<open>src/app.py\<close> builds: its
  configuration, the user listing \<^verbatim>\<open>api_get_users\<close>, the five page routes,
  the requests the application accepts as a datatype with one constructor
  per route, and the function that serves one request on the current table.
  A run serves a list of requests in order; the reachable tables are those a
  run can produce from the empty table. The lemmas lift the properties of
  the single handlers to requests, runs and reachable tables: the invariant,
  the status codes, the retention of users, the lockout after a run of
  failures and the bound on the passwords checked within a lockout window;
  the last sections show that the listing is independent of the password
  hashes and which configuration is in use.
\<close>

section \<open>The user listing\<close>

text \<open>
  One entry of the listing. \<open>now\<close> is the clock reading of the call of
  \<^verbatim>\<open>is_locked\<close> for this user.
\<close>

definition user_entry :: "user \<Rightarrow> datetime \<Rightarrow> json" where
  "user_entry u now =
     JDict [(''id'', JInt (user_id u)),
            (''username'', JString (username u)),
            (''failed_attempts'', JInt (failed_login_attempts u)),
            (''locked_out'', JBool (is_locked u now))]"

text \<open>
  The list comprehension calls \<^verbatim>\<open>is_locked\<close> once per user, in table
  order: the \<open>i\<close>-th user is judged at clock reading \<open>clk i\<close>.
\<close>

definition api_get_users :: "clock \<Rightarrow> db \<Rightarrow> response" where
  "api_get_users clk table =
     \<lparr>body = Jsonify (JList (map (\<lambda>(i, u). user_entry u (clk i)) (enumerate 0 (query_all table)))),
      status = 200\<rparr>"

section \<open>Page routes\<close>

definition index :: response where
  "index = render_template ''index.html''"

definition login_page :: response where
  "login_page = render_template ''login.html''"

definition register_page :: response where
  "register_page = render_template ''register.html''"

definition reset_page :: response where
  "reset_page = render_template ''reset.html''"

definition users_page :: response where
  "users_page = render_template ''users.html''"

section \<open>Requests and their dispatch\<close>

text \<open>
  One constructor per route of the application, named by method and path.
  The POST routes carry the JSON body.
\<close>

datatype request =
    GET_root
  | GET_login
  | GET_register
  | GET_reset
  | GET_users
  | POST_api_register json_request
  | POST_api_login json_request
  | GET_api_users
  | POST_api_reset json_request

text \<open>
  What a request takes from its environment while it is served: the clock
  readings and the salt of the hashing call.
\<close>

record 's env =
  clock_of :: clock
  salt_of :: 's

text \<open>
  The configuration of the application: the settings of the configuration
  class, with the database location replaced by the file \<^verbatim>\<open>app.db\<close> in the
  instance folder. \<open>path_join\<close> is \<^verbatim>\<open>os.path.join\<close> for a relative second
  argument.
\<close>

definition path_join :: "string \<Rightarrow> string \<Rightarrow> string" where
  "path_join a b = (if a = [] \<or> last a = CHR ''/'' then a @ b else a @ ''/'' @ b)"

definition app_config :: "string \<Rightarrow> environ \<Rightarrow> config" where
  "app_config instance_path env =
     (Config env)\<lparr>SQLALCHEMY_DATABASE_URI :=
        ''sqlite:///'' @ path_join instance_path ''app.db''\<rparr>"

text \<open>
  The table of a new application, after \<^verbatim>\<open>db.create_all()\<close> on a fresh
  instance folder.
\<close>

definition create_app :: db where
  "create_app = []"

text \<open>
  Flask answers an exception that escapes a view with status 500, and the
  session is discarded, so the table is as before the request.
\<close>

definition internal_server_error :: response where
  "internal_server_error = \<lparr>body = Template ''500 Internal Server Error'', status = 500\<rparr>"

definition handle ::
    "config \<Rightarrow> 's hasher \<Rightarrow> 's env \<Rightarrow> request \<Rightarrow> db \<Rightarrow> response \<times> db" where
  "handle cfg H e rq table =
     (case rq of
        GET_root \<Rightarrow> (index, table)
      | GET_login \<Rightarrow> (login_page, table)
      | GET_register \<Rightarrow> (register_page, table)
      | GET_reset \<Rightarrow> (reset_page, table)
      | GET_users \<Rightarrow> (users_page, table)
      | POST_api_register data \<Rightarrow>
          (case api_register H (salt_of e) data table of
             Inl exn \<Rightarrow> (internal_server_error, table)
           | Inr res \<Rightarrow> res)
      | POST_api_login data \<Rightarrow> api_login cfg H (clock_of e) data table
      | GET_api_users \<Rightarrow> (api_get_users (clock_of e) table, table)
      | POST_api_reset data \<Rightarrow> api_reset_password H (salt_of e) (clock_of e) data table)"

section \<open>Runs and reachable tables\<close>

fun run ::
    "config \<Rightarrow> 's hasher \<Rightarrow> ('s env \<times> request) list \<Rightarrow> db \<Rightarrow> response list \<times> db" where
  "run cfg H [] table = ([], table)"
| "run cfg H (ev # evs) table =
     (let (r, table') = handle cfg H (fst ev) (snd ev) table;
          (rs, table'') = run cfg H evs table'
      in (r # rs, table''))"

inductive reachable :: "config \<Rightarrow> 's hasher \<Rightarrow> db \<Rightarrow> bool" for cfg H where
  init: "reachable cfg H create_app"
| step: "reachable cfg H table \<Longrightarrow> reachable cfg H (snd (handle cfg H e rq table))"

text \<open>
  The row a counted failure writes (\<open>api_login\<close>, the branch of a wrong
  password): the counter one up, and the lockout set from the second clock
  reading once the counter has reached the threshold.
\<close>

definition counted :: "config \<Rightarrow> clock \<Rightarrow> user \<Rightarrow> user" where
  "counted cfg clk u =
     (if failed_login_attempts u + 1 < LOCKOUT_ATTEMPTS cfg
      then u\<lparr>failed_login_attempts := failed_login_attempts u + 1\<rparr>
      else u\<lparr>failed_login_attempts := failed_login_attempts u + 1,
             lockout_until := Some (clk 1 + lockout_duration cfg)\<rparr>)"

text \<open>
  A series of login requests for one user name, each with its environment
  and the password it tries; and the environment of a request served at one
  instant \<open>t\<close> with a fixed salt.
\<close>

definition login_events :: "string \<Rightarrow> ('s env \<times> string) list \<Rightarrow> ('s env \<times> request) list" where
  "login_events name attempts =
     map (\<lambda>a. (fst a, POST_api_login (credentials name (snd a)))) attempts"

definition at_time :: "datetime \<Rightarrow> nat env" where
  "at_time t = \<lparr>clock_of = (\<lambda>_. t), salt_of = 0\<rparr>"

section \<open>Lemmas on single requests\<close>

lemma handle_simps [simp]:
  "handle cfg H e GET_root table = (index, table)"
  "handle cfg H e GET_login table = (login_page, table)"
  "handle cfg H e GET_register table = (register_page, table)"
  "handle cfg H e GET_reset table = (reset_page, table)"
  "handle cfg H e GET_users table = (users_page, table)"
  "handle cfg H e (POST_api_login data) table = api_login cfg H (clock_of e) data table"
  "handle cfg H e GET_api_users table = (api_get_users (clock_of e) table, table)"
  "handle cfg H e (POST_api_reset data) table =
     api_reset_password H (salt_of e) (clock_of e) data table"
  by (simp_all add: handle_def)

lemma handle_register:
  "api_register H (salt_of e) data table = Inr res \<Longrightarrow>
   handle cfg H e (POST_api_register data) table = res"
  by (simp add: handle_def)

lemma page_status [simp]:
  "status index = 200" "status login_page = 200" "status register_page = 200"
  "status reset_page = 200" "status users_page = 200"
  by (simp_all add: index_def login_page_def register_page_def reset_page_def users_page_def)

lemma status_api_get_users [simp]: "status (api_get_users clk table) = 200"
  by (simp add: api_get_users_def)

lemma handle_db_ok:
  assumes "db_ok cfg table"
  shows "db_ok cfg (snd (handle cfg H e rq table))"
proof (cases rq)
  case (POST_api_register data)
  obtain r table' where res: "api_register H (salt_of e) data table = Inr (r, table')"
    using register_never_raises_aux [of H "salt_of e" data table] by blast
  with assms have "db_ok cfg table'" by (rule api_register_db_ok)
  with res POST_api_register show ?thesis by (simp add: handle_register)
next
  case (POST_api_login data)
  with assms show ?thesis by (simp add: api_login_db_ok)
next
  case (POST_api_reset data)
  with assms show ?thesis by (simp add: api_reset_db_ok)
qed (use assms in simp_all)

lemma handle_table_ok:
  assumes "table_ok table"
  shows "table_ok (snd (handle cfg H e rq table))"
proof (cases rq)
  case (POST_api_register data)
  show ?thesis
  proof (cases rule: api_register_effect [where H=H and salt="salt_of e" and data=data
        and table=table])
    case (unchanged r)
    with assms POST_api_register show ?thesis by (simp add: handle_register)
  next
    case (inserted r name password)
    with assms POST_api_register show ?thesis
      by (simp add: handle_register table_ok_append_registered)
  qed
next
  case (POST_api_login data)
  from api_login_frame [OF assms, of cfg H "clock_of e" data]
  have "map user_id (snd (api_login cfg H (clock_of e) data table)) = map user_id table"
    and "map username (snd (api_login cfg H (clock_of e) data table)) = map username table"
    by simp_all
  with assms have "table_ok (snd (api_login cfg H (clock_of e) data table))"
    by (rule table_ok_same_keys)
  with POST_api_login show ?thesis by simp
next
  case (POST_api_reset data)
  let ?t = "snd (api_reset_password H (salt_of e) (clock_of e) data table)"
  from api_reset_frame [OF assms, of H "salt_of e" "clock_of e" data]
  have "map user_id ?t = map user_id table" and "map username ?t = map username table"
    by simp_all
  with assms have "table_ok ?t" by (rule table_ok_same_keys)
  with POST_api_reset show ?thesis by simp
qed (use assms in simp_all)

lemma run_Nil [simp]: "fst (run cfg H [] table) = []" "snd (run cfg H [] table) = table"
  by simp_all

lemma run_Cons:
  "fst (run cfg H (ev # evs) table) =
     fst (handle cfg H (fst ev) (snd ev) table) #
     fst (run cfg H evs (snd (handle cfg H (fst ev) (snd ev) table)))"
  "snd (run cfg H (ev # evs) table) =
     snd (run cfg H evs (snd (handle cfg H (fst ev) (snd ev) table)))"
  by (simp_all add: split_beta)

declare run.simps(2) [simp del]

lemma run_table_ok: "table_ok table \<Longrightarrow> table_ok (snd (run cfg H evs table))"
  by (induction evs arbitrary: table) (simp_all add: run_Cons handle_table_ok)

lemma run_db_ok: "db_ok cfg table \<Longrightarrow> db_ok cfg (snd (run cfg H evs table))"
  by (induction evs arbitrary: table) (simp_all add: run_Cons handle_db_ok)

lemma run_append:
  "snd (run cfg H (evs @ evs') table) = snd (run cfg H evs' (snd (run cfg H evs table)))"
  "fst (run cfg H (evs @ evs') table) =
     fst (run cfg H evs table) @ fst (run cfg H evs' (snd (run cfg H evs table)))"
  by (induction evs arbitrary: table) (simp_all add: run_Cons)

lemma length_run [simp]: "length (fst (run cfg H evs table)) = length evs"
  by (induction evs arbitrary: table) (simp_all add: run_Cons)

lemma reachable_run:
  "reachable cfg H table \<Longrightarrow> reachable cfg H (snd (run cfg H evs table))"
  by (induction evs arbitrary: table) (auto simp: run_Cons intro: reachable.step)

lemma reachable_iff_run:
  "reachable cfg H table \<longleftrightarrow> (\<exists>evs. table = snd (run cfg H evs create_app))"
proof
  assume "reachable cfg H table"
  then show "\<exists>evs. table = snd (run cfg H evs create_app)"
  proof (induction rule: reachable.induct)
    case init
    have "create_app = snd (run cfg H [] create_app)" by simp
    then show ?case by blast
  next
    case (step table e rq)
    then obtain evs where "table = snd (run cfg H evs create_app)" by blast
    then have "snd (handle cfg H e rq table) = snd (run cfg H (evs @ [(e, rq)]) create_app)"
      by (simp add: run_append run_Cons)
    then show ?case by blast
  qed
next
  assume "\<exists>evs. table = snd (run cfg H evs create_app)"
  then show "reachable cfg H table"
    by (auto intro: reachable_run reachable.init)
qed

section \<open>Runs of login attempts\<close>


lemma login_events_simps [simp]:
  "login_events name [] = []"
  "login_events name (a # attempts) =
     (fst a, POST_api_login (credentials name (snd a))) # login_events name attempts"
  "login_events name (attempts @ attempts') =
     login_events name attempts @ login_events name attempts'"
  by (simp_all add: login_events_def)

lemma wrong_logins_below_threshold:
  assumes "table_ok table" and "name \<noteq> []"
    and "query_first_by_username table name = Some u"
    and "lockout_until u = None"
    and "list_all (\<lambda>a. snd a \<noteq> [] \<and> \<not> check_password H u (snd a)) attempts"
    and "failed_login_attempts u + int (length attempts) < LOCKOUT_ATTEMPTS cfg"
  shows "fst (run cfg H (login_events name attempts) table) =
           replicate (length attempts) (error_response ''Invalid credentials'' 401) \<and>
         table_ok (snd (run cfg H (login_events name attempts) table)) \<and>
         query_first_by_username (snd (run cfg H (login_events name attempts) table)) name =
           Some (u\<lparr>failed_login_attempts := failed_login_attempts u + int (length attempts)\<rparr>)"
  using assms
proof (induction attempts arbitrary: table u)
  case Nil
  then show ?case by simp
next
  case (Cons a attempts)
  let ?u1 = "u\<lparr>failed_login_attempts := failed_login_attempts u + 1\<rparr>"
  let ?t1 = "session_commit table ?u1"
  from Cons.prems have u: "u \<in> set table" "username u = name"
    by (auto dest: query_first_SomeD)
  from Cons.prems have step:
    "api_login cfg H (clock_of (fst a)) (credentials name (snd a)) table =
       (error_response ''Invalid credentials'' 401, ?t1)"
    by (intro api_login_wrong [where name=name and password="snd a"]) simp_all
  from Cons.prems u have t1: "table_ok ?t1" "query_first_by_username ?t1 name = Some ?u1"
    by (simp_all add: session_commit_table_ok query_first_session_commit)
  from Cons.prems have
    "list_all (\<lambda>a. snd a \<noteq> [] \<and> \<not> check_password H ?u1 (snd a)) attempts"
    "failed_login_attempts ?u1 + int (length attempts) < LOCKOUT_ATTEMPTS cfg"
    "lockout_until ?u1 = None"
    by simp_all
  from Cons.IH [OF t1(1) Cons.prems(2) t1(2) this(3) this(1) this(2)] step
  show ?case by (simp add: run_Cons ac_simps)
qed

text \<open>
  Claim C5. Consecutive wrong passwords lock the account at the threshold
  and not before: if a user is not locked and the attempts bring the failure
  counter exactly to the configured threshold, every attempt but the last is
  answered 401, the last is answered 403, and afterwards the counter equals
  the threshold and the lockout time is the second clock reading of the last
  attempt plus the configured duration.
\<close>
theorem lockout_at_threshold:
  assumes "table_ok table" and "name \<noteq> []"
    and "query_first_by_username table name = Some u"
    and "lockout_until u = None"
    and "list_all (\<lambda>a. snd a \<noteq> [] \<and> \<not> check_password H u (snd a)) (attempts @ [a])"
    and "failed_login_attempts u + int (length (attempts @ [a])) = LOCKOUT_ATTEMPTS cfg"
  shows "map status (fst (run cfg H (login_events name (attempts @ [a])) table)) =
           replicate (length attempts) 401 @ [403] \<and>
         query_first_by_username (snd (run cfg H (login_events name (attempts @ [a])) table))
             name =
           Some (u\<lparr>failed_login_attempts := LOCKOUT_ATTEMPTS cfg,
                   lockout_until := Some (clock_of (fst a) 1 + lockout_duration cfg)\<rparr>)"
proof -
  let ?t = "snd (run cfg H (login_events name attempts) table)"
  let ?u = "u\<lparr>failed_login_attempts := failed_login_attempts u + int (length attempts)\<rparr>"
  from assms(5,6) have
    "list_all (\<lambda>a. snd a \<noteq> [] \<and> \<not> check_password H u (snd a)) attempts"
    "failed_login_attempts u + int (length attempts) < LOCKOUT_ATTEMPTS cfg"
    by simp_all
  from wrong_logins_below_threshold [OF assms(1-4) this]
  have pre: "fst (run cfg H (login_events name attempts) table) =
        replicate (length attempts) (error_response ''Invalid credentials'' 401)"
    and t: "table_ok ?t" "query_first_by_username ?t name = Some ?u"
    by simp_all
  from t have u: "?u \<in> set ?t" "username ?u = name"
    by (auto dest: query_first_SomeD)
  from assms(2,4,5,6) t(2) have last:
    "api_login cfg H (clock_of (fst a)) (credentials name (snd a)) ?t =
       (error_response ''Account locked due to too many failed attempts'' 403,
        session_commit ?t (?u\<lparr>failed_login_attempts := failed_login_attempts ?u + 1,
          lockout_until := Some (clock_of (fst a) 1 + lockout_duration cfg)\<rparr>))"
    by (intro api_login_wrong_lock [where name=name and password="snd a"]) simp_all
  from assms(6) have "failed_login_attempts ?u + 1 = LOCKOUT_ATTEMPTS cfg" by simp
  with pre last t(1) u show ?thesis
    by (simp add: run_append run_Cons query_first_session_commit)
qed


lemma at_time_sel [simp]: "clock_of (at_time t) k = t" "salt_of (at_time t) = 0"
  by (simp_all add: at_time_def)

theorem lockout_at_threshold_witness:
  "list_all (\<lambda>a. snd a \<noteq> [] \<and> \<not> check_password ref_hasher alice (snd a))
     ([(at_time 100, ''a''), (at_time 200, ''b'')] @ [(at_time 300, ''c'')]) \<and>
   map status (fst (run cfg0 ref_hasher
     (login_events ''alice'' ([(at_time 100, ''a''), (at_time 200, ''b'')] @ [(at_time 300, ''c'')]))
     [alice, bob])) = [401, 401, 403] \<and>
   query_first_by_username (snd (run cfg0 ref_hasher
     (login_events ''alice'' ([(at_time 100, ''a''), (at_time 200, ''b'')] @ [(at_time 300, ''c'')]))
     [alice, bob])) ''alice'' =
     Some (alice\<lparr>failed_login_attempts := 3, lockout_until := Some 120000300\<rparr>)"
  using lockout_at_threshold [where table="[alice, bob]" and name="''alice''" and u=alice
      and H=ref_hasher and cfg=cfg0 and attempts="[(at_time 100, ''a''), (at_time 200, ''b'')]"
      and a="(at_time 300, ''c'')"]
  by simp

text \<open>
  A wrong password for an account that is not locked commits the counted row.
\<close>

lemma wrong_login_counted:
  assumes "query_first_by_username table name = Some u" and "name \<noteq> []" and "p \<noteq> []"
    and "\<not> is_locked u (clk 0)" and "\<not> check_password H u p"
  shows "snd (api_login cfg H clk (credentials name p) table) =
     session_commit table (counted cfg clk u)"
  using assms by (simp add: api_login_credentials counted_def Let_def)

text \<open>
  Login attempts within one lockout window: the row is either not locked,
  or locked until after the window.
\<close>

lemma window_attempts:
  assumes "table_ok table" and "name \<noteq> []"
    and "query_first_by_username table name = Some u"
    and "list_all (\<lambda>a. snd a \<noteq> [] \<and> \<not> check_password H u (snd a) \<and>
           t0 \<le> clock_of (fst a) 1 \<and> clock_of (fst a) 0 < t0 + lockout_duration cfg) attempts"
    and "case lockout_until u of
           None \<Rightarrow> failed_login_attempts u < LOCKOUT_ATTEMPTS cfg
         | Some l \<Rightarrow> t0 + lockout_duration cfg \<le> l"
  shows "\<exists>u'. query_first_by_username (snd (run cfg H (login_events name attempts) table)) name =
           Some u' \<and> password_hash u' = password_hash u \<and>
           failed_login_attempts u' =
             (case lockout_until u of
                None \<Rightarrow> min (failed_login_attempts u + int (length attempts))
                          (LOCKOUT_ATTEMPTS cfg)
              | Some l \<Rightarrow> failed_login_attempts u)"
  using assms
proof (induction attempts arbitrary: table u)
  case Nil
  then show ?case by (auto split: option.splits)
next
  case (Cons a attempts)
  let ?data = "credentials name (snd a)" and ?clk = "clock_of (fst a)"
  from Cons.prems have cred: "has_credentials ?data name (snd a)" by simp
  show ?case
  proof (cases "lockout_until u")
    case (Some l)
    with Cons.prems have "is_locked u (?clk 0)" by (simp add: is_locked_def)
    with cred Cons.prems have "api_login cfg H ?clk ?data table = (locked_response u, table)"
      by (simp add: api_login_locked)
    with Cons.IH [OF Cons.prems(1-3)] Cons.prems(4,5) Some show ?thesis
      by (simp add: run_Cons)
  next
    case None
    let ?u1 = "counted cfg ?clk u"
    let ?t1 = "session_commit table ?u1"
    from None Cons.prems have "snd (api_login cfg H ?clk ?data table) = ?t1"
      by (intro wrong_login_counted) (simp_all add: is_locked_def)
    moreover from Cons.prems(1,3)
    have "table_ok ?t1" "query_first_by_username ?t1 name = Some ?u1"
      by (simp_all add: session_commit_row counted_def)
    ultimately show ?thesis
      using Cons.IH [of ?t1 ?u1] Cons.prems(2,4,5) None
      by (auto simp: run_Cons counted_def split: if_splits)
  qed
qed

text \<open>
  Claim C7. Served one after the other, wrong passwords are checked only up
  to the threshold within one lockout window: from an unlocked account with
  a counter below the threshold, after any number of logins with wrong
  passwords whose clock readings lie within a window shorter than the
  lockout duration, the failure counter is the smaller of the counter plus
  the number of attempts and the threshold. Each checked password raises the
  counter by one, so the attempts beyond the threshold were refused
  unchecked.
\<close>
theorem guesses_in_window_bounded:
  assumes "table_ok table" and "name \<noteq> []"
    and "query_first_by_username table name = Some u"
    and "lockout_until u = None"
    and "failed_login_attempts u < LOCKOUT_ATTEMPTS cfg"
    and "list_all (\<lambda>a. snd a \<noteq> [] \<and> \<not> check_password H u (snd a) \<and>
           t0 \<le> clock_of (fst a) 1 \<and> clock_of (fst a) 0 < t0 + lockout_duration cfg) attempts"
  shows "\<exists>u'. query_first_by_username (snd (run cfg H (login_events name attempts) table)) name =
           Some u' \<and>
           failed_login_attempts u' =
             min (failed_login_attempts u + int (length attempts)) (LOCKOUT_ATTEMPTS cfg)"
  using window_attempts [OF assms(1-3,6)] assms(4,5) by auto

theorem guesses_in_window_bounded_witness:
  "\<exists>u'. query_first_by_username (snd (run cfg0 ref_hasher
       (login_events ''alice''
          [(at_time 100, ''a''), (at_time 200, ''b''), (at_time 300, ''c''),
           (at_time 400, ''d''), (at_time 500, ''e'')])
       [alice, bob])) ''alice'' = Some u' \<and> failed_login_attempts u' = 3"
  using guesses_in_window_bounded [where table = "[alice, bob]" and name = "''alice''"
      and u = alice and H = ref_hasher and cfg = cfg0 and ?t0.0 = 100 and attempts =
        "[(at_time 100, ''a''), (at_time 200, ''b''), (at_time 300, ''c''),
          (at_time 400, ''d''), (at_time 500, ''e'')]"]
  by simp

text \<open>
  Claim C6. Every table the application can reach from the empty table
  satisfies the state invariant: keys and user names are unique, no user
  name is empty, no failure counter is negative, and a user that carries a
  lockout time has a counter at or above the threshold.
\<close>
theorem reachable_db_ok:
  "reachable cfg H table \<Longrightarrow> db_ok cfg table"
proof (induction rule: reachable.induct)
  case init
  show ?case by (simp add: create_app_def)
next
  case (step table e rq)
  then show ?case by (simp add: handle_db_ok)
qed

theorem reachable_db_ok_witness:
  "reachable cfg0 ref_hasher
     (snd (run cfg0 ref_hasher [(at_time 100, POST_api_register (credentials ''alice'' ''p1''))]
        create_app)) \<and>
   db_ok cfg0
     (snd (run cfg0 ref_hasher [(at_time 100, POST_api_register (credentials ''alice'' ''p1''))]
        create_app))"
  using reachable_db_ok [of cfg0 ref_hasher
      "snd (run cfg0 ref_hasher [(at_time 100, POST_api_register (credentials ''alice'' ''p1''))]
        create_app)"]
    reachable_run [OF reachable.init, of cfg0 ref_hasher
      "[(at_time 100, POST_api_register (credentials ''alice'' ''p1''))]"]
  by simp

section \<open>Properties of every request\<close>

lemma status_api_login:
  "status (fst (api_login cfg H clk data table)) \<in> {200, 400, 401, 403}"
  by (cases rule: api_login_cases [where data=data and table=table and clk=clk and H=H
        and cfg=cfg]) (simp_all add: api_login_invalid api_login_branches)

lemma status_api_reset:
  "status (fst (api_reset_password H salt clk data table)) \<in> {200, 400, 401, 403}"
  by (cases rule: api_reset_cases [where data=data and table=table and clk=clk and H=H])
    (simp_all add: api_reset_invalid api_reset_branches)

text \<open>
  Claim C35. No request served on its own, with a body whose members are
  strings or null, makes the application fail: the status of every response
  is one of 200, 201, 400, 401, 403 and 409, never 500, and a response with
  status 400 or 409 leaves the table untouched.
\<close>
theorem handle_status:
  "status (fst (handle cfg H e rq table)) \<in> {200, 201, 400, 401, 403, 409} \<and>
   (status (fst (handle cfg H e rq table)) \<in> {400, 409} \<longrightarrow>
      snd (handle cfg H e rq table) = table)"
proof (cases rq)
  case (POST_api_register data)
  then show ?thesis
    by (cases rule: api_register_effect [where H=H and salt="salt_of e" and data=data
          and table=table]) (auto simp: handle_register)
next
  case (POST_api_login data)
  then show ?thesis
    by (cases rule: api_login_cases [where data=data and table=table and clk="clock_of e"
          and H=H and cfg=cfg]) (simp_all add: api_login_invalid api_login_branches)
next
  case (POST_api_reset data)
  then show ?thesis
    by (cases rule: api_reset_cases [where data=data and table=table and clk="clock_of e"
          and H=H]) (simp_all add: api_reset_invalid api_reset_branches)
qed simp_all

theorem handle_status_witness:
  "status (fst (handle cfg0 ref_hasher (at_time 100)
     (POST_api_register (credentials ''alice'' ''again'')) [alice, bob])) = 409 \<and>
   snd (handle cfg0 ref_hasher (at_time 100)
     (POST_api_register (credentials ''alice'' ''again'')) [alice, bob]) = [alice, bob]"
  using handle_status [of cfg0 ref_hasher "at_time 100"
      "POST_api_register (credentials ''alice'' ''again'')" "[alice, bob]"]
  by (simp add: handle_def api_register_credentials)

lemma keeps_users_same:
  fixes table table' :: db
  shows "map user_id table' = map user_id table \<Longrightarrow> map username table' = map username table \<Longrightarrow>
   \<exists>rows::user list. length rows \<le> 1 \<and> map user_id table' = map user_id table @ map user_id rows \<and>
     map username table' = map username table @ map username rows"
  by (rule exI [of _ "[]"]) simp

lemma keeps_users_append:
  fixes table table' :: db
  shows "table' = table @ rows \<Longrightarrow> length rows \<le> 1 \<Longrightarrow>
   \<exists>rows::user list. length rows \<le> 1 \<and> map user_id table' = map user_id table @ map user_id rows \<and>
     map username table' = map username table @ map username rows"
  by (rule exI [of _ rows]) simp

text \<open>
  Claim C37. No request deletes or renames a user: after any request the
  keys and user names of the rows that were in the table are still there, in
  the same order, followed by at most one new row.
\<close>
theorem handle_keeps_users:
  assumes "table_ok table"
  shows "\<exists>rows::user list. length rows \<le> 1 \<and>
           map user_id (snd (handle cfg H e rq table)) = map user_id table @ map user_id rows \<and>
           map username (snd (handle cfg H e rq table)) = map username table @ map username rows"
proof (cases rq)
  case (POST_api_register data)
  obtain r table' where res: "api_register H (salt_of e) data table = Inr (r, table')"
    using register_never_raises_aux [of H "salt_of e" data table] by blast
  from api_register_keeps_rows [OF this]
  obtain rows where "table' = table @ rows" "length rows \<le> 1" by blast
  then have "\<exists>rows::user list. length rows \<le> 1 \<and> map user_id table' = map user_id table @ map user_id rows \<and>
     map username table' = map username table @ map username rows"
    by (rule keeps_users_append)
  with res POST_api_register show ?thesis
    by (simp add: handle_register)
next
  case (POST_api_login data)
  with assms show ?thesis
    by (intro keeps_users_same) (simp_all add: api_login_frame)
next
  case (POST_api_reset data)
  with assms show ?thesis
    by (intro keeps_users_same) (simp_all add: api_reset_frame)
qed (simp_all add: keeps_users_same)

theorem handle_keeps_users_witness:
  "table_ok [alice, bob] \<and>
   map username (snd (handle cfg0 ref_hasher (at_time 100)
     (POST_api_register (credentials ''carol'' ''pw'')) [alice, bob])) =
     [''alice'', ''bob'', ''carol'']"
  using handle_keeps_users [of "[alice, bob]" cfg0 ref_hasher "at_time 100"
      "POST_api_register (credentials ''carol'' ''pw'')"]
  by (simp add: handle_def api_register_credentials)

section \<open>What the listing shows\<close>

lemma user_entry_password_hash [simp]:
  "user_entry (u\<lparr>password_hash := h\<rparr>) now = user_entry u now"
  by (simp add: user_entry_def is_locked_def)

lemma enumerate_map:
  "enumerate n (map f xs) = map (\<lambda>(i, x). (i, f x)) (enumerate n xs)"
  by (induction xs arbitrary: n) simp_all

text \<open>
  The user listing does not depend on the password hashes: two tables that
  differ only in the column \<open>password_hash\<close> give the same response.
\<close>

lemma listing_hides_hashes:
  "api_get_users clk (map (\<lambda>u. u\<lparr>password_hash := h u\<rparr>) table) = api_get_users clk table"
  by (simp add: api_get_users_def query_all_def enumerate_map split_beta o_def)

section \<open>The configuration in use\<close>

text \<open>
  The application runs with threshold 3 and a lockout of two
  minutes whatever the process environment and the instance folder are:
  the configuration meets the condition \<open>config_ok\<close> that the lockout
  theorems assume, and neither the lockout settings nor the database
  location can be set from the environment.
\<close>

lemma app_config_ok:
  "config_ok (app_config instance_path env) \<and>
   LOCKOUT_ATTEMPTS (app_config instance_path env) = 3 \<and>
   lockout_duration (app_config instance_path env) = 120000000 \<and>
   app_config instance_path env =
     (app_config instance_path Map.empty)\<lparr>SECRET_KEY := SECRET_KEY (Config env)\<rparr>"
  by (simp add: app_config_def config_ok_def lockout_duration_def timedelta_minutes_def
      Config_def)

end
