(* ===== verification/Lockout_Spec.thy ===== *)
theory Lockout_Spec
  imports Login Register Reset
begin

text \<open>
  The contract of the Account Authenticator as the specification words it
  (sections 3, 4.1 and 7 of \<^verbatim>\<open>spec.md\<close>): accounts keyed by user name, the
  three operations Register, Login and ResetPassword as functions on that
  state with typed results, and the derived lock state. The table of the
  implementation is related to this state by an abstraction function, and the
  refinement lemmas show that each handler of \<^verbatim>\<open>src/app.py\<close>, seen through
  the abstraction, is the operation of the specification.
\<close>

section \<open>The specification's state and results\<close>

record account =
  passwordHash :: string
  failedLoginAttempts :: int
  lockoutUntil :: "datetime option"

type_synonym accounts = "string \<rightharpoonup> account"

datatype auth_error =
    ValidationError
  | ConflictError
  | InvalidCredentialsError
  | LockedError
  | StoreError

type_synonym outcome = "auth_error + unit"

text \<open>
  A user is locked iff \<open>lockoutUntil\<close> is present and later than the current
  time.
\<close>

definition locked :: "account \<Rightarrow> datetime \<Rightarrow> bool" where
  "locked a now = (case lockoutUntil a of None \<Rightarrow> False | Some t \<Rightarrow> now < t)"

section \<open>The specification's operations\<close>

definition spec_register ::
    "'s hasher \<Rightarrow> 's \<Rightarrow> string \<Rightarrow> string \<Rightarrow> accounts \<Rightarrow> outcome \<times> accounts" where
  "spec_register H salt name password st =
     (if name = [] \<or> password = [] then (Inl ValidationError, st)
      else if st name \<noteq> None then (Inl ConflictError, st)
      else (Inr (),
            st(name \<mapsto> \<lparr>passwordHash = generate_password_hash H salt password,
                          failedLoginAttempts = 0, lockoutUntil = None\<rparr>)))"

text \<open>
  Login, in the order of the specification: look up, lock check, password
  check, then on a mismatch the increment and the threshold test on the
  incremented value. Empty fields are a \<open>ValidationError\<close>, by the error
  taxonomy of section 7.
\<close>

definition spec_login ::
    "config \<Rightarrow> 's hasher \<Rightarrow> datetime \<Rightarrow> string \<Rightarrow> string \<Rightarrow> accounts \<Rightarrow> outcome \<times> accounts" where
  "spec_login cfg H now name password st =
     (if name = [] \<or> password = [] then (Inl ValidationError, st)
      else case st name of
        None \<Rightarrow> (Inl InvalidCredentialsError, st)
      | Some a \<Rightarrow>
          if locked a now then (Inl LockedError, st)
          else if check_password_hash H (passwordHash a) password then
            (Inr (), st(name \<mapsto> a\<lparr>failedLoginAttempts := 0, lockoutUntil := None\<rparr>))
          else if LOCKOUT_ATTEMPTS cfg \<le> failedLoginAttempts a + 1 then
            (Inl LockedError,
             st(name \<mapsto> a\<lparr>failedLoginAttempts := failedLoginAttempts a + 1,
                           lockoutUntil := Some (now + lockout_duration cfg)\<rparr>))
          else
            (Inl InvalidCredentialsError,
             st(name \<mapsto> a\<lparr>failedLoginAttempts := failedLoginAttempts a + 1\<rparr>)))"

definition spec_reset ::
    "'s hasher \<Rightarrow> 's \<Rightarrow> datetime \<Rightarrow> string \<Rightarrow> string \<Rightarrow> string \<Rightarrow> accounts \<Rightarrow>
     outcome \<times> accounts" where
  "spec_reset H salt now name old_password new_password st =
     (if name = [] \<or> old_password = [] \<or> new_password = [] then (Inl ValidationError, st)
      else case st name of
        None \<Rightarrow> (Inl InvalidCredentialsError, st)
      | Some a \<Rightarrow>
          if \<not> check_password_hash H (passwordHash a) old_password then
            (Inl InvalidCredentialsError, st)
          else if locked a now then (Inl LockedError, st)
          else
            (Inr (),
             st(name \<mapsto> a\<lparr>passwordHash := generate_password_hash H salt new_password,
                           failedLoginAttempts := 0, lockoutUntil := None\<rparr>)))"

section \<open>Abstraction\<close>

text \<open>
  A row without its key is the specification's account; a table is the map
  from each user name to the account of its row; a response is the typed
  result named by its status code.
\<close>

definition abs_user :: "user \<Rightarrow> account" where
  "abs_user u =
     \<lparr>passwordHash = password_hash u, failedLoginAttempts = failed_login_attempts u,
      lockoutUntil = lockout_until u\<rparr>"

definition abs_db :: "db \<Rightarrow> accounts" where
  "abs_db table name = map_option abs_user (query_first_by_username table name)"

definition outcome_of :: "response \<Rightarrow> outcome" where
  "outcome_of r =
     (if status r = 200 \<or> status r = 201 then Inr ()
      else if status r = 400 then Inl ValidationError
      else if status r = 401 then Inl InvalidCredentialsError
      else if status r = 403 then Inl LockedError
      else if status r = 409 then Inl ConflictError
      else Inl StoreError)"

section \<open>Lemmas on the abstraction\<close>

lemma abs_user_sel [simp]:
  "passwordHash (abs_user u) = password_hash u"
  "failedLoginAttempts (abs_user u) = failed_login_attempts u"
  "lockoutUntil (abs_user u) = lockout_until u"
  by (simp_all add: abs_user_def)

lemma locked_abs_user [simp]: "locked (abs_user u) now = is_locked u now"
  by (simp add: locked_def is_locked_def)

lemma abs_user_update [simp]:
  "abs_user (u\<lparr>failed_login_attempts := c\<rparr>) = (abs_user u)\<lparr>failedLoginAttempts := c\<rparr>"
  "abs_user (u\<lparr>lockout_until := l\<rparr>) = (abs_user u)\<lparr>lockoutUntil := l\<rparr>"
  "abs_user (u\<lparr>password_hash := h\<rparr>) = (abs_user u)\<lparr>passwordHash := h\<rparr>"
  by (simp_all add: abs_user_def)

lemma abs_db_None [simp]:
  "query_first_by_username table name = None \<Longrightarrow> abs_db table name = None"
  by (simp add: abs_db_def)

lemma abs_db_Some [simp]:
  "query_first_by_username table name = Some u \<Longrightarrow> abs_db table name = Some (abs_user u)"
  by (simp add: abs_db_def)

lemma abs_db_session_commit:
  assumes "table_ok table" and "query_first_by_username table name = Some u"
    and "same_identity u u'"
  shows "abs_db (session_commit table u') = (abs_db table)(name \<mapsto> abs_user u')"
proof
  fix n
  from assms(2) have "u \<in> set table" "username u = name"
    by (auto dest: query_first_SomeD)
  with assms(1,3)
  show "abs_db (session_commit table u') n = ((abs_db table)(name \<mapsto> abs_user u')) n"
    by (simp add: abs_db_def same_identity_def query_first_session_commit)
qed

lemma abs_db_append:
  "query_first_by_username table name = None \<Longrightarrow> username u = name \<Longrightarrow>
   abs_db (table @ [u]) = (abs_db table)(name \<mapsto> abs_user u)"
  by (auto simp: abs_db_def fun_eq_iff query_first_by_username_def first_by_append
      split: option.splits)

lemma outcome_of_simps [simp]:
  "outcome_of (error_response msg 400) = Inl ValidationError"
  "outcome_of (error_response msg 401) = Inl InvalidCredentialsError"
  "outcome_of (error_response msg 403) = Inl LockedError"
  "outcome_of (error_response msg 409) = Inl ConflictError"
  "outcome_of (message_response msg 200) = Inr ()"
  "outcome_of (message_response msg 201) = Inr ()"
  "outcome_of (locked_response u) = Inl LockedError"
  by (simp_all add: outcome_of_def)


section \<open>Each handler through the abstraction\<close>

lemma api_login_abs:
  assumes "table_ok table" and "clk 1 = clk 0"
  shows "outcome_of (fst (api_login cfg H clk data table)) =
           fst (spec_login cfg H (clk 0) (py_str (data ''username''))
                  (py_str (data ''password'')) (abs_db table)) \<and>
         abs_db (snd (api_login cfg H clk data table)) =
           snd (spec_login cfg H (clk 0) (py_str (data ''username''))
                  (py_str (data ''password'')) (abs_db table))"
proof (cases rule: api_login_cases [where data=data and table=table and clk=clk and H=H
      and cfg=cfg])
  case invalid
  then show ?thesis
    using invalid_credentials_strs [of data]
    by (auto simp: api_login_invalid spec_login_def)
next
  case (unknown name password)
  then show ?thesis
    using has_credentials_strs [of data name password]
    by (simp add: api_login_unknown spec_login_def)
next
  case (locked name password u)
  then show ?thesis
    using has_credentials_strs [of data name password]
    by (simp add: api_login_locked spec_login_def)
next
  case (success name password u)
  then show ?thesis
    using has_credentials_strs [of data name password] assms
    by (simp add: api_login_success spec_login_def abs_db_session_commit check_password_def)
next
  case (wrong name password u)
  then show ?thesis
    using has_credentials_strs [of data name password] assms
    by (simp add: api_login_wrong spec_login_def abs_db_session_commit check_password_def)
next
  case (wrong_lock name password u)
  then show ?thesis
    using has_credentials_strs [of data name password] assms
    by (simp add: api_login_wrong_lock spec_login_def abs_db_session_commit check_password_def)
qed

lemma api_register_abs:
  "\<exists>r table'. api_register H salt data table = Inr (r, table') \<and>
     outcome_of r =
       fst (spec_register H salt (py_str (data ''username'')) (py_str (data ''password''))
              (abs_db table)) \<and>
     abs_db table' =
       snd (spec_register H salt (py_str (data ''username'')) (py_str (data ''password''))
              (abs_db table))"
proof (cases rule: api_register_cases [where data=data and table=table])
  case invalid
  then show ?thesis
    using invalid_credentials_strs [of data]
    by (auto simp: api_register_invalid spec_register_def)
next
  case (conflict name password u)
  then show ?thesis
    using has_credentials_strs [of data name password]
    by (simp add: api_register_conflict spec_register_def)
next
  case (created name password)
  then show ?thesis
    using has_credentials_strs [of data name password]
    by (simp add: api_register_created spec_register_def abs_db_append abs_user_def)
qed

lemma api_reset_abs:
  assumes "table_ok table"
  shows "outcome_of (fst (api_reset_password H salt clk data table)) =
           fst (spec_reset H salt (clk 0) (py_str (data ''username''))
                  (py_str (data ''old_password'')) (py_str (data ''new_password''))
                  (abs_db table)) \<and>
         abs_db (snd (api_reset_password H salt clk data table)) =
           snd (spec_reset H salt (clk 0) (py_str (data ''username''))
                  (py_str (data ''old_password'')) (py_str (data ''new_password''))
                  (abs_db table))"
proof (cases rule: api_reset_cases [where data=data and table=table and clk=clk and H=H])
  case invalid
  then show ?thesis
    using invalid_reset_fields_strs [of data]
    by (auto simp: api_reset_invalid spec_reset_def)
next
  case (unknown name old new)
  then show ?thesis
    using has_reset_fields_strs [of data name old new]
    by (simp add: api_reset_unknown spec_reset_def)
next
  case (wrong name old new u)
  then show ?thesis
    using has_reset_fields_strs [of data name old new]
    by (simp add: api_reset_wrong spec_reset_def check_password_def)
next
  case (locked name old new u)
  then show ?thesis
    using has_reset_fields_strs [of data name old new]
    by (simp add: api_reset_locked spec_reset_def check_password_def)
next
  case (success name old new u)
  then show ?thesis
    using has_reset_fields_strs [of data name old new] assms
    by (simp add: api_reset_success spec_reset_def check_password_def
        abs_db_session_commit reset_row_def set_password_def)
qed

section \<open>Refinement\<close>

text \<open>
  Claim C8. The login handler implements the specification's Login: when
  both clock readings of the request are the same instant, the typed result
  of the response and the accounts after the request are those that
  \<open>spec_login\<close> computes from the accounts before it.
\<close>
theorem login_refines_spec:
  assumes "table_ok table" and "clk 1 = clk 0"
  shows "outcome_of (fst (api_login cfg H clk data table)) =
           fst (spec_login cfg H (clk 0) (py_str (data ''username''))
                  (py_str (data ''password'')) (abs_db table)) \<and>
         abs_db (snd (api_login cfg H clk data table)) =
           snd (spec_login cfg H (clk 0) (py_str (data ''username''))
                  (py_str (data ''password'')) (abs_db table))"
  using assms by (rule api_login_abs)

theorem login_refines_spec_witness:
  "table_ok [alice_failed 2, bob] \<and>
   outcome_of (fst (api_login cfg0 ref_hasher (\<lambda>_. 500) (credentials ''alice'' ''wrong'')
     [alice_failed 2, bob])) = Inl LockedError \<and>
   fst (spec_login cfg0 ref_hasher 500 ''alice'' ''wrong'' (abs_db [alice_failed 2, bob])) =
     Inl LockedError"
  using login_refines_spec [of "[alice_failed 2, bob]" "\<lambda>_. 500" cfg0 ref_hasher
      "credentials ''alice'' ''wrong''"]
  by (simp add: api_login_credentials)

text \<open>
  The registration handler implements the specification's
  Register: it returns a response on every input, and the typed result of
  the response and the accounts after the request are those that
  \<open>spec_register\<close> computes.
\<close>
lemma register_refines_spec:
  "\<exists>r table'. api_register H salt data table = Inr (r, table') \<and>
     outcome_of r =
       fst (spec_register H salt (py_str (data ''username'')) (py_str (data ''password''))
              (abs_db table)) \<and>
     abs_db table' =
       snd (spec_register H salt (py_str (data ''username'')) (py_str (data ''password''))
              (abs_db table))"
  by (rule api_register_abs)

text \<open>
  The reset handler implements the specification's
  ResetPassword: the typed result of the response and the accounts after the
  request are those that \<open>spec_reset\<close> computes.
\<close>
lemma reset_refines_spec:
  assumes "table_ok table"
  shows "outcome_of (fst (api_reset_password H salt clk data table)) =
           fst (spec_reset H salt (clk 0) (py_str (data ''username''))
                  (py_str (data ''old_password'')) (py_str (data ''new_password''))
                  (abs_db table)) \<and>
         abs_db (snd (api_reset_password H salt clk data table)) =
           snd (spec_reset H salt (clk 0) (py_str (data ''username''))
                  (py_str (data ''old_password'')) (py_str (data ''new_password''))
                  (abs_db table))"
  using assms by (rule api_reset_abs)

lemma reset_refines_spec_example:
  "table_ok [alice, bob] \<and>
   outcome_of (fst (api_reset_password ref_hasher 1 (\<lambda>_. 500)
     (reset_fields ''bob'' ''hunter2'' ''n3w'') [alice, bob])) = Inr () \<and>
   fst (spec_reset ref_hasher 1 500 ''bob'' ''hunter2'' ''n3w'' (abs_db [alice, bob])) = Inr ()"
  using reset_refines_spec [of "[alice, bob]" ref_hasher 1 "\<lambda>_. 500"
      "reset_fields ''bob'' ''hunter2'' ''n3w''"]
  by (simp add: api_reset_fields)


end
