(* ===== verification/Trace_Refinement.thy ===== *)
theory Trace_Refinement
  imports App Lockout_Spec
begin

text \<open>
  Runs of the application against runs of the specification. The caller of
  the specification invokes one of Register, Login and ResetPassword; a run
  of the specification applies a list of such calls to the accounts. Every
  JSON route with a body is one of these calls, the other routes are none.
  The simulation lemma for a single request is lifted to runs: seen through
  the abstraction, a sequential run of \<^verbatim>\<open>src/app.py\<close> is the run of the
  specification on the calls it contains.
\<close>

section \<open>Calls and runs of the specification\<close>

datatype call =
    Register string string
  | Login string string
  | ResetPassword string string string

text \<open>
  One call at the instant \<open>now\<close>; \<open>salt\<close> is the randomness of the hash
  primitive.
\<close>

definition spec_call ::
    "config \<Rightarrow> 's hasher \<Rightarrow> 's \<Rightarrow> datetime \<Rightarrow> call \<Rightarrow> accounts \<Rightarrow> outcome \<times> accounts" where
  "spec_call cfg H salt now c st =
     (case c of
        Register name password \<Rightarrow> spec_register H salt name password st
      | Login name password \<Rightarrow> spec_login cfg H now name password st
      | ResetPassword name old new \<Rightarrow> spec_reset H salt now name old new st)"

fun spec_run ::
    "config \<Rightarrow> 's hasher \<Rightarrow> ('s \<times> datetime \<times> call) list \<Rightarrow> accounts \<Rightarrow>
     outcome list \<times> accounts" where
  "spec_run cfg H [] st = ([], st)"
| "spec_run cfg H (c # cs) st =
     (let (out, st') = spec_call cfg H (fst c) (fst (snd c)) (snd (snd c)) st;
          (outs, st'') = spec_run cfg H cs st'
      in (out # outs, st''))"

section \<open>The calls of a run of the application\<close>

text \<open>
  The call a request makes: the fields of its body, a missing field read as
  the empty string (which the specification rejects as it rejects an empty
  one).
\<close>

definition call_of :: "request \<Rightarrow> call option" where
  "call_of rq =
     (case rq of
        POST_api_register data \<Rightarrow>
          Some (Register (py_str (data ''username'')) (py_str (data ''password'')))
      | POST_api_login data \<Rightarrow>
          Some (Login (py_str (data ''username'')) (py_str (data ''password'')))
      | POST_api_reset data \<Rightarrow>
          Some (ResetPassword (py_str (data ''username'')) (py_str (data ''old_password''))
                  (py_str (data ''new_password'')))
      | _ \<Rightarrow> None)"

text \<open>
  The calls of a list of requests, each with the salt and the first clock
  reading of its request; and the typed results of the responses to them.
\<close>

fun calls :: "('s env \<times> request) list \<Rightarrow> ('s \<times> datetime \<times> call) list" where
  "calls [] = []"
| "calls (ev # evs) =
     (case call_of (snd ev) of
        None \<Rightarrow> calls evs
      | Some c \<Rightarrow> (salt_of (fst ev), clock_of (fst ev) 0, c) # calls evs)"

fun outcomes :: "('s env \<times> request) list \<Rightarrow> response list \<Rightarrow> outcome list" where
  "outcomes (ev # evs) (r # rs) =
     (case call_of (snd ev) of
        None \<Rightarrow> outcomes evs rs
      | Some c \<Rightarrow> outcome_of r # outcomes evs rs)"
| "outcomes evs rs = []"

text \<open>
  A request whose two clock readings are the same instant, as the
  specification's single ``now'' has it.
\<close>

definition one_instant :: "'s env \<Rightarrow> bool" where
  "one_instant e \<longleftrightarrow> clock_of e 1 = clock_of e 0"

section \<open>Simulation\<close>

lemma spec_run_Cons:
  "fst (spec_run cfg H (c # cs) st) =
     fst (spec_call cfg H (fst c) (fst (snd c)) (snd (snd c)) st) #
     fst (spec_run cfg H cs (snd (spec_call cfg H (fst c) (fst (snd c)) (snd (snd c)) st)))"
  "snd (spec_run cfg H (c # cs) st) =
     snd (spec_run cfg H cs (snd (spec_call cfg H (fst c) (fst (snd c)) (snd (snd c)) st)))"
  by (simp_all add: split_beta)

declare spec_run.simps(2) [simp del]

lemma call_of_simps [simp]:
  "call_of GET_root = None" "call_of GET_login = None" "call_of GET_register = None"
  "call_of GET_reset = None" "call_of GET_users = None" "call_of GET_api_users = None"
  "call_of (POST_api_register data) =
     Some (Register (py_str (data ''username'')) (py_str (data ''password'')))"
  "call_of (POST_api_login data) =
     Some (Login (py_str (data ''username'')) (py_str (data ''password'')))"
  "call_of (POST_api_reset data) =
     Some (ResetPassword (py_str (data ''username'')) (py_str (data ''old_password''))
             (py_str (data ''new_password'')))"
  by (simp_all add: call_of_def)

lemma handle_no_call: "call_of rq = None \<Longrightarrow> snd (handle cfg H e rq table) = table"
  by (cases rq) simp_all

lemma handle_call:
  assumes "table_ok table" and "one_instant e" and "call_of rq = Some c"
  shows "outcome_of (fst (handle cfg H e rq table)) =
           fst (spec_call cfg H (salt_of e) (clock_of e 0) c (abs_db table)) \<and>
         abs_db (snd (handle cfg H e rq table)) =
           snd (spec_call cfg H (salt_of e) (clock_of e 0) c (abs_db table))"
proof (cases rq)
  case (POST_api_register data)
  with assms(3) api_register_abs [of H "salt_of e" data table] show ?thesis
    by (auto simp: handle_register spec_call_def)
next
  case (POST_api_login data)
  with assms api_login_abs [of table "clock_of e" cfg H data] show ?thesis
    by (auto simp: spec_call_def one_instant_def)
next
  case (POST_api_reset data)
  with assms api_reset_abs [of table H "salt_of e" "clock_of e" data] show ?thesis
    by (auto simp: spec_call_def)
qed (use assms in simp_all)

text \<open>
  The simulation lifted to runs, by induction on the list of requests.
\<close>

lemma run_abs:
  assumes "table_ok table" and "list_all (\<lambda>ev. one_instant (fst ev)) evs"
  shows "outcomes evs (fst (run cfg H evs table)) =
           fst (spec_run cfg H (calls evs) (abs_db table)) \<and>
         abs_db (snd (run cfg H evs table)) =
           snd (spec_run cfg H (calls evs) (abs_db table))"
  using assms
proof (induction evs arbitrary: table)
  case Nil
  then show ?case by simp
next
  case (Cons ev evs)
  let ?t = "snd (handle cfg H (fst ev) (snd ev) table)"
  from Cons.prems have IH: "outcomes evs (fst (run cfg H evs ?t)) =
      fst (spec_run cfg H (calls evs) (abs_db ?t)) \<and>
    abs_db (snd (run cfg H evs ?t)) = snd (spec_run cfg H (calls evs) (abs_db ?t))"
    by (intro Cons.IH) (simp_all add: handle_table_ok)
  show ?case
  proof (cases "call_of (snd ev)")
    case None
    with IH show ?thesis by (simp add: run_Cons handle_no_call)
  next
    case (Some c)
    with Cons.prems handle_call [of table "fst ev" "snd ev" c cfg H] IH show ?thesis
      by (simp add: run_Cons spec_run_Cons)
  qed
qed

text \<open>
  Claim C9. A sequential run refines the specification: for requests whose
  clock readings are one instant each, the typed results of the responses to
  the calls of the run and the accounts after the run are those of the
  specification's run on these calls, started from the accounts before.
\<close>
theorem run_refines_spec:
  assumes "table_ok table" and "list_all (\<lambda>ev. one_instant (fst ev)) evs"
  shows "outcomes evs (fst (run cfg H evs table)) =
           fst (spec_run cfg H (calls evs) (abs_db table)) \<and>
         abs_db (snd (run cfg H evs table)) =
           snd (spec_run cfg H (calls evs) (abs_db table))"
  using assms by (rule run_abs)

theorem run_refines_spec_witness:
  "table_ok create_app \<and>
   fst (spec_run cfg0 ref_hasher
     (calls [(at_time 0, POST_api_register (credentials ''alice'' ''p1'')),
             (at_time 500000, GET_login),
             (at_time 1000000, POST_api_login (credentials ''alice'' ''wrong'')),
             (at_time 2000000, POST_api_login (credentials ''alice'' ''wrong'')),
             (at_time 3000000, POST_api_login (credentials ''alice'' ''wrong'')),
             (at_time 4000000, POST_api_login (credentials ''alice'' ''p1''))])
     (abs_db create_app)) =
   [Inr (), Inl InvalidCredentialsError, Inl InvalidCredentialsError, Inl LockedError,
    Inl LockedError]"
  using run_refines_spec [of create_app
      "[(at_time 0, POST_api_register (credentials ''alice'' ''p1'')),
        (at_time 500000, GET_login),
        (at_time 1000000, POST_api_login (credentials ''alice'' ''wrong'')),
        (at_time 2000000, POST_api_login (credentials ''alice'' ''wrong'')),
        (at_time 3000000, POST_api_login (credentials ''alice'' ''wrong'')),
        (at_time 4000000, POST_api_login (credentials ''alice'' ''p1''))]" cfg0 ref_hasher]
  by (simp add: run_Cons handle_def create_app_def api_register_credentials
      api_login_credentials registered_row_def next_id_def max_id_def check_password_def
      one_instant_def table_ok_def)

end
