(* ===== verification/Credentials.thy ===== *)
theory Credentials
  imports App
begin

text \<open>
  Which password opens an account after a run. The password of a user is
  set by a registration that is answered 201 and by a reset that is answered
  200; the theory follows these through a run of requests and shows that the
  table stores, for every user, a hash of the password set last, so that
  \<^verbatim>\<open>api_login\<close> accepts that password and no other.
\<close>

section \<open>The passwords set during a run\<close>

text \<open>The hash the table holds for a user name.\<close>

definition stored_hash :: "db \<Rightarrow> string \<Rightarrow> string option" where
  "stored_hash table name = map_option password_hash (query_first_by_username table name)"

text \<open>
  The user name and password that a request has set, judged by its
  response.
\<close>

definition password_set :: "request \<Rightarrow> response \<Rightarrow> (string \<times> string) option" where
  "password_set rq r =
     (case rq of
        POST_api_register data \<Rightarrow>
          if status r = 201 then Some (py_str (data ''username''), py_str (data ''password''))
          else None
      | POST_api_reset data \<Rightarrow>
          if status r = 200
          then Some (py_str (data ''username''), py_str (data ''new_password''))
          else None
      | _ \<Rightarrow> None)"

definition record_password :: "request \<Rightarrow> response \<Rightarrow> (string \<rightharpoonup> string) \<Rightarrow> (string \<rightharpoonup> string)" where
  "record_password rq r pw =
     (case password_set rq r of None \<Rightarrow> pw | Some (name, p) \<Rightarrow> pw(name \<mapsto> p))"

text \<open>
  The password set last for each user name, after the requests \<open>evs\<close> were
  served from \<open>table\<close>, where \<open>pw\<close> gives the passwords before.
\<close>

fun current_passwords ::
    "config \<Rightarrow> 's hasher \<Rightarrow> ('s env \<times> request) list \<Rightarrow> db \<Rightarrow> (string \<rightharpoonup> string) \<Rightarrow>
     (string \<rightharpoonup> string)" where
  "current_passwords cfg H [] table pw = pw"
| "current_passwords cfg H (ev # evs) table pw =
     (let (r, table') = handle cfg H (fst ev) (snd ev) table
      in current_passwords cfg H evs table' (record_password (snd ev) r pw))"

text \<open>
  The table stores the passwords \<open>pw\<close>: it has a row exactly for the user
  names of \<open>pw\<close>, and the hash of each row was generated from the password
  \<open>pw\<close> gives. User names and passwords are non-empty.
\<close>

definition stores :: "'s hasher \<Rightarrow> db \<Rightarrow> (string \<rightharpoonup> string) \<Rightarrow> bool" where
  "stores H table pw \<longleftrightarrow>
     (\<forall>name. case pw name of
        None \<Rightarrow> stored_hash table name = None
      | Some p \<Rightarrow>
          name \<noteq> [] \<and> p \<noteq> [] \<and>
          (\<exists>salt. stored_hash table name = Some (generate_password_hash H salt p)))"

section \<open>One request\<close>

lemma stores_empty [simp]: "stores H [] Map.empty"
  by (simp add: stores_def stored_hash_def)

lemma storesD_None: "stores H table pw \<Longrightarrow> pw name = None \<Longrightarrow> stored_hash table name = None"
  by (auto simp: stores_def split: option.splits dest: spec [of _ name])

lemma storesD_Some:
  "stores H table pw \<Longrightarrow> pw name = Some p \<Longrightarrow>
   name \<noteq> [] \<and> p \<noteq> [] \<and>
   (\<exists>salt. stored_hash table name = Some (generate_password_hash H salt p))"
  by (auto simp: stores_def split: option.splits dest: spec [of _ name])

lemma stores_cong:
  assumes "stores H table pw" and "\<And>name. stored_hash table' name = stored_hash table name"
  shows "stores H table' pw"
  using assms(1) by (simp add: stores_def assms(2) cong: option.case_cong)

lemma stores_update:
  assumes "stores H table pw" and "name \<noteq> []" and "p \<noteq> []"
    and "stored_hash table' name = Some (generate_password_hash H salt p)"
    and "\<And>n. n \<noteq> name \<Longrightarrow> stored_hash table' n = stored_hash table n"
  shows "stores H table' (pw(name \<mapsto> p))"
  unfolding stores_def
proof
  fix n
  show "case (pw(name \<mapsto> p)) n of
      None \<Rightarrow> stored_hash table' n = None
    | Some q \<Rightarrow> n \<noteq> [] \<and> q \<noteq> [] \<and>
        (\<exists>salt. stored_hash table' n = Some (generate_password_hash H salt q))"
  proof (cases "n = name")
    case True
    with assms(2-4) show ?thesis by auto
  next
    case False
    with assms(1,5) show ?thesis
      by (cases "pw n") (auto dest: storesD_None storesD_Some)
  qed
qed

lemma record_password_simps [simp]:
  "record_password GET_root r pw = pw" "record_password GET_login r pw = pw"
  "record_password GET_register r pw = pw" "record_password GET_reset r pw = pw"
  "record_password GET_users r pw = pw" "record_password GET_api_users r pw = pw"
  "record_password (POST_api_login data) r pw = pw"
  by (simp_all add: record_password_def password_set_def)

lemma stored_hash_login:
  assumes "table_ok table"
  shows "stored_hash (snd (api_login cfg H clk data table)) name = stored_hash table name"
proof (cases rule: api_login_effect [where data=data and table=table and clk=clk and H=H
      and cfg=cfg])
  case unchanged
  then show ?thesis by simp
next
  case (written u u')
  from assms written(1) have "query_first_by_username table (username u) = Some u"
    by (rule query_first_member)
  with written assms show ?thesis
    by (simp add: stored_hash_def same_identity_def query_first_session_commit)
qed

lemma stores_register:
  assumes "stores H table pw"
    and "api_register H salt data table = Inr (r, table')"
  shows "stores H table' (record_password (POST_api_register data) r pw)"
proof (cases rule: api_register_effect [where H=H and salt=salt and data=data and table=table])
  case (unchanged r0)
  with assms show ?thesis by (auto simp: record_password_def password_set_def)
next
  case (inserted r0 name password)
  let ?row = "registered_row H salt name password table"
  from inserted have none: "query_first_by_username table name = None"
    by (simp add: query_first_None_iff)
  from inserted assms(2) have r: "status r = 201" "table' = table @ [?row]" by simp_all
  from inserted(1) have strs: "py_str (data ''username'') = name"
    "py_str (data ''password'') = password" "name \<noteq> []" "password \<noteq> []"
    by (simp_all add: has_credentials_def)
  have "stores H table' (pw(name \<mapsto> password))"
  proof (rule stores_update [OF assms(1) strs(3,4)])
    show "stored_hash table' name = Some (generate_password_hash H salt password)"
      using none r(2)
      by (simp add: stored_hash_def query_first_by_username_def first_by_append
          registered_row_def)
    show "stored_hash table' n = stored_hash table n" if "n \<noteq> name" for n
      using that r(2)
      by (simp add: stored_hash_def query_first_by_username_def first_by_append
          registered_row_def split: option.split)
  qed
  with r(1) strs show ?thesis by (simp add: record_password_def password_set_def)
qed

lemma stores_reset:
  assumes "table_ok table" and "stores H table pw"
  shows "stores H (snd (api_reset_password H salt clk data table))
     (record_password (POST_api_reset data) (fst (api_reset_password H salt clk data table)) pw)"
proof (cases rule: api_reset_effect [where data=data and table=table and clk=clk and H=H
      and salt=salt])
  case unchanged
  with assms show ?thesis by (simp add: record_password_def password_set_def)
next
  case (written name old new u)
  from written(2) have u: "u \<in> set table" "username u = name"
    by (auto dest: query_first_SomeD)
  from written(1) have strs: "py_str (data ''username'') = name"
    "py_str (data ''new_password'') = new" "name \<noteq> []" "new \<noteq> []"
    by (simp_all add: has_reset_fields_def)
  let ?t = "session_commit table (reset_row H salt new u)"
  have q: "query_first_by_username ?t n =
      (if n = name then Some (reset_row H salt new u) else query_first_by_username table n)"
    for n
    using assms(1) u by (simp add: query_first_session_commit reset_row_def)
  have "stores H ?t (pw(name \<mapsto> new))"
    by (rule stores_update [OF assms(2) strs(3,4), where salt = salt])
      (simp_all add: stored_hash_def q reset_row_sel)
  with written(5) strs show ?thesis by (simp add: record_password_def password_set_def)
qed

lemma handle_stores:
  assumes "table_ok table" and "stores H table pw"
  shows "stores H (snd (handle cfg H e rq table))
     (record_password rq (fst (handle cfg H e rq table)) pw)"
proof (cases rq)
  case (POST_api_register data)
  obtain r table' where reg: "api_register H (salt_of e) data table = Inr (r, table')"
    using register_never_raises_aux [of H "salt_of e" data table] by blast
  with assms(2) have "stores H table' (record_password (POST_api_register data) r pw)"
    by (rule stores_register)
  with reg POST_api_register show ?thesis by (simp add: handle_register)
next
  case (POST_api_login data)
  with assms show ?thesis by (auto intro: stores_cong simp: stored_hash_login)
next
  case (POST_api_reset data)
  with assms show ?thesis by (simp add: stores_reset)
qed (use assms in simp_all)

section \<open>Runs\<close>

lemma current_passwords_Cons:
  "current_passwords cfg H (ev # evs) table pw =
     current_passwords cfg H evs (snd (handle cfg H (fst ev) (snd ev) table))
       (record_password (snd ev) (fst (handle cfg H (fst ev) (snd ev) table)) pw)"
  by (simp add: split_beta)

declare current_passwords.simps(2) [simp del]

lemma run_stores:
  "table_ok table \<Longrightarrow> stores H table pw \<Longrightarrow>
   stores H (snd (run cfg H evs table)) (current_passwords cfg H evs table pw)"
  by (induction evs arbitrary: table pw)
    (simp_all add: run_Cons current_passwords_Cons handle_table_ok handle_stores)

text \<open>
  When a login with a user name and a password is accepted, in terms of the
  stored hash.
\<close>

lemma login_accepted_iff:
  "status (fst (api_login cfg H clk (credentials name p) table)) = 200 \<longleftrightarrow>
     name \<noteq> [] \<and> p \<noteq> [] \<and>
     (\<exists>u. query_first_by_username table name = Some u \<and> \<not> is_locked u (clk 0) \<and>
        check_password_hash H (password_hash u) p)"
proof (cases "name \<noteq> [] \<and> p \<noteq> []")
  case True
  then have "has_credentials (credentials name p) name p" by simp
  then show ?thesis
    using True
    by (simp add: api_login_valid check_password_def locked_response_def
        split: option.split)
next
  case False
  then have "py_not (credentials name p ''username'') \<or> py_not (credentials name p ''password'')"
    by auto
  with False show ?thesis by (auto simp: api_login_invalid)
qed

lemma stores_run_create_app:
  "stores H (snd (run cfg H evs create_app)) (current_passwords cfg H evs create_app Map.empty)"
  by (rule run_stores) (simp_all add: create_app_def table_ok_def)

text \<open>The facts that evaluate a run on a concrete table.\<close>

lemmas example_run_simps =
  run_Cons current_passwords_Cons handle_def create_app_def api_register_credentials
  api_reset_fields registered_row_def next_id_def max_id_def check_password_def
  record_password_def password_set_def reset_row_def set_password_def is_locked_def

section \<open>The password that opens an account\<close>

text \<open>
  Claim C10. After any run from the empty table, the password set last for a
  user (by the registration, or by the last reset that went through) opens
  the account: a login with it is answered 200, or 403 while the account is
  locked. This needs of the hash primitive only that a hash verifies against
  the password it was generated from.
\<close>
theorem current_password_accepted:
  assumes "hasher_complete H"
    and "current_passwords cfg H evs create_app Map.empty name = Some p"
  shows "\<exists>u. query_first_by_username (snd (run cfg H evs create_app)) name = Some u \<and>
           status (fst (api_login cfg H clk (credentials name p) (snd (run cfg H evs create_app)))) =
             (if is_locked u (clk 0) then 403 else 200)"
proof -
  let ?t = "snd (run cfg H evs create_app)"
  from storesD_Some [OF stores_run_create_app assms(2)]
  obtain salt where ne: "name \<noteq> []" "p \<noteq> []"
    and h: "stored_hash ?t name = Some (generate_password_hash H salt p)"
    by auto
  from h obtain u where u: "query_first_by_username ?t name = Some u"
    "password_hash u = generate_password_hash H salt p"
    by (auto simp: stored_hash_def)
  from ne have "has_credentials (credentials name p) name p" by simp
  with u assms(1) show ?thesis
    by (simp add: api_login_valid check_password_def)
qed


theorem current_password_accepted_witness:
  "hasher_complete ref_hasher \<and>
   current_passwords cfg0 ref_hasher
     [(at_time 0, POST_api_register (credentials ''alice'' ''p1'')),
      (at_time 1, POST_api_reset (reset_fields ''alice'' ''p1'' ''p2''))]
     create_app Map.empty ''alice'' = Some ''p2'' \<and>
   status (fst (api_login cfg0 ref_hasher (\<lambda>_. 5) (credentials ''alice'' ''p2'')
     (snd (run cfg0 ref_hasher
        [(at_time 0, POST_api_register (credentials ''alice'' ''p1'')),
         (at_time 1, POST_api_reset (reset_fields ''alice'' ''p1'' ''p2''))]
        create_app)))) = 200"
proof -
  let ?evs = "[(at_time 0, POST_api_register (credentials ''alice'' ''p1'')),
      (at_time 1, POST_api_reset (reset_fields ''alice'' ''p1'' ''p2''))]"
  have pw: "current_passwords cfg0 ref_hasher ?evs create_app Map.empty ''alice'' = Some ''p2''"
    by (simp add: example_run_simps)
  have "snd (run cfg0 ref_hasher ?evs create_app) =
      [\<lparr>user_id = 1, username = ''alice'', password_hash = ref_generate 0 ''p2'',
        failed_login_attempts = 0, lockout_until = None\<rparr>]"
    by (simp add: example_run_simps)
  with current_password_accepted [OF ref_hasher_complete pw, of "\<lambda>_. 5"] pw
  show ?thesis by (simp add: is_locked_def)
qed

text \<open>
  Claim C11. After any run from the empty table, a login is accepted only
  with the password set last for the user: a password that was replaced by a
  reset, and any password for a name that never registered, is refused.
  This needs of the hash primitive that a hash verifies against no other
  password than the one it was generated from.
\<close>
theorem only_current_password_accepted:
  assumes "hasher_sound H"
    and "status (fst (api_login cfg H clk (credentials name p) (snd (run cfg H evs create_app)))) =
           200"
  shows "current_passwords cfg H evs create_app Map.empty name = Some p"
proof -
  let ?t = "snd (run cfg H evs create_app)"
  let ?pw = "current_passwords cfg H evs create_app Map.empty"
  from assms(2) obtain u where u: "query_first_by_username ?t name = Some u"
    "check_password_hash H (password_hash u) p"
    by (auto simp: login_accepted_iff)
  then have h: "stored_hash ?t name = Some (password_hash u)"
    by (simp add: stored_hash_def)
  show ?thesis
  proof (cases "?pw name")
    case None
    with stores_run_create_app have "stored_hash ?t name = None" by (rule storesD_None)
    with h show ?thesis by simp
  next
    case (Some q)
    from storesD_Some [OF stores_run_create_app Some] obtain salt
      where "stored_hash ?t name = Some (generate_password_hash H salt q)"
      by auto
    with h u(2) have "check_password_hash H (generate_password_hash H salt q) p" by simp
    with assms(1) have "p = q" by (rule hasher_soundD)
    with Some show ?thesis by simp
  qed
qed


theorem only_current_password_accepted_witness:
  "hasher_sound ref_hasher \<and>
   status (fst (api_login cfg0 ref_hasher (\<lambda>_. 5) (credentials ''alice'' ''p2'')
     (snd (run cfg0 ref_hasher
        [(at_time 0, POST_api_register (credentials ''alice'' ''p1'')),
         (at_time 1, POST_api_reset (reset_fields ''alice'' ''p1'' ''p2''))]
        create_app)))) = 200 \<and>
   current_passwords cfg0 ref_hasher
     [(at_time 0, POST_api_register (credentials ''alice'' ''p1'')),
      (at_time 1, POST_api_reset (reset_fields ''alice'' ''p1'' ''p2''))]
     create_app Map.empty ''alice'' = Some ''p2''"
proof -
  let ?evs = "[(at_time 0, POST_api_register (credentials ''alice'' ''p1'')),
      (at_time 1, POST_api_reset (reset_fields ''alice'' ''p1'' ''p2''))]"
  have ok: "status (fst (api_login cfg0 ref_hasher (\<lambda>_. 5) (credentials ''alice'' ''p2'')
      (snd (run cfg0 ref_hasher ?evs create_app)))) = 200"
    by (simp add: example_run_simps api_login_credentials)
  with only_current_password_accepted [OF ref_hasher_sound ok] show ?thesis by simp
qed

section \<open>What soundness of the hasher rules out\<close>

text \<open>
  The theorems above that refuse a password assume a sound hasher. With a
  hasher that reads the first \<open>k\<close> characters only, every password that
  agrees with the registered one on these characters logs in.
\<close>

lemma prefix_accepted:
  assumes "query_first_by_username table name = None"
    and "name \<noteq> []" and "p \<noteq> []" and "q \<noteq> []" and "take k q = take k p"
  shows "status (fst (api_login cfg (prefix_hasher k) clk (credentials name q)
           (snd (projr (api_register (prefix_hasher k) salt (credentials name p) table))))) = 200"
  using assms
  by (simp add: api_register_created [where name = name and password = p] login_accepted_iff
      query_first_by_username_def first_by_append registered_row_def is_locked_def)

end
