(* ===== verification/Concurrency.thy ===== *)
theory Concurrency
  imports App "HOL-Library.AList"
begin

text \<open>
  Requests served at the same time. Every view of \<^verbatim>\<open>src/app.py\<close> reads the
  table once, computes on the objects it loaded, and writes with one
  \<^verbatim>\<open>db.session.commit()\<close>; the code takes no lock between the read and the
  write, so the writes of other requests can fall in between. This theory
  splits each view at its commit, gives the write as the session issues it
  (only the columns the view assigned a new value), and runs schedules of
  request starts and commits. The lemmas show that a request that commits
  right after its read is the sequential handler, that a serial schedule is
  the sequential run, and which guarantees survive every schedule. What
  overlapping requests lose is in the theory \<open>Overlapping_Requests\<close>.
\<close>

section \<open>The write of a changed object\<close>

text \<open>
  \<^verbatim>\<open>db.session.commit()\<close> on an object that was loaded as \<open>loaded\<close> and now
  reads \<open>obj\<close>: the \<^verbatim>\<open>UPDATE\<close> sets the columns whose value differs from the
  loaded one, on the row with the object's key, whatever that row holds by
  now. No view assigns the key or the user name.
\<close>

definition flush_row :: "user \<Rightarrow> user \<Rightarrow> user \<Rightarrow> user" where
  "flush_row loaded obj row =
     row\<lparr>password_hash :=
           (if password_hash obj = password_hash loaded then password_hash row
            else password_hash obj),
         failed_login_attempts :=
           (if failed_login_attempts obj = failed_login_attempts loaded
            then failed_login_attempts row else failed_login_attempts obj),
         lockout_until :=
           (if lockout_until obj = lockout_until loaded then lockout_until row
            else lockout_until obj)\<rparr>"

definition session_flush :: "db \<Rightarrow> user \<Rightarrow> user \<Rightarrow> db" where
  "session_flush table loaded obj =
     map (\<lambda>r. if user_id r = user_id loaded then flush_row loaded obj r else r) table"

section \<open>The views up to their commit\<close>

text \<open>
  What a view holds when it has read the table and computed: a response and
  no write, or an object to write back and the response that follows the
  commit, or a new object to insert and the response that follows.
\<close>

datatype pending =
    Respond response
  | Update user user response
  | Insert pending_user response

definition api_register_pending :: "'s hasher \<Rightarrow> 's \<Rightarrow> json_request \<Rightarrow> db \<Rightarrow> pending" where
  "api_register_pending H salt data table =
     (let name = data ''username''; password = data ''password'' in
      if py_not name \<or> py_not password then
        Respond (error_response ''Username and password are required'' 400)
      else if query_first_by_username table (py_str name) \<noteq> None then
        Respond (error_response ''Username already exists'' 409)
      else
        (let new_user = User_init (py_str name);
             new_user = set_password_new H salt (py_str password) new_user
         in Insert new_user
              (message_response (''User '' @ py_str name @ '' registered successfully'') 201)))"

definition api_login_pending ::
    "config \<Rightarrow> 's hasher \<Rightarrow> clock \<Rightarrow> json_request \<Rightarrow> db \<Rightarrow> pending" where
  "api_login_pending cfg H clk data table =
     (let name = data ''username''; password = data ''password'' in
      if py_not name \<or> py_not password then
        Respond (error_response ''Username and password are required'' 400)
      else
        case query_first_by_username table (py_str name) of
          None \<Rightarrow> Respond (error_response ''Invalid credentials'' 401)
        | Some user \<Rightarrow>
            if is_locked user (clk 0) then Respond (locked_response user)
            else if \<not> check_password H user (py_str password) then
              (let user1 = user\<lparr>failed_login_attempts := failed_login_attempts user + 1\<rparr> in
               if LOCKOUT_ATTEMPTS cfg \<le> failed_login_attempts user1 then
                 Update user (user1\<lparr>lockout_until := Some (clk 1 + lockout_duration cfg)\<rparr>)
                   (error_response ''Account locked due to too many failed attempts'' 403)
               else Update user user1 (error_response ''Invalid credentials'' 401))
            else
              Update user (user\<lparr>failed_login_attempts := 0, lockout_until := None\<rparr>)
                (message_response ''Login successful'' 200))"

definition api_reset_pending ::
    "'s hasher \<Rightarrow> 's \<Rightarrow> clock \<Rightarrow> json_request \<Rightarrow> db \<Rightarrow> pending" where
  "api_reset_pending H salt clk data table =
     (let name = data ''username'';
          old_password = data ''old_password'';
          new_password = data ''new_password''
      in
      if \<not> py_all [name, old_password, new_password] then
        Respond (error_response ''Username, old_password, and new_password are required'' 400)
      else
        case query_first_by_username table (py_str name) of
          None \<Rightarrow> Respond (error_response ''Invalid username or old password'' 401)
        | Some user \<Rightarrow>
            if \<not> check_password H user (py_str old_password) then
              Respond (error_response ''Invalid username or old password'' 401)
            else if is_locked user (clk 0) then
              Respond (error_response ''Account is locked, cannot reset password right now'' 403)
            else
              Update user
                ((set_password H salt (py_str new_password) user)
                   \<lparr>failed_login_attempts := 0, lockout_until := None\<rparr>)
                (message_response ''Password reset successful'' 200))"

text \<open>The read part of any request, and the commit that ends it.\<close>

definition view :: "config \<Rightarrow> 's hasher \<Rightarrow> 's env \<Rightarrow> request \<Rightarrow> db \<Rightarrow> pending" where
  "view cfg H e rq table =
     (case rq of
        GET_root \<Rightarrow> Respond index
      | GET_login \<Rightarrow> Respond login_page
      | GET_register \<Rightarrow> Respond register_page
      | GET_reset \<Rightarrow> Respond reset_page
      | GET_users \<Rightarrow> Respond users_page
      | POST_api_register data \<Rightarrow> api_register_pending H (salt_of e) data table
      | POST_api_login data \<Rightarrow> api_login_pending cfg H (clock_of e) data table
      | GET_api_users \<Rightarrow> Respond (api_get_users (clock_of e) table)
      | POST_api_reset data \<Rightarrow> api_reset_pending H (salt_of e) (clock_of e) data table)"

text \<open>
  The commit on the table as it is when the commit runs. An \<^verbatim>\<open>INSERT\<close> that
  violates a constraint raises, Flask answers 500 and the table stays.
\<close>

definition finish :: "pending \<Rightarrow> db \<Rightarrow> response \<times> db" where
  "finish p table =
     (case p of
        Respond r \<Rightarrow> (r, table)
      | Update loaded obj r \<Rightarrow> (r, session_flush table loaded obj)
      | Insert new_user r \<Rightarrow>
          (case session_add_commit table new_user of
             Inl exn \<Rightarrow> (internal_server_error, table)
           | Inr table' \<Rightarrow> (r, table')))"

text \<open>The requests that have a commit to run: those that changed an object or added one.\<close>

definition writes :: "pending \<Rightarrow> bool" where
  "writes p = (case p of Respond r \<Rightarrow> False | _ \<Rightarrow> True)"

section \<open>Schedules\<close>

text \<open>
  The application while several requests are being served: the table, the
  requests that have read and not yet committed, and the responses sent so
  far, oldest first. Requests are named by numbers. \<open>Begin i e rq\<close> lets
  request \<open>i\<close> run up to its commit on the table as it is; \<open>Finish i\<close>
  commits it and sends its response. A start under a number in use and a
  commit of a request not in flight do nothing.
\<close>

datatype 's action = Begin nat "'s env" request | Finish nat

record cstate =
  table_of :: db
  in_flight :: "(nat \<times> pending) list"
  answered :: "(nat \<times> response) list"

definition start :: "db \<Rightarrow> cstate" where
  "start table = \<lparr>table_of = table, in_flight = [], answered = []\<rparr>"

definition cstep :: "config \<Rightarrow> 's hasher \<Rightarrow> 's action \<Rightarrow> cstate \<Rightarrow> cstate" where
  "cstep cfg H a s =
     (case a of
        Begin i e rq \<Rightarrow>
          if map_of (in_flight s) i \<noteq> None then s
          else s\<lparr>in_flight := in_flight s @ [(i, view cfg H e rq (table_of s))]\<rparr>
      | Finish i \<Rightarrow>
          (case map_of (in_flight s) i of
             None \<Rightarrow> s
           | Some p \<Rightarrow>
               (let (r, table') = finish p (table_of s) in
                s\<lparr>table_of := table', in_flight := AList.delete i (in_flight s),
                  answered := answered s @ [(i, r)]\<rparr>)))"

fun crun :: "config \<Rightarrow> 's hasher \<Rightarrow> 's action list \<Rightarrow> cstate \<Rightarrow> cstate" where
  "crun cfg H [] s = s"
| "crun cfg H (a # as) s = crun cfg H as (cstep cfg H a s)"

inductive creachable :: "config \<Rightarrow> 's hasher \<Rightarrow> cstate \<Rightarrow> bool" for cfg H where
  cinit: "creachable cfg H (start create_app)"
| cstep: "creachable cfg H s \<Longrightarrow> creachable cfg H (cstep cfg H a s)"

text \<open>
  The schedule that serves the requests \<open>evs\<close> one after the other, numbered
  from \<open>k\<close>.
\<close>

fun serial :: "nat \<Rightarrow> ('s env \<times> request) list \<Rightarrow> 's action list" where
  "serial k [] = []"
| "serial k (ev # evs) = Begin k (fst ev) (snd ev) # Finish k # serial (Suc k) evs"

section \<open>What every schedule keeps\<close>

text \<open>
  The part of the invariant that concurrent requests keep: the constraints of
  the table, non-empty user names and non-negative counters; and for the
  requests in flight, that their numbers differ and what they are about to
  write is of that kind too.
\<close>

definition row_wf :: "user \<Rightarrow> bool" where
  "row_wf u \<longleftrightarrow> username u \<noteq> [] \<and> 0 \<le> failed_login_attempts u"

definition pending_wf :: "pending \<Rightarrow> bool" where
  "pending_wf p =
     (case p of
        Respond r \<Rightarrow> True
      | Update loaded obj r \<Rightarrow> 0 \<le> failed_login_attempts obj
      | Insert new_user r \<Rightarrow> new_username new_user \<noteq> [])"

definition cstate_ok :: "cstate \<Rightarrow> bool" where
  "cstate_ok s \<longleftrightarrow>
     table_ok (table_of s) \<and> list_all row_wf (table_of s) \<and>
     distinct (map fst (in_flight s)) \<and> list_all (\<lambda>q. pending_wf (snd q)) (in_flight s)"

section \<open>A request that commits right after its read\<close>

lemma writes_simps [simp]:
  "\<not> writes (Respond r)" "writes (Update loaded obj r)" "writes (Insert new_user r)"
  by (simp_all add: writes_def)

lemma finish_simps [simp]:
  "finish (Respond r) table = (r, table)"
  "finish (Update loaded obj r) table = (r, session_flush table loaded obj)"
  by (simp_all add: finish_def)

lemma flush_row_loaded: "same_identity loaded obj \<Longrightarrow> flush_row loaded obj loaded = obj"
  by (simp add: flush_row_def same_identity_def)

lemma session_flush_serial:
  assumes "table_ok table" and "loaded \<in> set table" and "same_identity loaded obj"
  shows "session_flush table loaded obj = session_commit table obj"
proof -
  have "(if user_id r = user_id loaded then flush_row loaded obj r else r) =
        (if user_id r = user_id obj then obj else r)" if "r \<in> set table" for r
  proof (cases "user_id r = user_id loaded")
    case True
    with assms that have "r = loaded"
      by (auto simp: table_ok_def elim: distinct_key_eq)
    with assms(3) show ?thesis
      by (simp add: flush_row_loaded) (simp add: same_identity_def)
  next
    case False
    with assms(3) show ?thesis by (simp add: same_identity_def)
  qed
  then show ?thesis
    by (simp add: session_flush_def session_commit_def replace_by_def)
qed

lemma api_login_split:
  assumes "table_ok table"
  shows "finish (api_login_pending cfg H clk data table) table = api_login cfg H clk data table"
proof (cases "query_first_by_username table (py_str (data ''username''))")
  case None
  then show ?thesis by (simp add: api_login_pending_def api_login_def Let_def)
next
  case (Some u)
  then have "u \<in> set table" by (auto dest: query_first_SomeD)
  with assms have "session_flush table u obj = session_commit table obj"
    if "same_identity u obj" for obj
    using that by (rule session_flush_serial)
  with Some show ?thesis
    by (simp add: api_login_pending_def api_login_def Let_def)
qed

lemma api_reset_split:
  assumes "table_ok table"
  shows "finish (api_reset_pending H salt clk data table) table =
     api_reset_password H salt clk data table"
proof (cases "query_first_by_username table (py_str (data ''username''))")
  case None
  then show ?thesis by (simp add: api_reset_pending_def api_reset_password_def Let_def)
next
  case (Some u)
  then have "u \<in> set table" by (auto dest: query_first_SomeD)
  with assms have "session_flush table u obj = session_commit table obj"
    if "same_identity u obj" for obj
    using that by (rule session_flush_serial)
  with Some show ?thesis
    by (simp add: api_reset_pending_def api_reset_password_def Let_def)
qed

lemma api_register_split:
  "finish (api_register_pending H salt data table) table =
     (case api_register H salt data table of
        Inl exn \<Rightarrow> (internal_server_error, table) | Inr res \<Rightarrow> res)"
  by (simp add: api_register_pending_def api_register_def finish_def Let_def split: sum.split)

lemma finish_view:
  "table_ok table \<Longrightarrow> finish (view cfg H e rq table) table = handle cfg H e rq table"
  by (cases rq) (simp_all add: view_def handle_def api_login_split api_reset_split
      api_register_split)

section \<open>Steps and runs\<close>

lemma delete_append [simp]:
  "AList.delete k (xs @ ys) = AList.delete k xs @ AList.delete k ys"
  by (simp add: AList.delete_eq)

lemma delete_fresh: "k \<notin> fst ` set xs \<Longrightarrow> AList.delete k xs = xs"
  by (induction xs) auto

lemma map_add_single_fresh [simp]: "m k = None \<Longrightarrow> ([k \<mapsto> v] ++ m) k = Some v"
  by (simp add: map_add_def)

lemma map_add_single_other [simp]: "k' \<noteq> k \<Longrightarrow> ([k \<mapsto> v] ++ m) k' = m k'"
  by (simp add: map_add_def split: option.split)

lemma cstep_Begin:
  "map_of (in_flight s) i = None \<Longrightarrow>
   cstep cfg H (Begin i e rq) s =
     s\<lparr>in_flight := in_flight s @ [(i, view cfg H e rq (table_of s))]\<rparr>"
  by (simp add: cstep_def)

lemma cstep_Begin_used:
  "map_of (in_flight s) i = Some p \<Longrightarrow> cstep cfg H (Begin i e rq) s = s"
  by (simp add: cstep_def)

lemma cstep_Finish:
  "map_of (in_flight s) i = Some p \<Longrightarrow>
   cstep cfg H (Finish i) s =
     s\<lparr>table_of := snd (finish p (table_of s)), in_flight := AList.delete i (in_flight s),
       answered := answered s @ [(i, fst (finish p (table_of s)))]\<rparr>"
  by (simp add: cstep_def split_beta)

lemma cstep_Finish_idle:
  "map_of (in_flight s) i = None \<Longrightarrow> cstep cfg H (Finish i) s = s"
  by (simp add: cstep_def)

lemmas cstep_simps = cstep_Begin cstep_Begin_used cstep_Finish cstep_Finish_idle

text \<open>
  The three kinds of step: a request begins, a request commits, or the
  action names a number in use or a request not in flight and does nothing.
\<close>

lemma cstep_cases [case_names begins commits nothing]:
  obtains
    (begins) i e rq where "a = Begin i e rq" "map_of (in_flight s) i = None"
      "cstep cfg H a s = s\<lparr>in_flight := in_flight s @ [(i, view cfg H e rq (table_of s))]\<rparr>"
  | (commits) i p where "a = Finish i" "map_of (in_flight s) i = Some p"
      "cstep cfg H a s =
         s\<lparr>table_of := snd (finish p (table_of s)), in_flight := AList.delete i (in_flight s),
           answered := answered s @ [(i, fst (finish p (table_of s)))]\<rparr>"
  | (nothing) "cstep cfg H a s = s"
      "\<And>i e rq. a = Begin i e rq \<Longrightarrow> map_of (in_flight s) i \<noteq> None"
  by (cases a; cases "map_of (in_flight s) (case a of Begin i e rq \<Rightarrow> i | Finish i \<Rightarrow> i)")
    (auto simp: cstep_simps)

lemma start_sel [simp]:
  "table_of (start table) = table" "in_flight (start table) = []" "answered (start table) = []"
  by (simp_all add: start_def)

lemma crun_append: "crun cfg H (as @ bs) s = crun cfg H bs (crun cfg H as s)"
  by (induction as arbitrary: s) simp_all

lemma creachable_crun: "creachable cfg H s \<Longrightarrow> creachable cfg H (crun cfg H as s)"
  by (induction as arbitrary: s) (simp_all add: creachable.cstep)

lemma creachable_iff_crun:
  "creachable cfg H s \<longleftrightarrow> (\<exists>as. s = crun cfg H as (start create_app))"
proof
  assume "creachable cfg H s"
  then show "\<exists>as. s = crun cfg H as (start create_app)"
  proof induction
    case cinit
    have "start create_app = crun cfg H [] (start create_app)" by simp
    then show ?case by blast
  next
    case (cstep s a)
    then obtain as where "s = crun cfg H as (start create_app)" by blast
    then have "cstep cfg H a s = crun cfg H (as @ [a]) (start create_app)"
      by (simp add: crun_append)
    then show ?case by blast
  qed
next
  assume "\<exists>as. s = crun cfg H as (start create_app)"
  then show "creachable cfg H s"
    by (auto intro: creachable_crun creachable.cinit)
qed

text \<open>
  A request that commits right after its read is served as by the
  sequential dispatch.
\<close>

lemma serial_step:
  assumes "table_ok (table_of s)" and "map_of (in_flight s) i = None"
  shows "crun cfg H [Begin i e rq, Finish i] s =
     s\<lparr>table_of := snd (handle cfg H e rq (table_of s)),
       answered := answered s @ [(i, fst (handle cfg H e rq (table_of s)))]\<rparr>"
proof -
  have "i \<notin> fst ` set (in_flight s)"
    using assms(2) by (simp add: map_of_eq_None_iff)
  then have "AList.delete i (in_flight s @ [(i, p)]) = in_flight s" for p
    by simp
  with assms show ?thesis
    by (simp add: cstep_Begin cstep_Finish [where p = "view cfg H e rq (table_of s)"]
        finish_view)
qed

section \<open>The write on a table that has moved on\<close>

lemma flush_row_sel [simp]:
  "user_id (flush_row loaded obj row) = user_id row"
  "username (flush_row loaded obj row) = username row"
  "password_hash (flush_row loaded obj row) =
     (if password_hash obj = password_hash loaded then password_hash row else password_hash obj)"
  "failed_login_attempts (flush_row loaded obj row) =
     (if failed_login_attempts obj = failed_login_attempts loaded
      then failed_login_attempts row else failed_login_attempts obj)"
  "lockout_until (flush_row loaded obj row) =
     (if lockout_until obj = lockout_until loaded then lockout_until row else lockout_until obj)"
  by (simp_all add: flush_row_def)

lemma session_flush_keys [simp]:
  "map user_id (session_flush table loaded obj) = map user_id table"
  "map username (session_flush table loaded obj) = map username table"
  "length (session_flush table loaded obj) = length table"
  by (simp_all add: session_flush_def)

lemma session_flush_table_ok:
  "table_ok table \<Longrightarrow> table_ok (session_flush table loaded obj)"
  by (simp add: table_ok_def) (auto simp: session_flush_def list_all_iff)

text \<open>
  The write lands on the row that holds the key now: it is the write-back of
  that row with the assigned columns changed.
\<close>

lemma session_flush_row:
  assumes "table_ok table" and "r \<in> set table" and "user_id r = user_id loaded"
  shows "session_flush table loaded obj = session_commit table (flush_row loaded obj r)"
proof -
  have "(if user_id x = user_id loaded then flush_row loaded obj x else x) =
        (if user_id x = user_id (flush_row loaded obj r) then flush_row loaded obj r else x)"
    if "x \<in> set table" for x
  proof (cases "user_id x = user_id loaded")
    case True
    with assms that have "x = r"
      by (auto simp: table_ok_def elim: distinct_key_eq)
    with assms(3) show ?thesis by simp
  next
    case False
    with assms(3) show ?thesis by simp
  qed
  then show ?thesis
    by (simp add: session_flush_def session_commit_def replace_by_def)
qed

lemma query_first_session_flush:
  assumes "table_ok table" and "r \<in> set table" and "user_id r = user_id loaded"
  shows "query_first_by_username (session_flush table loaded obj) name =
     (if name = username r then Some (flush_row loaded obj r)
      else query_first_by_username table name)"
  using assms by (simp add: session_flush_row [where r = r] query_first_session_commit [where u = r])

lemma session_flush_row_wf:
  "list_all row_wf table \<Longrightarrow> 0 \<le> failed_login_attempts obj \<Longrightarrow>
   list_all row_wf (session_flush table loaded obj)"
  by (auto simp: session_flush_def list_all_iff row_wf_def)

section \<open>The invariant of schedules\<close>

lemma pending_wf_simps [simp]:
  "pending_wf (Respond r)"
  "pending_wf (Update loaded obj r) \<longleftrightarrow> 0 \<le> failed_login_attempts obj"
  "pending_wf (Insert new_user r) \<longleftrightarrow> new_username new_user \<noteq> []"
  by (simp_all add: pending_wf_def)

lemma row_wf_query_first:
  "list_all row_wf table \<Longrightarrow> query_first_by_username table name = Some u \<Longrightarrow>
   0 \<le> failed_login_attempts u"
  by (auto simp: list_all_iff row_wf_def dest: query_first_SomeD)

lemma view_wf:
  assumes "list_all row_wf table"
  shows "pending_wf (view cfg H e rq table)"
proof (cases rq)
  case (POST_api_register data)
  then show ?thesis
    by (auto simp: view_def api_register_pending_def Let_def dest: py_str_nonempty)
next
  case (POST_api_login data)
  with assms show ?thesis
    by (auto simp: view_def api_login_pending_def Let_def split: option.split
        dest: row_wf_query_first)
next
  case (POST_api_reset data)
  then show ?thesis
    by (simp add: view_def api_reset_pending_def Let_def split: option.split)
qed (simp_all add: view_def)

lemma finish_table_ok: "table_ok table \<Longrightarrow> table_ok (snd (finish p table))"
  by (cases p)
    (auto simp: finish_def session_flush_table_ok split: sum.split
      intro: session_add_commit_table_ok)

lemma finish_row_wf:
  assumes "list_all row_wf table" and "pending_wf p"
  shows "list_all row_wf (snd (finish p table))"
proof (cases p)
  case (Insert new_user r)
  with assms show ?thesis
    by (auto simp: finish_def session_add_commit_Inr_iff row_wf_def split: sum.split)
qed (use assms in \<open>simp_all add: session_flush_row_wf\<close>)

lemma cstate_ok_start [simp]: "cstate_ok (start table) \<longleftrightarrow> table_ok table \<and> list_all row_wf table"
  by (simp add: cstate_ok_def)

lemma cstep_ok:
  assumes "cstate_ok s"
  shows "cstate_ok (cstep cfg H a s)"
proof (cases rule: cstep_cases [of a s cfg H])
  case (begins i e rq)
  then have "i \<notin> fst ` set (in_flight s)" by (simp add: map_of_eq_None_iff)
  with assms begins show ?thesis by (simp add: cstate_ok_def view_wf)
next
  case (commits i p)
  then have "(i, p) \<in> set (in_flight s)" by (intro map_of_SomeD)
  with assms have "pending_wf p" by (auto simp: cstate_ok_def list_all_iff)
  with assms commits show ?thesis
    by (simp add: cstate_ok_def finish_table_ok finish_row_wf AList.distinct_delete)
      (auto simp: list_all_iff AList.delete_eq)
next
  case nothing
  with assms show ?thesis by simp
qed

lemma crun_ok: "cstate_ok s \<Longrightarrow> cstate_ok (crun cfg H as s)"
  by (induction as arbitrary: s) (simp_all add: cstep_ok)

section \<open>Serial schedules\<close>

lemma serial_run:
  assumes "table_ok (table_of s)" and "\<forall>j\<ge>k. map_of (in_flight s) j = None"
  shows "crun cfg H (serial k evs) s =
     s\<lparr>table_of := snd (run cfg H evs (table_of s)),
       answered := answered s @ zip [k..<k + length evs] (fst (run cfg H evs (table_of s)))\<rparr>"
  using assms
proof (induction evs arbitrary: k s)
  case Nil
  then show ?case by simp
next
  case (Cons ev evs)
  let ?s = "s\<lparr>table_of := snd (handle cfg H (fst ev) (snd ev) (table_of s)),
      answered := answered s @ [(k, fst (handle cfg H (fst ev) (snd ev) (table_of s)))]\<rparr>"
  from Cons.prems have "crun cfg H [Begin k (fst ev) (snd ev), Finish k] s = ?s"
    by (intro serial_step) simp_all
  then have "crun cfg H (serial k (ev # evs)) s = crun cfg H (serial (Suc k) evs) ?s"
    by simp
  also have "\<dots> = ?s\<lparr>table_of := snd (run cfg H evs (table_of ?s)),
       answered := answered ?s @
         zip [Suc k..<Suc k + length evs] (fst (run cfg H evs (table_of ?s)))\<rparr>"
    using Cons.prems by (intro Cons.IH) (simp_all add: handle_table_ok)
  finally show ?case
    by (simp add: run_Cons upt_conv_Cons del: upt_Suc)
qed

text \<open>
  Serving requests one after the other is one of the schedules:
  when every request commits before the next one reads, the table and the
  responses are those of the sequential run of \<^verbatim>\<open>src/app.py\<close>'s views, and
  no request is left in flight.
\<close>

lemma serial_is_run:
  assumes "table_ok table"
  shows "crun cfg H (serial 0 evs) (start table) =
     \<lparr>table_of = snd (run cfg H evs table), in_flight = [],
      answered = zip [0..<length evs] (fst (run cfg H evs table))\<rparr>"
  using serial_run [of "start table" 0 cfg H evs] assms by (simp add: start_def)

lemma serial_is_run_example:
  "table_ok [alice, bob] \<and>
   crun cfg0 ref_hasher
     (serial 0 [(at_time 5, POST_api_login (credentials ''alice'' ''no'')), (at_time 6, GET_root)])
     (start [alice, bob]) =
   \<lparr>table_of = [alice\<lparr>failed_login_attempts := 1\<rparr>, bob], in_flight = [],
    answered = [(0, error_response ''Invalid credentials'' 401), (1, index)]\<rparr>"
  using serial_is_run [of "[alice, bob]" cfg0 ref_hasher
      "[(at_time 5, POST_api_login (credentials ''alice'' ''no'')), (at_time 6, GET_root)]"]
  by (simp add: run_Cons upt_conv_Cons api_login_wrong [where name = "''alice''" and u = alice])

section \<open>The invariant of reachable states\<close>

text \<open>
  Claim C22. Whatever the schedule, the table keeps its constraints (unique
  positive keys, unique user names), user names stay non-empty and failure
  counters non-negative, and the requests in flight have distinct numbers
  and are about to write rows of that kind.
\<close>
theorem creachable_ok:
  assumes "creachable cfg H s"
  shows "cstate_ok s"
  using assms by induction (simp_all add: create_app_def table_ok_def cstep_ok)

theorem creachable_ok_witness:
  "creachable cfg0 ref_hasher
     (crun cfg0 ref_hasher
        [Begin 0 (at_time 0) (POST_api_register (credentials ''alice'' ''p1'')),
         Begin 1 (at_time 0) (POST_api_register (credentials ''alice'' ''p2'')),
         Finish 1, Finish 0] (start create_app)) \<and>
   cstate_ok
     (crun cfg0 ref_hasher
        [Begin 0 (at_time 0) (POST_api_register (credentials ''alice'' ''p1'')),
         Begin 1 (at_time 0) (POST_api_register (credentials ''alice'' ''p2'')),
         Finish 1, Finish 0] (start create_app))"
  using creachable_ok [OF creachable_crun [OF creachable.cinit], of cfg0 ref_hasher]
    creachable_crun [OF creachable.cinit, of cfg0 ref_hasher]
  by blast

end
