(* ===== verification/Overlapping_Requests.thy ===== *)
theory Overlapping_Requests
  imports Concurrency
begin

text \<open>
  Schedules in which requests overlap, run on the model of the theory
  \<open>Concurrency\<close>: two requests that both read before either commits, and
  bursts in which every request reads before the first commits. The
  theorems show that in every schedule a response is fixed when the request
  reads, what is lost when the requests are about one account (failed
  logins that are counted once, a lockout that a successful login does not
  clear, a registration answered 500, a lockout that caps nothing within a
  burst), and when overlapping requests are served as if one after the
  other, as requests about different accounts are.
\<close>

section \<open>Schedules with overlap\<close>

text \<open>
  Two requests of which both read before either commits; the first to read
  is the first to commit.
\<close>

definition overlapped ::
    "nat \<Rightarrow> 's env \<Rightarrow> request \<Rightarrow> nat \<Rightarrow> 's env \<Rightarrow> request \<Rightarrow> 's action list" where
  "overlapped i e1 rq1 j e2 rq2 = [Begin i e1 rq1, Begin j e2 rq2, Finish i, Finish j]"

text \<open>
  A burst: all its requests read before the first of them commits. And the
  response a request has fixed by its read, if it has: only an insert can
  still fail.
\<close>

definition burst :: "(nat \<times> 's env \<times> request) list \<Rightarrow> 's action list" where
  "burst reqs =
     map (\<lambda>(i, e, rq). Begin i e rq) reqs @ map Finish (map fst reqs)"

text \<open>
  The burst of logins that try the passwords \<open>tries\<close> on one account.
\<close>

definition guesses ::
    "string \<Rightarrow> (nat \<times> 's env \<times> string) list \<Rightarrow> (nat \<times> 's env \<times> request) list" where
  "guesses name tries = map (\<lambda>(i, e, p). (i, e, POST_api_login (credentials name p))) tries"

fun response_of :: "pending \<Rightarrow> response option" where
  "response_of (Respond r) = Some r"
| "response_of (Update loaded obj r) = Some r"
| "response_of (Insert new_user r) = None"

text \<open>
  The user name a request is about: the one its view looks up. The pages
  look nothing up, and the listing reads every row.
\<close>

definition target :: "request \<Rightarrow> string option" where
  "target rq =
     (case rq of
        POST_api_register data \<Rightarrow> Some (py_str (data ''username''))
      | POST_api_login data \<Rightarrow> Some (py_str (data ''username''))
      | POST_api_reset data \<Rightarrow> Some (py_str (data ''username''))
      | _ \<Rightarrow> None)"

section \<open>Two overlapping requests\<close>

lemma crun_overlapped:
  assumes "i \<noteq> j"
  shows "crun cfg H (overlapped i e1 rq1 j e2 rq2) (start table) =
     \<lparr>table_of = snd (finish (view cfg H e2 rq2 table) (snd (finish (view cfg H e1 rq1 table) table))),
      in_flight = [],
      answered =
        [(i, fst (finish (view cfg H e1 rq1 table) table)),
         (j, fst (finish (view cfg H e2 rq2 table)
                (snd (finish (view cfg H e1 rq1 table) table))))]\<rparr>"
  using assms
  by (simp add: overlapped_def cstep_Begin
      cstep_Finish [where p = "view cfg H e1 rq1 table"]
      cstep_Finish [where p = "view cfg H e2 rq2 table"] start_def)

lemma api_login_pending_valid:
  "has_credentials data name password \<Longrightarrow>
   api_login_pending cfg H clk data table =
     (case query_first_by_username table name of
        None \<Rightarrow> Respond (error_response ''Invalid credentials'' 401)
      | Some user \<Rightarrow>
          if is_locked user (clk 0) then Respond (locked_response user)
          else if \<not> check_password H user password then
            (if LOCKOUT_ATTEMPTS cfg \<le> failed_login_attempts user + 1 then
               Update user
                 (user\<lparr>failed_login_attempts := failed_login_attempts user + 1,
                       lockout_until := Some (clk 1 + lockout_duration cfg)\<rparr>)
                 (error_response ''Account locked due to too many failed attempts'' 403)
             else
               Update user (user\<lparr>failed_login_attempts := failed_login_attempts user + 1\<rparr>)
                 (error_response ''Invalid credentials'' 401))
          else
            Update user (user\<lparr>failed_login_attempts := 0, lockout_until := None\<rparr>)
              (message_response ''Login successful'' 200))"
  by (simp add: api_login_pending_def has_credentials_def Let_def split: option.split)

lemma api_register_pending_valid:
  "has_credentials data name password \<Longrightarrow>
   api_register_pending H salt data table =
     (if query_first_by_username table name \<noteq> None
      then Respond (error_response ''Username already exists'' 409)
      else Insert \<lparr>new_username = name,
                   new_password_hash = Some (generate_password_hash H salt password)\<rparr>
             (message_response (''User '' @ name @ '' registered successfully'') 201))"
  by (simp add: api_register_pending_def has_credentials_def Let_def User_init_def
      set_password_new_def)

lemma api_reset_pending_valid:
  "has_reset_fields data name old_password new_password \<Longrightarrow>
   api_reset_pending H salt clk data table =
     (case query_first_by_username table name of
        None \<Rightarrow> Respond (error_response ''Invalid username or old password'' 401)
      | Some user \<Rightarrow>
          if \<not> check_password H user old_password then
            Respond (error_response ''Invalid username or old password'' 401)
          else if is_locked user (clk 0) then
            Respond (error_response ''Account is locked, cannot reset password right now'' 403)
          else
            Update user
              ((set_password H salt new_password user)
                 \<lparr>failed_login_attempts := 0, lockout_until := None\<rparr>)
              (message_response ''Password reset successful'' 200))"
  by (simp add: api_reset_pending_def has_reset_fields_def Let_def split: option.split)

text \<open>
  Two writes computed from the same loaded row \<open>u\<close>: the second lands on
  what the first left.
\<close>

lemma query_first_two_flushes:
  assumes "table_ok table" and "query_first_by_username table name = Some u"
  shows "query_first_by_username (session_flush (session_flush table u obj1) u obj2) name =
     Some (flush_row u obj2 (flush_row u obj1 u))"
proof -
  from assms(2) have u: "u \<in> set table" "username u = name"
    by (auto dest: query_first_SomeD)
  let ?t = "session_flush table u obj1" and ?r = "flush_row u obj1 u"
  from assms(1) u have "query_first_by_username ?t name = Some ?r"
    by (simp add: query_first_session_flush [where r = u])
  then have "?r \<in> set ?t" by (auto dest: query_first_SomeD)
  moreover from assms(1) have "table_ok ?t" by (rule session_flush_table_ok)
  ultimately show ?thesis
    using u(2) by (simp add: query_first_session_flush [where r = ?r])
qed

text \<open>
  Two logins with wrong passwords for the same account that both
  read the row before either commits raise the failure counter by one, not
  by two: both compute the new counter from the value they read, and the
  second write repeats the first.
\<close>
lemma lost_update:
  assumes "table_ok table" and "query_first_by_username table name = Some u"
    and "name \<noteq> []" and "p1 \<noteq> []" and "p2 \<noteq> []"
    and "\<not> is_locked u (clock_of e1 0)" and "\<not> is_locked u (clock_of e2 0)"
    and "\<not> check_password H u p1" and "\<not> check_password H u p2"
    and "failed_login_attempts u + 1 < LOCKOUT_ATTEMPTS cfg" and "i \<noteq> j"
  shows "query_first_by_username
           (table_of (crun cfg H
              (overlapped i e1 (POST_api_login (credentials name p1))
                          j e2 (POST_api_login (credentials name p2))) (start table))) name =
         Some (u\<lparr>failed_login_attempts := failed_login_attempts u + 1\<rparr>)"
proof -
  let ?u1 = "u\<lparr>failed_login_attempts := failed_login_attempts u + 1\<rparr>"
  have "view cfg H e (POST_api_login (credentials name p)) table =
      Update u ?u1 (error_response ''Invalid credentials'' 401)"
    if "p \<noteq> []" "\<not> is_locked u (clock_of e 0)" "\<not> check_password H u p" for e p
    using that assms(2,3,10)
    by (simp add: view_def api_login_pending_valid [where name = name and password = p])
  with assms show ?thesis
    by (simp add: crun_overlapped query_first_two_flushes flush_row_def)
qed

lemma lost_update_example:
  "query_first_by_username
     (table_of (crun cfg0 ref_hasher
        (overlapped 0 (at_time 5) (POST_api_login (credentials ''alice'' ''guess1''))
                    1 (at_time 6) (POST_api_login (credentials ''alice'' ''guess2'')))
        (start [alice, bob]))) ''alice'' =
   Some (alice\<lparr>failed_login_attempts := 1\<rparr>)"
  using lost_update [where table = "[alice, bob]" and name = "''alice''" and u = alice
      and ?p1.0 = "''guess1''" and ?p2.0 = "''guess2''" and ?e1.0 = "at_time 5"
      and ?e2.0 = "at_time 6" and H = ref_hasher and cfg = cfg0 and i = 0 and j = 1]
  by simp


text \<open>
  Claim C25. A login with the right password that overlaps a login with a
  wrong password which reaches the threshold is answered 200, and leaves the
  account locked with a zero counter when the other request commits first:
  the successful login writes the counter only, since it read no lockout to
  clear. No sequential run produces such a row.
\<close>
theorem stale_success_keeps_lock:
  assumes "table_ok table" and "query_first_by_username table name = Some u"
    and "name \<noteq> []" and "p1 \<noteq> []" and "p2 \<noteq> []"
    and "lockout_until u = None" and "0 < failed_login_attempts u"
    and "\<not> check_password H u p1" and "check_password H u p2"
    and "LOCKOUT_ATTEMPTS cfg \<le> failed_login_attempts u + 1" and "i \<noteq> j"
    and "s = crun cfg H (overlapped i e1 (POST_api_login (credentials name p1))
                                    j e2 (POST_api_login (credentials name p2))) (start table)"
  shows "query_first_by_username (table_of s) name =
           Some (u\<lparr>failed_login_attempts := 0,
                   lockout_until := Some (clock_of e1 1 + lockout_duration cfg)\<rparr>) \<and>
         map_of (answered s) j = Some (message_response ''Login successful'' 200) \<and>
         (config_ok cfg \<longrightarrow> \<not> db_ok cfg (table_of s))"
proof -
  have "view cfg H e1 (POST_api_login (credentials name p1)) table =
      Update u (u\<lparr>failed_login_attempts := failed_login_attempts u + 1,
                  lockout_until := Some (clock_of e1 1 + lockout_duration cfg)\<rparr>)
        (error_response ''Account locked due to too many failed attempts'' 403)"
    using assms
    by (simp add: view_def api_login_pending_valid [where name = name and password = p1]
        is_locked_def)
  moreover have "view cfg H e2 (POST_api_login (credentials name p2)) table =
      Update u (u\<lparr>failed_login_attempts := 0, lockout_until := None\<rparr>)
        (message_response ''Login successful'' 200)"
    using assms
    by (simp add: view_def api_login_pending_valid [where name = name and password = p2]
        is_locked_def)
  ultimately have row: "query_first_by_username (table_of s) name =
      Some (u\<lparr>failed_login_attempts := 0,
              lockout_until := Some (clock_of e1 1 + lockout_duration cfg)\<rparr>)"
    and answer: "map_of (answered s) j = Some (message_response ''Login successful'' 200)"
    using assms by (simp_all add: crun_overlapped query_first_two_flushes flush_row_def)
  from row have "\<not> db_ok cfg (table_of s)" if "config_ok cfg"
    using that by (auto dest!: db_ok_query_first simp: row_ok_def config_ok_def)
  with row answer show ?thesis by simp
qed

theorem stale_success_keeps_lock_witness:
  "query_first_by_username
     (table_of (crun cfg0 ref_hasher
        (overlapped 0 (at_time 5) (POST_api_login (credentials ''alice'' ''guess''))
                    1 (at_time 6) (POST_api_login (credentials ''alice'' ''p1'')))
        (start [alice_failed 2, bob]))) ''alice'' =
   Some ((alice_failed 2)\<lparr>failed_login_attempts := 0, lockout_until := Some 120000005\<rparr>) \<and>
   db_ok cfg0 [alice_failed 2, bob] \<and>
   \<not> db_ok cfg0
     (table_of (crun cfg0 ref_hasher
        (overlapped 0 (at_time 5) (POST_api_login (credentials ''alice'' ''guess''))
                    1 (at_time 6) (POST_api_login (credentials ''alice'' ''p1'')))
        (start [alice_failed 2, bob])))"
  using stale_success_keeps_lock [where table = "[alice_failed 2, bob]" and name = "''alice''"
      and u = "alice_failed 2" and ?p1.0 = "''guess''" and ?p2.0 = "''p1''"
      and ?e1.0 = "at_time 5" and ?e2.0 = "at_time 6" and H = ref_hasher and cfg = cfg0
      and i = 0 and j = 1, OF _ _ _ _ _ _ _ _ _ _ _ refl]
  by simp

text \<open>
  Claim C26. Two registrations of the same new user name that both look the
  name up before either inserts: the first to commit is answered 201 and
  its row is added; the insert of the second violates the unique constraint,
  the exception escapes the view and the answer is 500.
\<close>
theorem overlapped_register:
  assumes "query_first_by_username table name = None"
    and "name \<noteq> []" and "p1 \<noteq> []" and "p2 \<noteq> []" and "i \<noteq> j"
  shows "crun cfg H
           (overlapped i e1 (POST_api_register (credentials name p1))
                       j e2 (POST_api_register (credentials name p2))) (start table) =
         \<lparr>table_of = table @ [registered_row H (salt_of e1) name p1 table], in_flight = [],
          answered = [(i, message_response (''User '' @ name @ '' registered successfully'') 201),
                      (j, internal_server_error)]\<rparr>"
  using assms
  by (simp add: crun_overlapped view_def finish_def session_add_commit_def registered_row_def
      api_register_pending_valid [where name = name and password = p1]
      api_register_pending_valid [where name = name and password = p2]
      query_first_by_username_def first_by_append)

theorem overlapped_register_witness:
  "map (\<lambda>q. status (snd q)) (answered (crun cfg0 ref_hasher
     (overlapped 0 (at_time 0) (POST_api_register (credentials ''carol'' ''pw1''))
                 1 (at_time 0) (POST_api_register (credentials ''carol'' ''pw2'')))
     (start [alice, bob]))) = [201, 500]"
  using overlapped_register [where table = "[alice, bob]" and name = "''carol''"
      and ?p1.0 = "''pw1''" and ?p2.0 = "''pw2''" and ?e1.0 = "at_time 0"
      and ?e2.0 = "at_time 0" and H = ref_hasher and cfg = cfg0 and i = 0 and j = 1]
  by (simp add: internal_server_error_def)

section \<open>Bursts of requests\<close>

lemma response_of_finish: "response_of p = Some r \<Longrightarrow> fst (finish p table) = r"
  by (cases p) simp_all

text \<open>
  The response of a login is fixed when it has read: it is the response of
  the sequential handler on the table the request read, whatever the table
  holds when the request commits.
\<close>

lemma response_of_login:
  "response_of (api_login_pending cfg H clk data table) =
     Some (fst (api_login cfg H clk data table))"
  by (simp add: api_login_pending_def api_login_def Let_def split: option.split)

lemma response_of_reset:
  "response_of (api_reset_pending H salt clk data table) =
     Some (fst (api_reset_password H salt clk data table))"
  by (simp add: api_reset_pending_def api_reset_password_def Let_def split: option.split)

lemma response_of_view:
  assumes "\<And>data. rq \<noteq> POST_api_register data"
  shows "response_of (view cfg H e rq table) = Some (fst (handle cfg H e rq table))"
  using assms by (cases rq) (auto simp: view_def response_of_login response_of_reset)

lemma crun_Begins:
  assumes "distinct (map fst reqs)"
    and "\<forall>k\<in>set (map fst reqs). map_of (in_flight s) k = None"
  shows "crun cfg H (map (\<lambda>(i, e, rq). Begin i e rq) reqs) s =
     s\<lparr>in_flight := in_flight s @ map (\<lambda>(i, e, rq). (i, view cfg H e rq (table_of s))) reqs\<rparr>"
  using assms
proof (induction reqs arbitrary: s)
  case Nil
  then show ?case by simp
next
  case (Cons q reqs)
  obtain i e rq where q: "q = (i, e, rq)" by (cases q)
  let ?s = "s\<lparr>in_flight := in_flight s @ [(i, view cfg H e rq (table_of s))]\<rparr>"
  from Cons.prems q have "cstep cfg H (Begin i e rq) s = ?s"
    by (simp add: cstep_Begin)
  moreover from Cons.prems q
  have "crun cfg H (map (\<lambda>(i, e, rq). Begin i e rq) reqs) ?s =
      ?s\<lparr>in_flight := in_flight ?s @
         map (\<lambda>(i, e, rq). (i, view cfg H e rq (table_of ?s))) reqs\<rparr>"
    by (intro Cons.IH) (auto simp: image_iff)
  ultimately show ?case using q by simp
qed

lemma answered_stays:
  "map_of (answered s) i = Some r \<Longrightarrow> map_of (answered (crun cfg H as s)) i = Some r"
proof (induction as arbitrary: s)
  case Nil
  then show ?case by simp
next
  case (Cons a as)
  from Cons.prems have "map_of (answered (cstep cfg H a s)) i = Some r"
    by (cases a) (auto simp: cstep_def split_beta map_add_def split: option.split)
  then show ?case by (simp add: Cons.IH)
qed

text \<open>
  A request in flight whose response is fixed gets that response when it
  commits, whatever else the schedule does before.
\<close>

lemma crun_answers:
  assumes "map_of (in_flight s) i = Some p" and "response_of p = Some r"
    and "map_of (answered s) i = None" and "Finish i \<in> set as"
  shows "map_of (answered (crun cfg H as s)) i = Some r"
  using assms
proof (induction as arbitrary: s)
  case Nil
  then show ?case by simp
next
  case (Cons a as)
  show ?case
  proof (cases "a = Finish i")
    case True
    with Cons.prems have "map_of (answered (cstep cfg H a s)) i = Some r"
      by (simp add: cstep_Finish [where p = p] response_of_finish)
    then show ?thesis by (simp add: answered_stays)
  next
    case False
    with Cons.prems have "map_of (in_flight (cstep cfg H a s)) i = Some p"
      and "map_of (answered (cstep cfg H a s)) i = None"
      by (cases a; auto simp: cstep_def split_beta split: option.split)+
    with Cons.prems False show ?thesis by (simp add: Cons.IH)
  qed
qed

text \<open>
  In every schedule a request other than a registration is answered with
  what the sequential handler answers on the table the request read: its
  response is fixed at the read, its write lands at the commit.
\<close>

lemma answer_fixed_at_read:
  assumes "map_of (in_flight s) i = None" and "map_of (answered s) i = None"
    and "\<And>data. rq \<noteq> POST_api_register data" and "Finish i \<in> set as"
  shows "map_of (answered (crun cfg H (Begin i e rq # as) s)) i =
     Some (fst (handle cfg H e rq (table_of s)))"
proof -
  let ?s = "cstep cfg H (Begin i e rq) s"
  from assms(1) have "map_of (in_flight ?s) i = Some (view cfg H e rq (table_of s))"
    by (simp add: cstep_Begin)
  moreover from assms(3)
  have "response_of (view cfg H e rq (table_of s)) = Some (fst (handle cfg H e rq (table_of s)))"
    by (rule response_of_view)
  moreover from assms(1,2) have "map_of (answered ?s) i = None" by (simp add: cstep_Begin)
  ultimately have "map_of (answered (crun cfg H as ?s)) i =
      Some (fst (handle cfg H e rq (table_of s)))"
    using assms(4) by (rule crun_answers)
  then show ?thesis by simp
qed

text \<open>
  Claim C24. In a burst of requests that all read before the first of them
  commits, every login is answered as if it were alone on the table the
  burst found: its password is checked against the row it read, however
  many failed attempts the other requests of the burst are about to record.
  The lockout threshold does not limit the number of passwords tried in one
  burst.
\<close>
theorem burst_login_answers:
  assumes "distinct (map fst reqs)" and "(i, e, POST_api_login data) \<in> set reqs"
  shows "map_of (answered (crun cfg H (burst reqs) (start table))) i =
           Some (fst (api_login cfg H (clock_of e) data table))"
proof -
  let ?fl = "map (\<lambda>(i, e, rq). (i, view cfg H e rq table)) reqs"
  let ?s = "\<lparr>table_of = table, in_flight = ?fl, answered = []\<rparr>"
  have begins: "crun cfg H (map (\<lambda>(i, e, rq). Begin i e rq) reqs) (start table) = ?s"
    using assms(1) by (simp add: crun_Begins start_def)
  have "map fst ?fl = map fst reqs" by (simp add: split_beta)
  with assms(1) have "distinct (map fst ?fl)" by (simp only:)
  moreover from assms(2) have "(i, view cfg H e (POST_api_login data) table) \<in> set ?fl"
    by force
  ultimately have "map_of ?fl i = Some (view cfg H e (POST_api_login data) table)"
    by (rule map_of_is_SomeI)
  then have fl: "map_of (in_flight ?s) i =
      Some (api_login_pending cfg H (clock_of e) data table)"
    by (simp add: view_def)
  from assms(2) have mem: "Finish i \<in> set (map Finish (map fst reqs))" by force
  have "map_of (answered (crun cfg H (map Finish (map fst reqs)) ?s)) i =
      Some (fst (api_login cfg H (clock_of e) data table))"
    by (rule crun_answers [OF fl response_of_login _ mem]) simp
  then show ?thesis
    by (simp only: burst_def crun_append begins)
qed

theorem burst_login_answers_witness:
  "LOCKOUT_ATTEMPTS cfg0 = 3 \<and>
   map_of (answered (crun cfg0 ref_hasher
     (burst [(0, at_time 5, POST_api_login (credentials ''alice'' ''guess0'')),
             (1, at_time 5, POST_api_login (credentials ''alice'' ''guess1'')),
             (2, at_time 5, POST_api_login (credentials ''alice'' ''guess2'')),
             (3, at_time 5, POST_api_login (credentials ''alice'' ''guess3'')),
             (4, at_time 5, POST_api_login (credentials ''alice'' ''p1''))])
     (start [alice, bob]))) 4 = Some (message_response ''Login successful'' 200)"
  using burst_login_answers [where i = 4 and e = "at_time 5"
      and data = "credentials ''alice'' ''p1''" and table = "[alice, bob]" and cfg = cfg0
      and H = ref_hasher and reqs =
        "[(0, at_time 5, POST_api_login (credentials ''alice'' ''guess0'')),
          (1, at_time 5, POST_api_login (credentials ''alice'' ''guess1'')),
          (2, at_time 5, POST_api_login (credentials ''alice'' ''guess2'')),
          (3, at_time 5, POST_api_login (credentials ''alice'' ''guess3'')),
          (4, at_time 5, POST_api_login (credentials ''alice'' ''p1''))]"]
  by (simp add: api_login_success [where name = "''alice''" and u = alice])

text \<open>
  Commits of requests that all computed the same write from the same loaded
  row: the first changes the table, the others repeat it.
\<close>

lemma session_flush_idem:
  "session_flush (session_flush table loaded obj) loaded obj = session_flush table loaded obj"
  by (simp add: session_flush_def flush_row_def)

lemma crun_same_Finishes:
  assumes "in_flight s = map (\<lambda>i. (i, Update loaded obj r)) js" and "distinct js"
  shows "crun cfg H (map Finish js) s =
     s\<lparr>table_of := (if js = [] then table_of s else session_flush (table_of s) loaded obj),
       in_flight := [], answered := answered s @ map (\<lambda>i. (i, r)) js\<rparr>"
  using assms
proof (induction js arbitrary: s)
  case Nil
  then show ?case by simp
next
  case (Cons j js)
  let ?s = "cstep cfg H (Finish j) s"
  from Cons.prems have j: "j \<notin> fst ` set (map (\<lambda>i. (i, Update loaded obj r)) js)"
    by (auto simp: image_iff)
  from Cons.prems have s': "?s = s\<lparr>table_of := session_flush (table_of s) loaded obj,
      in_flight := map (\<lambda>i. (i, Update loaded obj r)) js, answered := answered s @ [(j, r)]\<rparr>"
    using delete_fresh [OF j] by (simp add: cstep_Finish [where p = "Update loaded obj r"])
  with Cons.prems have "crun cfg H (map Finish js) ?s =
      ?s\<lparr>table_of := (if js = [] then table_of ?s else session_flush (table_of ?s) loaded obj),
        in_flight := [], answered := answered ?s @ map (\<lambda>i. (i, r)) js\<rparr>"
    by (intro Cons.IH) simp_all
  with s' show ?case by (simp add: session_flush_idem)
qed

lemma burst_of_guesses:
  assumes "query_first_by_username table name = Some u" and "name \<noteq> []"
    and "failed_login_attempts u + 1 < LOCKOUT_ATTEMPTS cfg"
    and "distinct (map fst tries)"
    and "\<forall>(i, e, p) \<in> set tries.
           p \<noteq> [] \<and> \<not> check_password H u p \<and> \<not> is_locked u (clock_of e 0)"
  shows "crun cfg H (burst (guesses name tries)) (start table) =
     \<lparr>table_of = (if tries = [] then table else
         session_flush table u (u\<lparr>failed_login_attempts := failed_login_attempts u + 1\<rparr>)),
      in_flight = [],
      answered = map (\<lambda>i. (i, error_response ''Invalid credentials'' 401)) (map fst tries)\<rparr>"
proof -
  let ?u1 = "u\<lparr>failed_login_attempts := failed_login_attempts u + 1\<rparr>"
  let ?r = "error_response ''Invalid credentials'' 401"
  have "view cfg H e (POST_api_login (credentials name p)) table = Update u ?u1 ?r"
    if "(i, e, p) \<in> set tries" for i e p
    using that assms(1,2,3,5)
    by (auto simp: view_def api_login_pending_valid [where name = name and password = p])
  then have fl: "map (\<lambda>(i, e, rq). (i, view cfg H e rq table)) (guesses name tries) =
      map (\<lambda>i. (i, Update u ?u1 ?r)) (map fst tries)"
    by (auto simp: guesses_def)
  from assms(4) have d: "map fst (guesses name tries) = map fst tries"
    by (simp add: guesses_def split_beta)
  let ?s0 = "\<lparr>table_of = table,
      in_flight = map (\<lambda>i. (i, Update u ?u1 ?r)) (map fst tries), answered = []\<rparr>"
  from assms(4) d have begins:
    "crun cfg H (map (\<lambda>(i, e, rq). Begin i e rq) (guesses name tries)) (start table) = ?s0"
    by (simp add: crun_Begins start_def fl)
  from assms(4) have "crun cfg H (map Finish (map fst tries)) ?s0 =
      ?s0\<lparr>table_of := (if map fst tries = [] then table_of ?s0
                        else session_flush (table_of ?s0) u ?u1),
         in_flight := [], answered := answered ?s0 @ map (\<lambda>i. (i, ?r)) (map fst tries)\<rparr>"
    by (intro crun_same_Finishes) simp_all
  then have "crun cfg H (map Finish (map fst tries)) ?s0 =
      \<lparr>table_of = (if tries = [] then table else session_flush table u ?u1),
       in_flight = [], answered = map (\<lambda>i. (i, ?r)) (map fst tries)\<rparr>"
    by (simp del: map_map)
  then show ?thesis by (simp only: burst_def crun_append begins d)
qed

text \<open>
  Claim C23. However many logins with wrong passwords for one account read
  the row before the first of them commits, the failure counter goes up by
  one: each computes the new counter from the value it read, and every
  write after the first repeats it. All of them are answered 401. So a
  burst of guesses costs one failed attempt.
\<close>
theorem burst_counts_once:
  assumes "table_ok table" and "query_first_by_username table name = Some u"
    and "name \<noteq> []" and "failed_login_attempts u + 1 < LOCKOUT_ATTEMPTS cfg"
    and "distinct (map fst tries)" and "tries \<noteq> []"
    and "\<forall>(i, e, p) \<in> set tries.
           p \<noteq> [] \<and> \<not> check_password H u p \<and> \<not> is_locked u (clock_of e 0)"
  shows "query_first_by_username
           (table_of (crun cfg H (burst (guesses name tries)) (start table))) name =
           Some (u\<lparr>failed_login_attempts := failed_login_attempts u + 1\<rparr>) \<and>
         map (\<lambda>q. status (snd q)) (answered (crun cfg H (burst (guesses name tries))
           (start table))) = replicate (length tries) 401"
proof -
  from assms(2) have "u \<in> set table" "username u = name"
    by (auto dest: query_first_SomeD)
  with assms(1,6) show ?thesis
    by (simp add: burst_of_guesses [OF assms(2,3,4,5,7)] o_def map_replicate_const
        query_first_session_flush [where r = u] flush_row_def)
qed

theorem burst_counts_once_witness:
  "query_first_by_username
     (table_of (crun cfg0 ref_hasher
        (burst (guesses ''alice''
           [(0, at_time 5, ''guess0''), (1, at_time 5, ''guess1''),
            (2, at_time 6, ''guess2''), (3, at_time 7, ''guess3'')]))
        (start [alice, bob]))) ''alice'' =
   Some (alice\<lparr>failed_login_attempts := 1\<rparr>)"
  using burst_counts_once [where table = "[alice, bob]" and name = "''alice''" and u = alice
      and cfg = cfg0 and H = ref_hasher and tries =
        "[(0, at_time 5, ''guess0''), (1, at_time 5, ''guess1''),
          (2, at_time 6, ''guess2''), (3, at_time 7, ''guess3'')]"]
  by simp

section \<open>Requests about different accounts\<close>

lemma view_cong:
  assumes "target rq = Some n"
    and "query_first_by_username table n = query_first_by_username table' n"
  shows "view cfg H e rq table = view cfg H e rq table'"
  using assms
  by (cases rq)
    (auto simp: view_def target_def api_register_pending_def api_login_pending_def
      api_reset_pending_def Let_def)

lemma api_register_others:
  assumes "api_register H salt data table = Inr (r, table')"
    and "n \<noteq> py_str (data ''username'')"
  shows "query_first_by_username table' n = query_first_by_username table n"
proof (cases rule: api_register_effect [where H=H and salt=salt and data=data and table=table])
  case (unchanged r0)
  with assms show ?thesis by simp
next
  case (inserted r0 name password)
  with assms show ?thesis
    by (auto simp: has_credentials_def query_first_by_username_def first_by_append
        registered_row_def split: option.split)
qed

lemma handle_others:
  assumes "table_ok table" and "target rq \<noteq> Some n"
  shows "query_first_by_username (snd (handle cfg H e rq table)) n =
     query_first_by_username table n"
proof (cases rq)
  case (POST_api_register data)
  obtain r table' where reg: "api_register H (salt_of e) data table = Inr (r, table')"
    using register_never_raises_aux [of H "salt_of e" data table] by blast
  with assms POST_api_register show ?thesis
    using api_register_others [OF reg, of n] by (auto simp: handle_register target_def)
next
  case (POST_api_login data)
  with assms show ?thesis by (simp add: target_def api_login_others)
next
  case (POST_api_reset data)
  with assms show ?thesis by (simp add: target_def api_reset_others)
qed simp_all

text \<open>
  When two overlapping requests are served as if one after the other: when
  the second would have read the same after the commit of the first. So it
  is after a first request that writes nothing.
\<close>

lemma overlapped_serial:
  assumes "table_ok table" and "i \<noteq> j"
    and "view cfg H e2 rq2 table = view cfg H e2 rq2 (snd (handle cfg H e1 rq1 table))"
  shows "crun cfg H (overlapped i e1 rq1 j e2 rq2) (start table) =
     \<lparr>table_of = snd (run cfg H [(e1, rq1), (e2, rq2)] table), in_flight = [],
      answered = zip [i, j] (fst (run cfg H [(e1, rq1), (e2, rq2)] table))\<rparr>"
proof -
  from assms(1) have "table_ok (snd (handle cfg H e1 rq1 table))" by (rule handle_table_ok)
  with assms show ?thesis by (simp add: crun_overlapped finish_view run_Cons)
qed

lemma overlapped_after_read_only:
  assumes "table_ok table" and "i \<noteq> j" and "snd (handle cfg H e1 rq1 table) = table"
  shows "crun cfg H (overlapped i e1 rq1 j e2 rq2) (start table) =
     \<lparr>table_of = snd (run cfg H [(e1, rq1), (e2, rq2)] table), in_flight = [],
      answered = zip [i, j] (fst (run cfg H [(e1, rq1), (e2, rq2)] table))\<rparr>"
  using assms by (intro overlapped_serial) simp_all

text \<open>
  Two overlapping requests of which the second is about another
  account than the first are served as if one after the other: the table
  and both responses are those of the sequential run. The lockout rules
  therefore hold for an account whose requests do not overlap each other,
  whatever happens to other accounts at the same time.
\<close>
lemma disjoint_accounts_serial:
  assumes "table_ok table" and "target rq2 = Some n" and "target rq1 \<noteq> Some n" and "i \<noteq> j"
  shows "crun cfg H (overlapped i e1 rq1 j e2 rq2) (start table) =
     \<lparr>table_of = snd (run cfg H [(e1, rq1), (e2, rq2)] table), in_flight = [],
      answered = zip [i, j] (fst (run cfg H [(e1, rq1), (e2, rq2)] table))\<rparr>"
proof -
  from assms have "view cfg H e2 rq2 table = view cfg H e2 rq2 (snd (handle cfg H e1 rq1 table))"
    by (intro view_cong [where n = n]) (simp_all add: handle_others)
  with assms(1,4) show ?thesis by (rule overlapped_serial)
qed

lemma disjoint_accounts_serial_example:
  "crun cfg0 ref_hasher
     (overlapped 0 (at_time 5) (POST_api_login (credentials ''alice'' ''guess''))
                 1 (at_time 6) (POST_api_login (credentials ''bob'' ''hunter2'')))
     (start [alice, bob]) =
   \<lparr>table_of = [alice\<lparr>failed_login_attempts := 1\<rparr>,
                bob\<lparr>failed_login_attempts := 0, lockout_until := None\<rparr>],
    in_flight = [],
    answered = [(0, error_response ''Invalid credentials'' 401),
                (1, message_response ''Login successful'' 200)]\<rparr>"
  using disjoint_accounts_serial [where table = "[alice, bob]" and n = "''bob''"
      and ?rq1.0 = "POST_api_login (credentials ''alice'' ''guess'')"
      and ?rq2.0 = "POST_api_login (credentials ''bob'' ''hunter2'')"
      and ?e1.0 = "at_time 5" and ?e2.0 = "at_time 6" and i = 0 and j = 1
      and cfg = cfg0 and H = ref_hasher]
  by (simp add: target_def run_Cons
      api_login_wrong [where name = "''alice''" and u = alice]
      api_login_success [where name = "''bob''" and u = bob])

end
