(* ===== verification/Serializability.thy ===== *)
theory Serializability
  imports Overlapping_Requests
begin

text \<open>
  Schedules in which the requests about one account do not overlap. The
  specification asks that the operations on one user name be serializable;
  the code does nothing for it, so it is a condition on the schedule here:
  \<open>isolated\<close> holds when at every commit no other request in flight has
  read what the commit changes. The theorem shows that such a schedule
  leaves the table and sends the responses of the sequential run of its
  requests in the order of their commits, so that whatever is proved of
  sequential runs holds of these schedules.
\<close>

section \<open>Definitions\<close>

text \<open>
  \<open>apart rq rq'\<close>: the commit of \<open>rq\<close> leaves what \<open>rq'\<close> has read as it was.
  A request about a user name has read the row of that name; the listing
  has read every row; a page has read nothing.
\<close>

definition apart :: "request \<Rightarrow> request \<Rightarrow> bool" where
  "apart rq rq' \<longleftrightarrow>
     (case target rq' of
        Some n \<Rightarrow> target rq \<noteq> Some n
      | None \<Rightarrow> rq' \<noteq> GET_api_users \<or> target rq = None)"

text \<open>
  The requests in flight are kept beside the schedule, as \<open>cstep\<close> keeps
  their pending writes: a start under a number in use and a commit of a
  request not in flight do nothing.
\<close>

fun isolated :: "(nat \<times> 's env \<times> request) list \<Rightarrow> 's action list \<Rightarrow> bool" where
  "isolated fl [] = True"
| "isolated fl (Begin i e rq # as) =
     (if map_of fl i \<noteq> None then isolated fl as else isolated (fl @ [(i, e, rq)]) as)"
| "isolated fl (Finish i # as) =
     (case map_of fl i of
        None \<Rightarrow> isolated fl as
      | Some er \<Rightarrow>
          list_all (\<lambda>(j, e', rq'). j = i \<or> apart (snd er) rq') fl \<and>
          isolated (AList.delete i fl) as)"

text \<open>The requests of a schedule that commit, in the order of their commits.\<close>

fun commits ::
    "(nat \<times> 's env \<times> request) list \<Rightarrow> 's action list \<Rightarrow> (nat \<times> 's env \<times> request) list" where
  "commits fl [] = []"
| "commits fl (Begin i e rq # as) =
     (if map_of fl i \<noteq> None then commits fl as else commits (fl @ [(i, e, rq)]) as)"
| "commits fl (Finish i # as) =
     (case map_of fl i of
        None \<Rightarrow> commits fl as
      | Some er \<Rightarrow> (i, er) # commits (AList.delete i fl) as)"

text \<open>The pending writes of the requests \<open>fl\<close>, had they all read \<open>table\<close>.\<close>

definition views ::
    "config \<Rightarrow> 's hasher \<Rightarrow> db \<Rightarrow> (nat \<times> 's env \<times> request) list \<Rightarrow> (nat \<times> pending) list" where
  "views cfg H table fl = map (\<lambda>(i, e, rq). (i, view cfg H e rq table)) fl"

section \<open>Lemmas\<close>

lemma apart_view:
  assumes "table_ok table" and "apart rq rq'"
  shows "view cfg H e' rq' (snd (handle cfg H e rq table)) = view cfg H e' rq' table"
proof (cases "target rq'")
  case (Some n)
  with assms show ?thesis
    by (intro view_cong [where n = n]) (simp_all add: apart_def handle_others)
next
  case None
  show ?thesis
  proof (cases "rq' = GET_api_users")
    case True
    with assms None have "target rq = None" by (simp add: apart_def)
    then have "snd (handle cfg H e rq table) = table"
      by (cases rq) (simp_all add: target_def)
    then show ?thesis by simp
  next
    case False
    with None show ?thesis by (cases rq') (simp_all add: view_def target_def)
  qed
qed

lemma map_of_views:
  "map_of (views cfg H table fl) i =
     map_option (\<lambda>(e, rq). view cfg H e rq table) (map_of fl i)"
  by (induction fl) (auto simp: views_def)

lemma delete_views:
  "AList.delete i (views cfg H table fl) = views cfg H table (AList.delete i fl)"
  by (induction fl) (auto simp: views_def)

lemma views_append [simp]:
  "views cfg H table (fl @ fl') = views cfg H table fl @ views cfg H table fl'"
  by (simp add: views_def)

lemma views_apart:
  assumes "table_ok table"
    and "list_all (\<lambda>(j, e', rq'). j = i \<or> apart rq rq') fl"
  shows "views cfg H (snd (handle cfg H e rq table)) (AList.delete i fl) =
     views cfg H table (AList.delete i fl)"
  using assms
  by (induction fl) (auto simp: views_def apart_view)

section \<open>An isolated schedule is a sequential run\<close>

text \<open>
  The invariant of the proof: the pending write of every request in flight
  is the one the request would compute on the table as it is now. A commit
  is then the sequential handler, and it leaves the property to the others.
\<close>

lemma isolated_Finish:
  assumes "table_ok (table_of s)" and "in_flight s = views cfg H (table_of s) fl"
    and "map_of fl i = Some (e, rq)"
    and "list_all (\<lambda>(j, e', rq'). j = i \<or> apart rq rq') fl"
  shows "cstep cfg H (Finish i) s =
     \<lparr>table_of = snd (handle cfg H e rq (table_of s)),
      in_flight = views cfg H (snd (handle cfg H e rq (table_of s))) (AList.delete i fl),
      answered = answered s @ [(i, fst (handle cfg H e rq (table_of s)))]\<rparr>"
proof -
  from assms(2,3) have "map_of (in_flight s) i = Some (view cfg H e rq (table_of s))"
    by (simp add: map_of_views)
  with assms(1,2) have "cstep cfg H (Finish i) s =
      s\<lparr>table_of := snd (handle cfg H e rq (table_of s)),
        in_flight := views cfg H (table_of s) (AList.delete i fl),
        answered := answered s @ [(i, fst (handle cfg H e rq (table_of s)))]\<rparr>"
    by (simp add: cstep_Finish [where p = "view cfg H e rq (table_of s)"] finish_view
        delete_views)
  with assms(1,4) show ?thesis by (simp add: views_apart)
qed

text \<open>
  A request that begins is tracked with the view it computes now; an action
  on a request identifier that is taken, or on one that is not in flight,
  does nothing.
\<close>

lemma isolated_Begin:
  assumes "in_flight s = views cfg H (table_of s) fl" and "map_of fl i = None"
  shows "cstep cfg H (Begin i e rq) s =
     s\<lparr>in_flight := views cfg H (table_of s) (fl @ [(i, e, rq)])\<rparr>"
proof -
  from assms have "map_of (in_flight s) i = None" by (simp add: map_of_views)
  with assms(1) show ?thesis by (simp add: cstep_Begin) (simp add: views_def)
qed

lemma isolated_idle:
  assumes "in_flight s = views cfg H (table_of s) fl"
  shows "map_of fl i = Some er \<Longrightarrow> cstep cfg H (Begin i e rq) s = s"
    and "map_of fl i = None \<Longrightarrow> cstep cfg H (Finish i) s = s"
  using assms by (cases er; simp add: cstep_Begin_used cstep_Finish_idle map_of_views)+

lemma isolated_crun:
  assumes "table_ok (table_of s)" and "in_flight s = views cfg H (table_of s) fl"
    and "isolated fl as"
  shows "table_of (crun cfg H as s) =
      snd (run cfg H (map snd (commits fl as)) (table_of s)) \<and>
    answered (crun cfg H as s) =
      answered s @ zip (map fst (commits fl as))
        (fst (run cfg H (map snd (commits fl as)) (table_of s)))"
  using assms
proof (induction fl as arbitrary: s rule: isolated.induct)
  case (1 fl)
  then show ?case by simp
next
  case (2 fl i e rq as)
  show ?case
  proof (cases "map_of fl i")
    case None
    with "2.prems" "2.IH"(2) [of "cstep cfg H (Begin i e rq) s"] show ?thesis
      by (simp add: isolated_Begin)
  next
    case (Some er)
    with "2.prems" "2.IH"(1) [of s] show ?thesis by (simp add: isolated_idle)
  qed
next
  case (3 fl i as)
  show ?case
  proof (cases "map_of fl i")
    case None
    with "3.prems" "3.IH"(1) [of s] show ?thesis by (simp add: isolated_idle)
  next
    case (Some er)
    obtain e rq where er: "er = (e, rq)" by (cases er)
    let ?s = "cstep cfg H (Finish i) s"
    from "3.prems" Some er have s': "?s =
        \<lparr>table_of = snd (handle cfg H e rq (table_of s)),
         in_flight = views cfg H (snd (handle cfg H e rq (table_of s))) (AList.delete i fl),
         answered = answered s @ [(i, fst (handle cfg H e rq (table_of s)))]\<rparr>"
      by (intro isolated_Finish) simp_all
    with "3.prems" Some have "table_of (crun cfg H as ?s) =
        snd (run cfg H (map snd (commits (AList.delete i fl) as)) (table_of ?s)) \<and>
      answered (crun cfg H as ?s) =
        answered ?s @ zip (map fst (commits (AList.delete i fl) as))
          (fst (run cfg H (map snd (commits (AList.delete i fl) as)) (table_of ?s)))"
      by (intro "3.IH"(2) [OF Some]) (simp_all add: handle_table_ok)
    with s' Some er show ?thesis by (simp add: run_Cons)
  qed
qed

text \<open>
  The requests that commit are requests that were in flight or that the
  schedule starts.
\<close>

lemma commits_from:
  "x \<in> set (commits fl as) \<Longrightarrow>
   x \<in> set fl \<or> (\<exists>i e rq. x = (i, e, rq) \<and> Begin i e rq \<in> set as)"
proof (induction fl as rule: commits.induct)
  case (3 fl i as)
  then show ?case
    by (auto simp: AList.delete_eq split: option.splits dest: map_of_SomeD)
qed (auto split: if_splits)

text \<open>Schedules that are isolated, and one that is not.\<close>

lemma isolated_serial_schedule: "isolated [] (serial k evs)"
  by (induction evs arbitrary: k) simp_all

lemma isolated_overlapped:
  assumes "target rq2 = Some n" and "target rq1 \<noteq> Some n" and "i \<noteq> j"
  shows "isolated [] (overlapped i e1 rq1 j e2 rq2)"
  using assms by (simp add: overlapped_def apart_def)

lemma commits_overlapped:
  "i \<noteq> j \<Longrightarrow> commits [] (overlapped i e1 rq1 j e2 rq2) = [(i, e1, rq1), (j, e2, rq2)]"
  by (simp add: overlapped_def)

lemma same_account_not_isolated:
  assumes "target rq1 = Some n" and "target rq2 = Some n" and "i \<noteq> j"
  shows "\<not> isolated [] (overlapped i e1 rq1 j e2 rq2)"
  using assms by (simp add: overlapped_def apart_def)

text \<open>
  Claim C27. A schedule in which no request commits while another request
  that has read what the commit changes is in flight is served as the
  sequential run of its requests in the order of their commits: the table
  at the end and the responses are those of that run. So the state
  invariant, which overlapping requests about one account can break, holds
  after every such schedule, and the lockout rules hold as they do for
  requests served one after the other.
\<close>
theorem isolated_serial:
  assumes "table_ok table" and "isolated [] as"
  shows "table_of (crun cfg H as (start table)) =
           snd (run cfg H (map snd (commits [] as)) table) \<and>
         answered (crun cfg H as (start table)) =
           zip (map fst (commits [] as)) (fst (run cfg H (map snd (commits [] as)) table)) \<and>
         (db_ok cfg table \<longrightarrow> db_ok cfg (table_of (crun cfg H as (start table))))"
proof -
  from assms have "table_of (crun cfg H as (start table)) =
      snd (run cfg H (map snd (commits [] as)) (table_of (start table))) \<and>
    answered (crun cfg H as (start table)) =
      answered (start table) @ zip (map fst (commits [] as))
        (fst (run cfg H (map snd (commits [] as)) (table_of (start table))))"
    by (intro isolated_crun) (simp_all add: views_def)
  then show ?thesis by (simp add: run_db_ok)
qed

theorem isolated_serial_witness:
  "table_ok [alice, bob] \<and>
   isolated []
     [Begin 0 (at_time 5) (POST_api_login (credentials ''alice'' ''guess1'')),
      Begin 2 (at_time 6) (POST_api_login (credentials ''bob'' ''hunter2'')),
      Finish 2, Finish 0,
      Begin 3 (at_time 7) (POST_api_login (credentials ''alice'' ''guess2'')),
      Begin 4 (at_time 8) GET_root, Finish 3, Finish 4] \<and>
   query_first_by_username (table_of (crun cfg0 ref_hasher
     [Begin 0 (at_time 5) (POST_api_login (credentials ''alice'' ''guess1'')),
      Begin 2 (at_time 6) (POST_api_login (credentials ''bob'' ''hunter2'')),
      Finish 2, Finish 0,
      Begin 3 (at_time 7) (POST_api_login (credentials ''alice'' ''guess2'')),
      Begin 4 (at_time 8) GET_root, Finish 3, Finish 4] (start [alice, bob]))) ''alice'' =
     Some (alice\<lparr>failed_login_attempts := 2\<rparr>) \<and>
   map fst (answered (crun cfg0 ref_hasher
     [Begin 0 (at_time 5) (POST_api_login (credentials ''alice'' ''guess1'')),
      Begin 2 (at_time 6) (POST_api_login (credentials ''bob'' ''hunter2'')),
      Finish 2, Finish 0,
      Begin 3 (at_time 7) (POST_api_login (credentials ''alice'' ''guess2'')),
      Begin 4 (at_time 8) GET_root, Finish 3, Finish 4] (start [alice, bob]))) = [2, 0, 3, 4]"
proof -
  let ?as = "[Begin 0 (at_time 5) (POST_api_login (credentials ''alice'' ''guess1'')),
      Begin 2 (at_time 6) (POST_api_login (credentials ''bob'' ''hunter2'')),
      Finish 2, Finish 0,
      Begin 3 (at_time 7) (POST_api_login (credentials ''alice'' ''guess2'')),
      Begin 4 (at_time 8) GET_root, Finish 3, Finish 4]"
  have iso: "isolated [] ?as" by (simp add: apart_def target_def)
  have c: "commits [] ?as =
      [(2, at_time 6, POST_api_login (credentials ''bob'' ''hunter2'')),
       (0, at_time 5, POST_api_login (credentials ''alice'' ''guess1'')),
       (3, at_time 7, POST_api_login (credentials ''alice'' ''guess2'')),
       (4, at_time 8, GET_root)]"
    by simp
  have "table_ok [alice, bob]" by simp
  from isolated_serial [OF this iso, of cfg0 ref_hasher] iso show ?thesis
    by (simp add: c run_Cons api_login_credentials del: crun.simps isolated.simps
        commits.simps)
qed

end
