(* ===== verification/Concurrent_Credentials.thy ===== *)
theory Concurrent_Credentials
  imports Overlapping_Requests Credentials
begin

text \<open>
  Which passwords open an account when requests overlap. Overlapping
  requests break the lockout rules, but not the check of the password: the
  theory follows the passwords that registrations and resets were allowed
  to set through a schedule, and shows that every hash in the table, and
  every hash a request in flight is about to write, was generated from one
  of them. With a sound hasher a login is then accepted only with such a
  password, whatever the schedule. Which of the granted passwords it is
  depends on the schedule: of two resets that overlap, both answered 200,
  the one that commits last sets the password.
\<close>

section \<open>The passwords a schedule grants\<close>

text \<open>The user name and the password a request asks to set.\<close>

definition asks :: "request \<Rightarrow> (string \<times> string) option" where
  "asks rq =
     (case rq of
        POST_api_register data \<Rightarrow> Some (py_str (data ''username''), py_str (data ''password''))
      | POST_api_reset data \<Rightarrow> Some (py_str (data ''username''), py_str (data ''new_password''))
      | _ \<Rightarrow> None)"

text \<open>
  A step grants a password when it starts a registration or a reset that
  passes its checks on the table it reads: the registration finds the name
  free, the reset verifies the old password and finds the account unlocked.
\<close>

definition grants :: "config \<Rightarrow> 's hasher \<Rightarrow> 's action \<Rightarrow> cstate \<Rightarrow> (string \<times> string) set" where
  "grants cfg H a s =
     (case a of
        Begin i e rq \<Rightarrow>
          if map_of (in_flight s) i = None \<and> writes (view cfg H e rq (table_of s))
          then set_option (asks rq) else {}
      | Finish i \<Rightarrow> {})"

fun granted :: "config \<Rightarrow> 's hasher \<Rightarrow> 's action list \<Rightarrow> cstate \<Rightarrow> (string \<times> string) set" where
  "granted cfg H [] s = {}"
| "granted cfg H (a # as) s = grants cfg H a s \<union> granted cfg H as (cstep cfg H a s)"

section \<open>The invariant\<close>

text \<open>
  \<open>hash_of H P name h\<close>: the hash \<open>h\<close> was generated from a password that
  \<open>P\<close> holds for \<open>name\<close>. The invariant says so of every row, and of what
  every request in flight is about to write to the row it loaded, which is
  still in the table under its key and name.
\<close>

definition hash_of :: "'s hasher \<Rightarrow> (string \<times> string) set \<Rightarrow> string \<Rightarrow> string \<Rightarrow> bool" where
  "hash_of H P name h \<longleftrightarrow> (\<exists>salt p. (name, p) \<in> P \<and> h = generate_password_hash H salt p)"

definition table_from :: "'s hasher \<Rightarrow> (string \<times> string) set \<Rightarrow> db \<Rightarrow> bool" where
  "table_from H P table \<longleftrightarrow> (\<forall>u \<in> set table. hash_of H P (username u) (password_hash u))"

definition pending_from :: "'s hasher \<Rightarrow> (string \<times> string) set \<Rightarrow> db \<Rightarrow> pending \<Rightarrow> bool" where
  "pending_from H P table p =
     (case p of
        Respond r \<Rightarrow> True
      | Update loaded obj r \<Rightarrow>
          (\<exists>row \<in> set table. user_id row = user_id loaded \<and> username row = username loaded) \<and>
          (password_hash obj = password_hash loaded \<or>
           hash_of H P (username loaded) (password_hash obj))
      | Insert new_user r \<Rightarrow>
          (\<forall>h. new_password_hash new_user = Some h \<longrightarrow> hash_of H P (new_username new_user) h))"

definition cstate_from :: "'s hasher \<Rightarrow> (string \<times> string) set \<Rightarrow> cstate \<Rightarrow> bool" where
  "cstate_from H P s \<longleftrightarrow>
     table_ok (table_of s) \<and> table_from H P (table_of s) \<and>
     (\<forall>q \<in> set (in_flight s). pending_from H P (table_of s) (snd q))"

section \<open>Lemmas\<close>

lemma hash_of_mono: "hash_of H P name h \<Longrightarrow> P \<subseteq> Q \<Longrightarrow> hash_of H Q name h"
  by (auto simp: hash_of_def)

lemma hash_ofI: "(name, p) \<in> P \<Longrightarrow> hash_of H P name (generate_password_hash H salt p)"
  by (auto simp: hash_of_def)

lemma table_from_mono: "table_from H P table \<Longrightarrow> P \<subseteq> Q \<Longrightarrow> table_from H Q table"
  by (auto simp: table_from_def intro: hash_of_mono)

lemma pending_from_mono: "pending_from H P table p \<Longrightarrow> P \<subseteq> Q \<Longrightarrow> pending_from H Q table p"
  by (cases p) (auto simp: pending_from_def intro: hash_of_mono)

lemma cstate_from_mono: "cstate_from H P s \<Longrightarrow> P \<subseteq> Q \<Longrightarrow> cstate_from H Q s"
  by (auto simp: cstate_from_def intro: table_from_mono pending_from_mono)

lemma pending_from_simps [simp]:
  "pending_from H P table (Respond r)"
  "pending_from H P table (Update loaded obj r) \<longleftrightarrow>
     (\<exists>row \<in> set table. user_id row = user_id loaded \<and> username row = username loaded) \<and>
     (password_hash obj = password_hash loaded \<or>
      hash_of H P (username loaded) (password_hash obj))"
  "pending_from H P table (Insert new_user r) \<longleftrightarrow>
     (\<forall>h. new_password_hash new_user = Some h \<longrightarrow> hash_of H P (new_username new_user) h)"
  by (simp_all add: pending_from_def)

text \<open>What a request is about to write when it has read.\<close>

lemma view_from:
  "pending_from H
     ((if writes (view cfg H e rq table) then set_option (asks rq) else {}) \<union> P) table
     (view cfg H e rq table)"
proof (cases rq)
  case (POST_api_register data)
  then show ?thesis
    by (auto simp: view_def api_register_pending_def Let_def asks_def User_init_def
        set_password_new_def intro: hash_ofI)
next
  case (POST_api_login data)
  then show ?thesis
    by (auto simp: view_def api_login_pending_def Let_def split: option.split
        dest: query_first_SomeD)
next
  case (POST_api_reset data)
  then show ?thesis
    by (auto simp: view_def api_reset_pending_def Let_def asks_def set_password_def
        split: option.split dest: query_first_SomeD intro!: hash_ofI)
qed (simp_all add: view_def)

text \<open>What a commit leaves in the table.\<close>

lemma session_flush_from:
  assumes "table_ok table" and "table_from H P table"
    and "pending_from H P table (Update loaded obj r)"
  shows "table_from H P (session_flush table loaded obj)"
  unfolding table_from_def
proof
  fix u
  assume "u \<in> set (session_flush table loaded obj)"
  then obtain row where row: "row \<in> set table"
    and u: "u = (if user_id row = user_id loaded then flush_row loaded obj row else row)"
    by (auto simp: session_flush_def)
  from assms(2) row have old: "hash_of H P (username row) (password_hash row)"
    by (simp add: table_from_def)
  show "hash_of H P (username u) (password_hash u)"
  proof (cases "user_id row = user_id loaded \<and> password_hash obj \<noteq> password_hash loaded")
    case True
    from assms(3) obtain row' where "row' \<in> set table" "user_id row' = user_id loaded"
      "username row' = username loaded"
      by auto
    with assms(1) row True have "username row = username loaded"
      by (auto simp: table_ok_def dest: distinct_key_eq [where key = user_id])
    with assms(3) True u show ?thesis by simp
  next
    case False
    with old u show ?thesis by auto
  qed
qed

lemma finish_from:
  assumes "table_ok table" and "table_from H P table" and "pending_from H P table p"
  shows "table_from H P (snd (finish p table))"
proof (cases p)
  case (Respond r)
  with assms show ?thesis by simp
next
  case (Update loaded obj r)
  with assms show ?thesis by (simp add: session_flush_from)
next
  case (Insert new_user r)
  with assms show ?thesis
    by (auto simp: finish_def session_add_commit_Inr_iff table_from_def split: sum.split)
qed

text \<open>No commit deletes a row or changes a key or a user name.\<close>

lemma finish_keeps_rows:
  assumes "row \<in> set table"
  shows "\<exists>row' \<in> set (snd (finish p table)).
     user_id row' = user_id row \<and> username row' = username row"
proof (cases p)
  case (Update loaded obj r)
  let ?row = "if user_id row = user_id loaded then flush_row loaded obj row else row"
  from assms have "?row \<in> set (session_flush table loaded obj)"
    by (auto simp: session_flush_def)
  with Update show ?thesis by (intro bexI [of _ ?row]) simp_all
next
  case (Insert new_user r)
  with assms show ?thesis
    by (auto simp: finish_def session_add_commit_Inr_iff split: sum.split)
qed (use assms in auto)

lemma pending_from_finish:
  assumes "pending_from H P table q"
  shows "pending_from H P (snd (finish p table)) q"
proof (cases q)
  case (Update loaded obj r)
  with assms obtain row where "row \<in> set table" "user_id row = user_id loaded"
    "username row = username loaded"
    by auto
  with finish_keeps_rows [of row table p] Update assms show ?thesis by auto
qed (use assms in simp_all)

section \<open>Every schedule keeps the invariant\<close>

lemma cstep_from:
  assumes "cstate_from H P s"
  shows "cstate_from H (grants cfg H a s \<union> P) (cstep cfg H a s)"
proof (cases rule: cstep_cases [of a s cfg H])
  case (begins i e rq)
  from assms have "cstate_from H (grants cfg H a s \<union> P) s"
    by (rule cstate_from_mono) simp
  with begins view_from [of H cfg e rq "table_of s" P] show ?thesis
    by (simp add: cstate_from_def grants_def)
next
  case (commits i p)
  then have "(i, p) \<in> set (in_flight s)" by (intro map_of_SomeD)
  with assms have "pending_from H P (table_of s) p" by (auto simp: cstate_from_def)
  moreover have "pending_from H P (snd (finish p (table_of s))) (snd q)"
    if "q \<in> set (AList.delete i (in_flight s))" for q
    using that assms by (intro pending_from_finish) (auto simp: cstate_from_def AList.delete_eq)
  ultimately show ?thesis
    using assms commits by (simp add: cstate_from_def grants_def finish_table_ok finish_from)
next
  case nothing
  with assms show ?thesis by (cases a) (auto simp: grants_def)
qed

lemma crun_from:
  "cstate_from H P s \<Longrightarrow> cstate_from H (granted cfg H as s \<union> P) (crun cfg H as s)"
proof (induction as arbitrary: s P)
  case Nil
  then show ?case by simp
next
  case (Cons a as)
  from Cons.prems have "cstate_from H (grants cfg H a s \<union> P) (cstep cfg H a s)"
    by (rule cstep_from)
  then have "cstate_from H (granted cfg H as (cstep cfg H a s) \<union> (grants cfg H a s \<union> P))
      (crun cfg H as (cstep cfg H a s))"
    by (rule Cons.IH)
  then show ?case by (simp add: Un_ac)
qed

lemma cstate_from_start [simp]: "cstate_from H {} (start create_app)"
  by (simp add: cstate_from_def table_from_def create_app_def table_ok_def)

text \<open>
  On a table that holds hashes of the passwords \<open>P\<close> only, a sound hasher
  lets a login through with a password of \<open>P\<close> only.
\<close>

lemma login_from:
  assumes "hasher_sound H" and "table_from H P table"
    and "status (fst (api_login cfg H clk (credentials name p) table)) = 200"
  shows "(name, p) \<in> P"
proof -
  from assms(3) obtain u where u: "query_first_by_username table name = Some u"
    and c: "check_password_hash H (password_hash u) p"
    by (auto simp: login_accepted_iff)
  from u have "u \<in> set table" "username u = name" by (auto dest: query_first_SomeD)
  with assms(2) obtain salt q where "(name, q) \<in> P"
    and "password_hash u = generate_password_hash H salt q"
    by (auto simp: table_from_def hash_of_def)
  with assms(1) c show ?thesis by (auto dest: hasher_soundD)
qed

section \<open>Accepted passwords under every schedule\<close>

text \<open>
  Claim C12. Whatever the schedule, a login is answered 200 only with a
  password that was granted to that user name before the login read: the
  password of a registration that found the name free, or the new password
  of a reset that verified the old one. Overlapping requests can undo the
  lockout, but they cannot make the service accept a password that nobody
  was allowed to set. The hasher is assumed sound.
\<close>
theorem concurrent_login_sound:
  assumes "hasher_sound H"
    and "map_of (in_flight (crun cfg H pre (start create_app))) i = None"
    and "map_of (answered (crun cfg H pre (start create_app))) i = None"
    and "Finish i \<in> set post"
    and "map_of (answered (crun cfg H
           (pre @ Begin i e (POST_api_login (credentials name p)) # post)
           (start create_app))) i = Some r"
    and "status r = 200"
  shows "(name, p) \<in> granted cfg H pre (start create_app)"
proof -
  let ?s = "crun cfg H pre (start create_app)"
  from assms(2,3,4) have "map_of (answered (crun cfg H
      (Begin i e (POST_api_login (credentials name p)) # post) ?s)) i =
      Some (fst (handle cfg H e (POST_api_login (credentials name p)) (table_of ?s)))"
    by (intro answer_fixed_at_read) simp_all
  with assms(5,6)
  have "status (fst (api_login cfg H (clock_of e) (credentials name p) (table_of ?s))) = 200"
    by (simp add: crun_append)
  moreover have "cstate_from H (granted cfg H pre (start create_app) \<union> {}) ?s"
    by (rule crun_from) simp
  then have "table_from H (granted cfg H pre (start create_app)) (table_of ?s)"
    by (simp add: cstate_from_def)
  ultimately show ?thesis using assms(1) by (intro login_from)
qed

theorem concurrent_login_sound_witness:
  "hasher_sound ref_hasher \<and>
   map_of (answered (crun cfg0 ref_hasher
     ([Begin 0 (at_time 0) (POST_api_register (credentials ''alice'' ''p1'')), Finish 0,
       Begin 2 (at_time 5) (POST_api_reset (reset_fields ''alice'' ''guess'' ''evil''))] @
      Begin 3 (at_time 6) (POST_api_login (credentials ''alice'' ''p1'')) # [Finish 2, Finish 3])
     (start create_app))) 3 = Some (message_response ''Login successful'' 200) \<and>
   granted cfg0 ref_hasher
     [Begin 0 (at_time 0) (POST_api_register (credentials ''alice'' ''p1'')), Finish 0,
      Begin 2 (at_time 5) (POST_api_reset (reset_fields ''alice'' ''guess'' ''evil''))]
     (start create_app) = {(''alice'', ''p1'')}"
proof -
  let ?pre = "[Begin 0 (at_time 0) (POST_api_register (credentials ''alice'' ''p1'')), Finish 0,
      Begin 2 (at_time 5) (POST_api_reset (reset_fields ''alice'' ''guess'' ''evil''))]"
  let ?post = "[Finish 2, Finish 3]"
  have pre: "crun cfg0 ref_hasher ?pre (start create_app) =
      \<lparr>table_of = [\<lparr>user_id = 1, username = ''alice'', password_hash = ref_generate 0 ''p1'',
                    failed_login_attempts = 0, lockout_until = None\<rparr>],
       in_flight = [(2, Respond (error_response ''Invalid username or old password'' 401))],
       answered = [(0, message_response (''User alice registered successfully'') 201)]\<rparr>"
    by (simp add: cstep_def view_def create_app_def finish_def session_add_commit_def
        next_id_def max_id_def api_reset_pending_def check_password_def
        api_register_pending_valid [where name = "''alice''" and password = "''p1''"])
  have g: "granted cfg0 ref_hasher ?pre (start create_app) = {(''alice'', ''p1'')}"
    by (simp add: grants_def asks_def cstep_def view_def create_app_def finish_def
        session_add_commit_def next_id_def max_id_def api_reset_pending_def check_password_def
        api_register_pending_valid [where name = "''alice''" and password = "''p1''"])
  have a: "map_of (answered (crun cfg0 ref_hasher
      (?pre @ Begin 3 (at_time 6) (POST_api_login (credentials ''alice'' ''p1'')) # ?post)
      (start create_app))) 3 = Some (message_response ''Login successful'' 200)"
    by (simp only: crun_append pre)
      (simp add: cstep_def view_def finish_def check_password_def
        api_login_pending_valid [where name = "''alice''" and password = "''p1''"])
  have f: "map_of (in_flight (crun cfg0 ref_hasher ?pre (start create_app))) 3 = None"
    "map_of (answered (crun cfg0 ref_hasher ?pre (start create_app))) 3 = None"
    by (simp_all only: pre) simp_all
  from concurrent_login_sound [OF ref_hasher_sound f _ a]
  have "(''alice'', ''p1'') \<in> granted cfg0 ref_hasher ?pre (start create_app)"
    by simp
  with a g show ?thesis by simp
qed

section \<open>Two resets that overlap\<close>

text \<open>
  Two resets of one password that both read the row before either commits
  are both answered 200, and the row keeps the hash of the second: the
  password the first client was told is set opens nothing. Here the hasher
  is sound and the second new password differs from the old one, so that
  its hash differs from the one loaded and the second write carries it.
\<close>

lemma overlapped_resets:
  assumes "hasher_sound H" and "table_ok table"
    and "query_first_by_username table name = Some u"
    and "name \<noteq> []" and "old \<noteq> []" and "n1 \<noteq> []" and "n2 \<noteq> []" and "n2 \<noteq> old"
    and "\<not> is_locked u (clock_of e1 0)" and "\<not> is_locked u (clock_of e2 0)"
    and "check_password H u old" and "i \<noteq> j"
    and "s = crun cfg H (overlapped i e1 (POST_api_reset (reset_fields name old n1))
                                    j e2 (POST_api_reset (reset_fields name old n2))) (start table)"
  shows "answered s = [(i, message_response ''Password reset successful'' 200),
                       (j, message_response ''Password reset successful'' 200)] \<and>
    query_first_by_username (table_of s) name =
      Some (u\<lparr>password_hash := generate_password_hash H (salt_of e2) n2,
              failed_login_attempts := 0, lockout_until := None\<rparr>) \<and>
    (n1 \<noteq> n2 \<longrightarrow>
       status (fst (api_login cfg H clk (credentials name n1) (table_of s))) \<noteq> 200)"
proof -
  have v: "view cfg H e (POST_api_reset (reset_fields name old n)) table =
      Update u (u\<lparr>password_hash := generate_password_hash H (salt_of e) n,
                  failed_login_attempts := 0, lockout_until := None\<rparr>)
        (message_response ''Password reset successful'' 200)"
    if "n \<noteq> []" "\<not> is_locked u (clock_of e 0)" for e n
    using that assms(3-5,11)
    by (simp add: view_def set_password_def
        api_reset_pending_valid [where name = name and old_password = old and new_password = n])
  from assms(1,8,11) have "generate_password_hash H (salt_of e2) n2 \<noteq> password_hash u"
    unfolding check_password_def by (metis hasher_soundD)
  with v assms have row: "query_first_by_username (table_of s) name =
      Some (u\<lparr>password_hash := generate_password_hash H (salt_of e2) n2,
              failed_login_attempts := 0, lockout_until := None\<rparr>)"
    and answers: "answered s = [(i, message_response ''Password reset successful'' 200),
                       (j, message_response ''Password reset successful'' 200)]"
    by (simp_all add: crun_overlapped query_first_two_flushes flush_row_def)
  from row assms(1)
  have "status (fst (api_login cfg H clk (credentials name n1) (table_of s))) \<noteq> 200"
    if "n1 \<noteq> n2"
    using that by (auto simp: login_accepted_iff dest: hasher_soundD)
  with row answers show ?thesis by simp
qed

lemma overlapped_resets_example:
  "map (\<lambda>q. status (snd q)) (answered (crun cfg0 ref_hasher
     (overlapped 0 (at_time 5) (POST_api_reset (reset_fields ''alice'' ''p1'' ''new1''))
                 2 (at_time 6) (POST_api_reset (reset_fields ''alice'' ''p1'' ''new2'')))
     (start [alice, bob]))) = [200, 200] \<and>
   status (fst (api_login cfg0 ref_hasher (\<lambda>_. 7) (credentials ''alice'' ''new1'')
     (table_of (crun cfg0 ref_hasher
       (overlapped 0 (at_time 5) (POST_api_reset (reset_fields ''alice'' ''p1'' ''new1''))
                   2 (at_time 6) (POST_api_reset (reset_fields ''alice'' ''p1'' ''new2'')))
       (start [alice, bob]))))) \<noteq> 200"
  using overlapped_resets [where table = "[alice, bob]" and name = "''alice''" and u = alice
      and old = "''p1''" and ?n1.0 = "''new1''" and ?n2.0 = "''new2''" and ?e1.0 = "at_time 5"
      and ?e2.0 = "at_time 6" and H = ref_hasher and cfg = cfg0 and i = 0 and j = 2
      and clk = "\<lambda>_. 7", OF ref_hasher_sound _ _ _ _ _ _ _ _ _ _ _ refl]
  by simp

end
