(* ===== verification/Request_Body.thy ===== *)
theory Request_Body
  imports App Complex_Main
begin

text \<open>
  The body of a POST request as the views of \<^verbatim>\<open>src/app.py\<close> meet it: the
  Python value that \<^verbatim>\<open>request.get_json()\<close> returned, which need not be a
  dict and whose members need not be strings. The theory gives
  \<^verbatim>\<open>data.get(...)\<close> and the truth value of such a value, the first lines of
  the three views on it, and the link to the handlers of the theories
  \<open>Login\<close>, \<open>Register\<close> and \<open>Reset\<close>, which take the string members of the
  body. The lemmas show what a body that is no dict, and a member that is
  falsy without being a string, lead to.
\<close>

section \<open>Python values parsed from JSON\<close>

text \<open>
  What \<^verbatim>\<open>json.loads\<close> builds: \<^verbatim>\<open>None\<close>, a \<^verbatim>\<open>bool\<close>, an \<^verbatim>\<open>int\<close>, a
  \<^verbatim>\<open>float\<close>, a \<^verbatim>\<open>str\<close>, a \<^verbatim>\<open>list\<close> or a \<^verbatim>\<open>dict\<close> with string keys. A
  dict is the list of its items; its keys are distinct. A float is given by
  its value; \<^verbatim>\<open>NaN\<close> and the infinities, which \<^verbatim>\<open>json.loads\<close> accepts too,
  are truthy and no strings, and behave here as any float other than zero.
\<close>

datatype py_value =
    PNone
  | PBool bool
  | PInt int
  | PFloat real
  | PStr string
  | PList "py_value list"
  | PDict "(string \<times> py_value) list"

text \<open>The truth value of a value, as \<^verbatim>\<open>not v\<close> and \<^verbatim>\<open>all([...])\<close> test it.\<close>

fun truthy :: "py_value \<Rightarrow> bool" where
  "truthy PNone = False"
| "truthy (PBool b) = b"
| "truthy (PInt i) = (i \<noteq> 0)"
| "truthy (PFloat x) = (x \<noteq> 0)"
| "truthy (PStr s) = (s \<noteq> [])"
| "truthy (PList xs) = (xs \<noteq> [])"
| "truthy (PDict kvs) = (kvs \<noteq> [])"

text \<open>
  \<^verbatim>\<open>data.get(k)\<close>: the member, \<^verbatim>\<open>None\<close> when the dict has none of that
  name, and an \<^verbatim>\<open>AttributeError\<close> when \<^verbatim>\<open>data\<close> is not a dict, since no
  other of these values has a method \<^verbatim>\<open>get\<close>.
\<close>

definition dict_get :: "py_value \<Rightarrow> string \<Rightarrow> py_value raises" where
  "dict_get data k =
     (case data of
        PDict kvs \<Rightarrow> Inr (case map_of kvs k of None \<Rightarrow> PNone | Some v \<Rightarrow> v)
      | _ \<Rightarrow> Inl AttributeError)"

definition str_of :: "py_value \<Rightarrow> string option" where
  "str_of v = (case v of PStr s \<Rightarrow> Some s | _ \<Rightarrow> None)"

section \<open>The views on the parsed body\<close>

text \<open>
  Each view reads its members, tests their truth values and goes on with
  them. With strings it goes on as the handler of the theories above. With
  a truthy member that is no string it hands that value to the database
  driver or to bcrypt; what they make of it is not modelled, and the result
  is \<open>None\<close>.
\<close>

definition api_register_body ::
    "'s hasher \<Rightarrow> 's \<Rightarrow> py_value \<Rightarrow> db \<Rightarrow> (response \<times> db) raises option" where
  "api_register_body H salt data table =
     (case dict_get data ''username'' of
        Inl e \<Rightarrow> Some (Inl e)
      | Inr name \<Rightarrow>
          (case dict_get data ''password'' of
             Inl e \<Rightarrow> Some (Inl e)
           | Inr password \<Rightarrow>
               if \<not> truthy name \<or> \<not> truthy password then
                 Some (Inr (error_response ''Username and password are required'' 400, table))
               else
                 (case (str_of name, str_of password) of
                    (Some n, Some p) \<Rightarrow>
                      Some (api_register H salt (credentials n p) table)
                  | _ \<Rightarrow> None)))"

definition api_login_body ::
    "config \<Rightarrow> 's hasher \<Rightarrow> clock \<Rightarrow> py_value \<Rightarrow> db \<Rightarrow> (response \<times> db) raises option" where
  "api_login_body cfg H clk data table =
     (case dict_get data ''username'' of
        Inl e \<Rightarrow> Some (Inl e)
      | Inr name \<Rightarrow>
          (case dict_get data ''password'' of
             Inl e \<Rightarrow> Some (Inl e)
           | Inr password \<Rightarrow>
               if \<not> truthy name \<or> \<not> truthy password then
                 Some (Inr (error_response ''Username and password are required'' 400, table))
               else
                 (case (str_of name, str_of password) of
                    (Some n, Some p) \<Rightarrow>
                      Some (Inr (api_login cfg H clk (credentials n p) table))
                  | _ \<Rightarrow> None)))"

definition api_reset_password_body ::
    "'s hasher \<Rightarrow> 's \<Rightarrow> clock \<Rightarrow> py_value \<Rightarrow> db \<Rightarrow> (response \<times> db) raises option" where
  "api_reset_password_body H salt clk data table =
     (case dict_get data ''username'' of
        Inl e \<Rightarrow> Some (Inl e)
      | Inr name \<Rightarrow>
          (case dict_get data ''old_password'' of
             Inl e \<Rightarrow> Some (Inl e)
           | Inr old_password \<Rightarrow>
               (case dict_get data ''new_password'' of
                  Inl e \<Rightarrow> Some (Inl e)
                | Inr new_password \<Rightarrow>
                    if \<not> list_all truthy [name, old_password, new_password] then
                      Some (Inr (error_response
                        ''Username, old_password, and new_password are required'' 400, table))
                    else
                      (case (str_of name, str_of old_password, str_of new_password) of
                         (Some n, Some old, Some new) \<Rightarrow>
                           Some (Inr (api_reset_password H salt clk
                                        (reset_fields n old new) table))
                       | _ \<Rightarrow> None))))"

text \<open>
  The three POST routes, with Flask's answer to an exception that escapes
  the view.
\<close>

datatype json_route = Api_register | Api_login | Api_reset

definition post ::
    "config \<Rightarrow> 's hasher \<Rightarrow> 's env \<Rightarrow> json_route \<Rightarrow> py_value \<Rightarrow> db \<Rightarrow>
     (response \<times> db) option" where
  "post cfg H e route data table =
     map_option (\<lambda>res. case res of Inl exn \<Rightarrow> (internal_server_error, table) | Inr r \<Rightarrow> r)
       (case route of
          Api_register \<Rightarrow> api_register_body H (salt_of e) data table
        | Api_login \<Rightarrow> api_login_body cfg H (clock_of e) data table
        | Api_reset \<Rightarrow> api_reset_password_body H (salt_of e) (clock_of e) data table)"

section \<open>Bodies with string members\<close>

text \<open>
  The members a route requires; the bodies that are dicts in which each of
  them is a string, null or absent; the string members of a body, which is
  what the handlers of the theories above take; and the request of a route.
\<close>

definition required :: "json_route \<Rightarrow> string list" where
  "required route =
     (case route of
        Api_register \<Rightarrow> [''username'', ''password'']
      | Api_login \<Rightarrow> [''username'', ''password'']
      | Api_reset \<Rightarrow> [''username'', ''old_password'', ''new_password''])"

definition is_dict :: "py_value \<Rightarrow> bool" where
  "is_dict data = (case data of PDict kvs \<Rightarrow> True | _ \<Rightarrow> False)"

definition str_or_none :: "py_value \<Rightarrow> bool" where
  "str_or_none v = (case v of PNone \<Rightarrow> True | PStr s \<Rightarrow> True | _ \<Rightarrow> False)"

definition member :: "py_value \<Rightarrow> string \<Rightarrow> py_value" where
  "member data k = (case dict_get data k of Inl e \<Rightarrow> PNone | Inr v \<Rightarrow> v)"

definition typed_body :: "json_route \<Rightarrow> py_value \<Rightarrow> bool" where
  "typed_body route data \<longleftrightarrow>
     is_dict data \<and> list_all (\<lambda>k. str_or_none (member data k)) (required route)"

definition fields_of :: "py_value \<Rightarrow> json_request" where
  "fields_of data k = str_of (member data k)"

definition validation_message :: "json_route \<Rightarrow> string" where
  "validation_message route =
     (case route of
        Api_register \<Rightarrow> ''Username and password are required''
      | Api_login \<Rightarrow> ''Username and password are required''
      | Api_reset \<Rightarrow> ''Username, old_password, and new_password are required'')"

definition request_of :: "json_route \<Rightarrow> json_request \<Rightarrow> request" where
  "request_of route data =
     (case route of
        Api_register \<Rightarrow> POST_api_register data
      | Api_login \<Rightarrow> POST_api_login data
      | Api_reset \<Rightarrow> POST_api_reset data)"

text \<open>A body with the two members of a login or a registration.\<close>

definition login_body :: "py_value \<Rightarrow> py_value \<Rightarrow> py_value" where
  "login_body name password = PDict [(''username'', name), (''password'', password)]"

section \<open>Lemmas on values\<close>

lemma dict_get_PDict [simp]:
  "dict_get (PDict kvs) k = Inr (case map_of kvs k of None \<Rightarrow> PNone | Some v \<Rightarrow> v)"
  by (simp add: dict_get_def)

lemma dict_get_not_dict: "\<not> is_dict data \<Longrightarrow> dict_get data k = Inl AttributeError"
  by (cases data) (simp_all add: dict_get_def is_dict_def)

lemma dict_get_member: "is_dict data \<Longrightarrow> dict_get data k = Inr (member data k)"
  by (cases data) (simp_all add: member_def is_dict_def)

lemma is_dict_simps [simp]:
  "is_dict (PDict kvs)" "\<not> is_dict PNone" "\<not> is_dict (PBool b)" "\<not> is_dict (PInt i)"
  "\<not> is_dict (PFloat x)" "\<not> is_dict (PStr s)" "\<not> is_dict (PList xs)"
  by (simp_all add: is_dict_def)

lemma str_of_simps [simp]:
  "str_of (PStr s) = Some s" "str_of PNone = None" "str_of (PBool b) = None"
  "str_of (PInt i) = None" "str_of (PFloat x) = None" "str_of (PList xs) = None"
  "str_of (PDict kvs) = None"
  by (simp_all add: str_of_def)

text \<open>
  For a string or \<^verbatim>\<open>None\<close> the truth value is the one the handlers test on
  the string member.
\<close>

lemma truthy_str_or_none: "str_or_none v \<Longrightarrow> truthy v \<longleftrightarrow> \<not> py_not (str_of v)"
  by (cases v) (simp_all add: str_or_none_def)

lemma truthy_str_of: "str_or_none v \<Longrightarrow> truthy v \<Longrightarrow> str_of v = Some (py_str (str_of v))"
  by (cases v) (simp_all add: str_or_none_def)

lemma py_not_fields_of:
  "str_or_none (member data k) \<Longrightarrow> py_not (fields_of data k) \<longleftrightarrow> \<not> truthy (member data k)"
  by (simp add: fields_of_def truthy_str_or_none)

section \<open>The handlers read only their members\<close>

lemma api_login_fields:
  "data ''username'' = data' ''username'' \<Longrightarrow> data ''password'' = data' ''password'' \<Longrightarrow>
   api_login cfg H clk data table = api_login cfg H clk data' table"
  by (simp add: api_login_def)

lemma api_register_fields:
  "data ''username'' = data' ''username'' \<Longrightarrow> data ''password'' = data' ''password'' \<Longrightarrow>
   api_register H salt data table = api_register H salt data' table"
  by (simp add: api_register_def)

lemma api_reset_fields_cong:
  "data ''username'' = data' ''username'' \<Longrightarrow>
   data ''old_password'' = data' ''old_password'' \<Longrightarrow>
   data ''new_password'' = data' ''new_password'' \<Longrightarrow>
   api_reset_password H salt clk data table = api_reset_password H salt clk data' table"
  by (simp add: api_reset_password_def)

section \<open>The views on every kind of body\<close>

lemma body_not_dict:
  assumes "\<not> is_dict data"
  shows "api_register_body H salt data table = Some (Inl AttributeError)"
    and "api_login_body cfg H clk data table = Some (Inl AttributeError)"
    and "api_reset_password_body H salt clk data table = Some (Inl AttributeError)"
  using assms
  by (simp_all add: api_register_body_def api_login_body_def api_reset_password_body_def
      dict_get_not_dict)

lemma api_register_body_dict:
  assumes "is_dict data"
  shows "api_register_body H salt data table =
     (if \<not> truthy (member data ''username'') \<or> \<not> truthy (member data ''password'') then
        Some (Inr (error_response ''Username and password are required'' 400, table))
      else case (str_of (member data ''username''), str_of (member data ''password'')) of
             (Some n, Some p) \<Rightarrow> Some (api_register H salt (credentials n p) table)
           | _ \<Rightarrow> None)"
  using assms by (simp add: api_register_body_def dict_get_member)

lemma api_login_body_dict:
  assumes "is_dict data"
  shows "api_login_body cfg H clk data table =
     (if \<not> truthy (member data ''username'') \<or> \<not> truthy (member data ''password'') then
        Some (Inr (error_response ''Username and password are required'' 400, table))
      else case (str_of (member data ''username''), str_of (member data ''password'')) of
             (Some n, Some p) \<Rightarrow> Some (Inr (api_login cfg H clk (credentials n p) table))
           | _ \<Rightarrow> None)"
  using assms by (simp add: api_login_body_def dict_get_member)

lemma api_reset_password_body_dict:
  assumes "is_dict data"
  shows "api_reset_password_body H salt clk data table =
     (if \<not> list_all truthy [member data ''username'', member data ''old_password'',
                             member data ''new_password''] then
        Some (Inr (error_response
          ''Username, old_password, and new_password are required'' 400, table))
      else case (str_of (member data ''username''), str_of (member data ''old_password''),
                 str_of (member data ''new_password'')) of
             (Some n, Some old, Some new) \<Rightarrow>
               Some (Inr (api_reset_password H salt clk (reset_fields n old new) table))
           | _ \<Rightarrow> None)"
  using assms by (simp add: api_reset_password_body_def dict_get_member)

lemmas body_dict = api_register_body_dict api_login_body_dict api_reset_password_body_dict

text \<open>A body that is no dict: the view raises and the answer is 500.\<close>

lemma post_not_dict:
  "\<not> is_dict data \<Longrightarrow> post cfg H e route data table = Some (internal_server_error, table)"
  by (cases route) (simp_all add: post_def body_not_dict)

text \<open>A member that is falsy, of whatever type: the answer is 400.\<close>

lemma post_falsy:
  assumes "is_dict data" and "k \<in> set (required route)" and "\<not> truthy (member data k)"
  shows "post cfg H e route data table =
     Some (error_response (validation_message route) 400, table)"
  using assms
  by (cases route) (auto simp: post_def body_dict required_def validation_message_def)

text \<open>
  All members truthy and one of them no string: the value reaches the
  libraries, where the model ends.
\<close>

lemma post_untyped:
  assumes "is_dict data" and "list_all (\<lambda>k. truthy (member data k)) (required route)"
    and "k \<in> set (required route)" and "str_of (member data k) = None"
  shows "post cfg H e route data table = None"
  using assms
  by (cases route) (auto simp: post_def body_dict required_def split: option.splits)

section \<open>Bodies with string members are served by the handlers\<close>

lemma typed_bodyD:
  "typed_body route data \<Longrightarrow> k \<in> set (required route) \<Longrightarrow>
   is_dict data \<and> str_or_none (member data k)"
  by (simp add: typed_body_def list_all_iff)

text \<open>
  A body with the two members of a login or a registration, both strings,
  null or absent: one of them is falsy, or both are non-empty strings.
\<close>

lemma credentials_body_cases [consumes 2, case_names invalid valid]:
  assumes "str_or_none (member data ''username'')" and "str_or_none (member data ''password'')"
  obtains (invalid) "\<not> truthy (member data ''username'') \<or> \<not> truthy (member data ''password'')"
      "py_not (fields_of data ''username'') \<or> py_not (fields_of data ''password'')"
  | (valid) n p where "truthy (member data ''username'')" "truthy (member data ''password'')"
      "str_of (member data ''username'') = Some n" "str_of (member data ''password'') = Some p"
      "fields_of data ''username'' = credentials n p ''username''"
      "fields_of data ''password'' = credentials n p ''password''"
proof (cases "truthy (member data ''username'') \<and> truthy (member data ''password'')")
  case True
  with assms obtain n p where "str_of (member data ''username'') = Some n"
    "str_of (member data ''password'') = Some p"
    by (auto dest: truthy_str_of)
  with True show ?thesis by (intro valid [of n p]) (simp_all add: fields_of_def)
next
  case False
  with assms show ?thesis by (intro invalid) (auto simp: py_not_fields_of)
qed

lemma typed_credentials_body:
  assumes "typed_body route data" and "required route = [''username'', ''password'']"
  shows "is_dict data" and "str_or_none (member data ''username'')"
    and "str_or_none (member data ''password'')"
  using assms by (simp_all add: typed_body_def)

lemma api_login_body_typed:
  assumes "typed_body Api_login data"
  shows "api_login_body cfg H clk data table =
     Some (Inr (api_login cfg H clk (fields_of data) table))"
proof -
  have d: "is_dict data" and s: "str_or_none (member data ''username'')"
    "str_or_none (member data ''password'')"
    by (rule typed_credentials_body [OF assms], simp add: required_def)+
  from s show ?thesis
  proof (cases rule: credentials_body_cases)
    case invalid
    with d show ?thesis by (auto simp: api_login_body_dict api_login_invalid)
  next
    case (valid n p)
    from valid(5,6) have "api_login cfg H clk (fields_of data) table =
        api_login cfg H clk (credentials n p) table"
      by (rule api_login_fields)
    with d valid show ?thesis by (simp add: api_login_body_dict)
  qed
qed

lemma api_register_body_typed:
  assumes "typed_body Api_register data"
  shows "api_register_body H salt data table = Some (api_register H salt (fields_of data) table)"
proof -
  have d: "is_dict data" and s: "str_or_none (member data ''username'')"
    "str_or_none (member data ''password'')"
    by (rule typed_credentials_body [OF assms], simp add: required_def)+
  from s show ?thesis
  proof (cases rule: credentials_body_cases)
    case invalid
    with d show ?thesis by (auto simp: api_register_body_dict api_register_invalid)
  next
    case (valid n p)
    from valid(5,6) have "api_register H salt (fields_of data) table =
        api_register H salt (credentials n p) table"
      by (rule api_register_fields)
    with d valid show ?thesis by (simp add: api_register_body_dict)
  qed
qed

lemma api_reset_password_body_typed:
  assumes "typed_body Api_reset data"
  shows "api_reset_password_body H salt clk data table =
     Some (Inr (api_reset_password H salt clk (fields_of data) table))"
proof -
  let ?vs = "[member data ''username'', member data ''old_password'',
      member data ''new_password'']"
  from assms have d: "is_dict data" and s: "list_all str_or_none ?vs"
    by (simp_all add: typed_body_def required_def)
  show ?thesis
  proof (cases "list_all truthy ?vs")
    case True
    with s obtain n old new where f: "str_of (member data ''username'') = Some n"
      "str_of (member data ''old_password'') = Some old"
      "str_of (member data ''new_password'') = Some new"
      by (auto dest: truthy_str_of)
    have "api_reset_password H salt clk (fields_of data) table =
        api_reset_password H salt clk (reset_fields n old new) table"
      by (rule api_reset_fields_cong) (simp_all add: fields_of_def f reset_fields_def)
    with d True f show ?thesis by (simp add: api_reset_password_body_dict)
  next
    case False
    with s have "\<not> py_all [fields_of data ''username'', fields_of data ''old_password'',
        fields_of data ''new_password'']"
      by (auto simp: py_not_fields_of)
    with d False show ?thesis
      by (simp add: api_reset_password_body_dict api_reset_invalid)
  qed
qed

lemma post_typed:
  assumes "typed_body route data"
  shows "post cfg H e route data table =
     Some (handle cfg H e (request_of route (fields_of data)) table)"
proof (cases route)
  case Api_register
  with assms show ?thesis
    by (simp add: post_def request_of_def api_register_body_typed handle_def)
next
  case Api_login
  with assms show ?thesis
    by (simp add: post_def request_of_def api_login_body_typed)
next
  case Api_reset
  with assms show ?thesis
    by (simp add: post_def request_of_def api_reset_password_body_typed)
qed

text \<open>
  Where the model ends: the body is a dict, every required member is truthy
  and one of them is not a string.
\<close>

lemma post_None_iff:
  "post cfg H e route data table = None \<longleftrightarrow>
     is_dict data \<and> list_all (\<lambda>k. truthy (member data k)) (required route) \<and>
     \<not> list_all (\<lambda>k. str_of (member data k) \<noteq> None) (required route)"
proof (cases "is_dict data")
  case True
  then show ?thesis
    by (cases route) (auto simp: post_def body_dict required_def split: option.splits)
next
  case False
  then show ?thesis by (simp add: post_not_dict)
qed

section \<open>The four kinds of body\<close>

text \<open>
  Every body is of one of four kinds, and the state invariant is kept by a
  POST route on every body it answers.
\<close>

lemma truthy_str_typed:
  "truthy v \<Longrightarrow> str_of v \<noteq> None \<Longrightarrow> str_or_none v"
  by (cases v) (simp_all add: str_or_none_def)

lemma post_cases [case_names not_dict falsy typed untyped]:
  obtains (not_dict) "\<not> is_dict data"
  | (falsy) k where "is_dict data" "k \<in> set (required route)" "\<not> truthy (member data k)"
  | (typed) "typed_body route data"
  | (untyped) "post cfg H e route data table = None"
proof (cases "post cfg H e route data table = None")
  case True
  then show ?thesis by (rule untyped)
next
  case False
  show ?thesis
  proof (cases "is_dict data \<and> list_all (\<lambda>k. truthy (member data k)) (required route)")
    case True
    with False have "list_all (\<lambda>k. str_of (member data k) \<noteq> None) (required route)"
      by (simp add: post_None_iff)
    with True have "typed_body route data"
      by (auto simp: typed_body_def list_all_iff intro: truthy_str_typed)
    then show ?thesis by (rule typed)
  next
    case False
    then show ?thesis by (auto simp: list_all_iff intro: not_dict falsy)
  qed
qed

lemma post_db_ok:
  assumes "db_ok cfg table" and "post cfg H e route data table = Some (r, table')"
  shows "db_ok cfg table'"
proof (cases rule: post_cases [where data=data and route=route and cfg=cfg and H=H and e=e
      and table=table])
  case not_dict
  with assms show ?thesis by (simp add: post_not_dict)
next
  case (falsy k)
  with assms show ?thesis by (simp add: post_falsy [where k=k])
next
  case typed
  with assms have "table' = snd (handle cfg H e (request_of route (fields_of data)) table)"
    by (simp add: post_typed)
  with assms(1) show ?thesis by (simp add: handle_db_ok)
next
  case untyped
  with assms show ?thesis by simp
qed

section \<open>Examples\<close>

lemma member_login_body [simp]:
  "member (login_body name password) ''username'' = name"
  "member (login_body name password) ''password'' = password"
  "is_dict (login_body name password)"
  by (simp_all add: login_body_def member_def)

lemma fields_of_login_body [simp]:
  "fields_of (login_body (PStr n) (PStr p)) ''username'' = Some n"
  "fields_of (login_body (PStr n) (PStr p)) ''password'' = Some p"
  by (simp_all add: fields_of_def)

lemma has_credentials_login_body [simp]:
  "has_credentials (fields_of (login_body (PStr n) (PStr p))) n p \<longleftrightarrow> n \<noteq> [] \<and> p \<noteq> []"
  by (simp add: has_credentials_def)

section \<open>The POST routes on every body\<close>

text \<open>
  Claim C20. What a POST route answers to every body that
  \<^verbatim>\<open>request.get_json()\<close> can return. A body that is no dict (\<^verbatim>\<open>null\<close>, a
  number, a string, a list) makes \<^verbatim>\<open>data.get\<close> raise, and the answer is 500
  with the table untouched. A dict with a required member that is falsy,
  of whatever type, is answered 400. A dict whose required members are
  strings, null or absent is served by the handler on its string members.
  In all other cases, and only then, a value that is no string reaches the
  database driver or bcrypt, where the model ends.
\<close>
theorem post_on_every_body:
  "(\<not> is_dict data \<longrightarrow> post cfg H e route data table = Some (internal_server_error, table)) \<and>
   (is_dict data \<and> (\<exists>k \<in> set (required route). \<not> truthy (member data k)) \<longrightarrow>
      post cfg H e route data table =
        Some (error_response (validation_message route) 400, table)) \<and>
   (typed_body route data \<longrightarrow>
      post cfg H e route data table =
        Some (handle cfg H e (request_of route (fields_of data)) table)) \<and>
   (post cfg H e route data table = None \<longleftrightarrow>
      is_dict data \<and> list_all (\<lambda>k. truthy (member data k)) (required route) \<and>
      \<not> list_all (\<lambda>k. str_of (member data k) \<noteq> None) (required route))"
  using post_None_iff [of cfg H e route data table]
  by (auto simp: post_not_dict post_typed intro: post_falsy)

theorem post_on_every_body_witness:
  "post cfg0 ref_hasher (at_time 5) Api_login PNone [alice, bob] =
     Some (internal_server_error, [alice, bob]) \<and>
   post cfg0 ref_hasher (at_time 5) Api_login (login_body (PInt 0) (PList [PInt 1]))
     [alice, bob] = Some (error_response ''Username and password are required'' 400, [alice, bob]) \<and>
   post cfg0 ref_hasher (at_time 5) Api_login (login_body (PStr ''alice'') (PStr ''p1''))
     [alice, bob] =
     Some (message_response ''Login successful'' 200,
           [alice\<lparr>failed_login_attempts := 0, lockout_until := None\<rparr>, bob]) \<and>
   post cfg0 ref_hasher (at_time 5) Api_login (login_body (PInt 7) (PStr ''p1''))
     [alice, bob] = None"
  using post_on_every_body [where data = PNone and cfg = cfg0 and H = ref_hasher
      and e = "at_time 5" and route = Api_login and table = "[alice, bob]"]
    post_on_every_body [where data = "login_body (PInt 0) (PList [PInt 1])" and cfg = cfg0
      and H = ref_hasher and e = "at_time 5" and route = Api_login and table = "[alice, bob]"]
    post_on_every_body [where data = "login_body (PStr ''alice'') (PStr ''p1'')" and cfg = cfg0
      and H = ref_hasher and e = "at_time 5" and route = Api_login and table = "[alice, bob]"]
    post_on_every_body [where data = "login_body (PInt 7) (PStr ''p1'')" and cfg = cfg0
      and H = ref_hasher and e = "at_time 5" and route = Api_login and table = "[alice, bob]"]
  by (simp add: required_def validation_message_def typed_body_def str_or_none_def
      request_of_def
      api_login_success [where name = "''alice''" and password = "''p1''" and u = alice])

end
