(* ===== verification/Responses.thy ===== *)
theory Responses
  imports App
begin

text \<open>
  The bodies of the responses as a client reads them. The first part gives
  JSON values types and each route a schema, the shapes of body it answers
  with under each status, and shows that every response of \<open>handle\<close> has
  a shape of its schema. The second part decodes the listing of
  \<^verbatim>\<open>api_get_users\<close> back into the columns it shows, and follows a
  registration into the listing.
\<close>

section \<open>Types of JSON values\<close>

datatype json_type =
    TBool
  | TInt
  | TString
  | TTimestamp
  | TList json_type
  | TObject "(string \<times> json_type) list"

text \<open>
  An object has the members of its type, in the order \<^verbatim>\<open>jsonify\<close> got them.
  No type holds \<open>JNull\<close>: no route answers with a null member.
\<close>

fun has_type :: "json \<Rightarrow> json_type \<Rightarrow> bool" where
  "has_type (JBool b) TBool = True"
| "has_type (JInt i) TInt = True"
| "has_type (JString s) TString = True"
| "has_type (JIsoformat t) TTimestamp = True"
| "has_type (JList vs) (TList t) = list_all (\<lambda>v. has_type v t) vs"
| "has_type (JDict kvs) (TObject fts) =
     list_all2 (\<lambda>kv ft. fst kv = fst ft \<and> has_type (snd kv) (snd ft)) kvs fts"
| "has_type _ _ = False"

section \<open>The schema of each route\<close>

definition message_type :: json_type where
  "message_type = TObject [(''message'', TString)]"

definition error_type :: json_type where
  "error_type = TObject [(''error'', TString)]"

definition locked_type :: json_type where
  "locked_type = TObject [(''error'', TString), (''locked_until'', TTimestamp)]"

definition user_type :: json_type where
  "user_type =
     TObject [(''id'', TInt), (''username'', TString), (''failed_attempts'', TInt),
              (''locked_out'', TBool)]"

text \<open>
  The shapes a route answers with under a status. A login has two shapes of
  403: with the lockout time when the account was locked already, without
  it when this attempt locked the account.
\<close>

definition schema :: "request \<Rightarrow> nat \<Rightarrow> json_type list" where
  "schema rq code =
     (case rq of
        POST_api_register data \<Rightarrow>
          if code = 201 then [message_type]
          else if code = 400 \<or> code = 409 then [error_type] else []
      | POST_api_login data \<Rightarrow>
          if code = 200 then [message_type]
          else if code = 400 \<or> code = 401 then [error_type]
          else if code = 403 then [locked_type, error_type] else []
      | POST_api_reset data \<Rightarrow>
          if code = 200 then [message_type]
          else if code = 400 \<or> code = 401 \<or> code = 403 then [error_type] else []
      | GET_api_users \<Rightarrow> if code = 200 then [TList user_type] else []
      | _ \<Rightarrow> [])"

definition page_of :: "request \<Rightarrow> string option" where
  "page_of rq =
     (case rq of
        GET_root \<Rightarrow> Some ''index.html''
      | GET_login \<Rightarrow> Some ''login.html''
      | GET_register \<Rightarrow> Some ''register.html''
      | GET_reset \<Rightarrow> Some ''reset.html''
      | GET_users \<Rightarrow> Some ''users.html''
      | _ \<Rightarrow> None)"

definition well_typed :: "request \<Rightarrow> response \<Rightarrow> bool" where
  "well_typed rq r =
     (case body r of
        Jsonify v \<Rightarrow> list_ex (has_type v) (schema rq (status r))
      | Template name \<Rightarrow> page_of rq = Some name \<and> status r = 200)"

section \<open>Reading the listing\<close>

text \<open>
  What the listing shows of a user, and the decoder a client applies to the
  body of \<^verbatim>\<open>/api/users\<close>: it looks the four members up by name and takes
  each at its type.
\<close>

record listed =
  listed_id :: int
  listed_username :: string
  listed_failed_attempts :: int
  listed_locked_out :: bool

definition public :: "user \<Rightarrow> datetime \<Rightarrow> listed" where
  "public u now =
     \<lparr>listed_id = user_id u, listed_username = username u,
      listed_failed_attempts = failed_login_attempts u, listed_locked_out = is_locked u now\<rparr>"

definition as_int :: "json \<Rightarrow> int option" where
  "as_int v = (case v of JInt i \<Rightarrow> Some i | _ \<Rightarrow> None)"

definition as_string :: "json \<Rightarrow> string option" where
  "as_string v = (case v of JString s \<Rightarrow> Some s | _ \<Rightarrow> None)"

definition as_bool :: "json \<Rightarrow> bool option" where
  "as_bool v = (case v of JBool b \<Rightarrow> Some b | _ \<Rightarrow> None)"

definition field :: "json \<Rightarrow> string \<Rightarrow> json option" where
  "field v k = (case v of JDict kvs \<Rightarrow> map_of kvs k | _ \<Rightarrow> None)"

definition decode_entry :: "json \<Rightarrow> listed option" where
  "decode_entry v =
     Option.bind (Option.bind (field v ''id'') as_int) (\<lambda>i.
     Option.bind (Option.bind (field v ''username'') as_string) (\<lambda>n.
     Option.bind (Option.bind (field v ''failed_attempts'') as_int) (\<lambda>c.
     Option.bind (Option.bind (field v ''locked_out'') as_bool) (\<lambda>b.
       Some \<lparr>listed_id = i, listed_username = n, listed_failed_attempts = c,
             listed_locked_out = b\<rparr>))))"

definition decode_listing :: "response \<Rightarrow> listed list option" where
  "decode_listing r =
     (case body r of
        Jsonify (JList vs) \<Rightarrow> those (map decode_entry vs)
      | _ \<Rightarrow> None)"

text \<open>The listing a table gives when its \<open>i\<close>-th user is judged at \<open>clk i\<close>.\<close>

definition listing :: "clock \<Rightarrow> db \<Rightarrow> listed list" where
  "listing clk table = map (\<lambda>(i, u). public u (clk i)) (enumerate 0 table)"

section \<open>Lemmas on types\<close>

lemma has_type_message [simp]: "has_type (JDict [(''message'', JString s)]) message_type"
  by (simp add: message_type_def)

lemma has_type_error [simp]: "has_type (JDict [(''error'', JString s)]) error_type"
  by (simp add: error_type_def)

lemma has_type_user_entry [simp]: "has_type (user_entry u now) user_type"
  by (simp add: user_entry_def user_type_def)

lemma well_typed_jsonify:
  "well_typed rq (jsonify_status d c) \<longleftrightarrow> list_ex (has_type (JDict d)) (schema rq c)"
  by (simp add: well_typed_def jsonify_status_def)

lemma well_typed_message:
  "message_type \<in> set (schema rq c) \<Longrightarrow> well_typed rq (message_response s c)"
  by (simp add: well_typed_jsonify message_response_def list_ex_iff)
    (rule bexI [where x = message_type], simp_all)

lemma well_typed_error:
  "error_type \<in> set (schema rq c) \<Longrightarrow> well_typed rq (error_response s c)"
  by (simp add: well_typed_jsonify error_response_def list_ex_iff)
    (rule bexI [where x = error_type], simp_all)

text \<open>
  The 403 of a locked account: \<^verbatim>\<open>user.lockout_until.isoformat()\<close> is called
  on a time, never on \<^verbatim>\<open>None\<close>, since \<^verbatim>\<open>is_locked\<close> held.
\<close>

lemma well_typed_locked:
  "is_locked u now \<Longrightarrow> well_typed (POST_api_login data) (locked_response u)"
  by (auto simp: well_typed_jsonify locked_response_def schema_def locked_type_def
      dest: is_locked_isoformat)

lemma well_typed_listing: "well_typed GET_api_users (api_get_users clk table)"
  by (auto simp: well_typed_def api_get_users_def schema_def list_all_iff)

lemma schema_simps [simp]:
  "message_type \<in> set (schema (POST_api_register data) 201)"
  "error_type \<in> set (schema (POST_api_register data) 400)"
  "error_type \<in> set (schema (POST_api_register data) 409)"
  "message_type \<in> set (schema (POST_api_login data) 200)"
  "error_type \<in> set (schema (POST_api_login data) 400)"
  "error_type \<in> set (schema (POST_api_login data) 401)"
  "error_type \<in> set (schema (POST_api_login data) 403)"
  "message_type \<in> set (schema (POST_api_reset data) 200)"
  "error_type \<in> set (schema (POST_api_reset data) 400)"
  "error_type \<in> set (schema (POST_api_reset data) 401)"
  "error_type \<in> set (schema (POST_api_reset data) 403)"
  by (simp_all add: schema_def)

lemmas well_typed_intros = well_typed_message well_typed_error well_typed_locked

lemma well_typed_page [simp]:
  "well_typed GET_root index" "well_typed GET_login login_page"
  "well_typed GET_register register_page" "well_typed GET_reset reset_page"
  "well_typed GET_users users_page"
  by (simp_all add: well_typed_def page_of_def render_template_def index_def login_page_def
      register_page_def reset_page_def users_page_def)

section \<open>Every response is well typed\<close>

lemma api_login_well_typed:
  "well_typed (POST_api_login data) (fst (api_login cfg H clk data table))"
  by (cases rule: api_login_cases [where data=data and table=table and clk=clk and H=H
        and cfg=cfg])
    (simp_all add: api_login_invalid api_login_branches well_typed_intros)

lemma api_reset_well_typed:
  "well_typed (POST_api_reset data) (fst (api_reset_password H salt clk data table))"
  by (cases rule: api_reset_cases [where data=data and table=table and clk=clk and H=H])
    (simp_all add: api_reset_invalid api_reset_branches well_typed_intros)

lemma api_register_well_typed:
  "api_register H salt data table = Inr (r, table') \<Longrightarrow> well_typed (POST_api_register data) r"
  by (cases rule: api_register_cases [where data=data and table=table])
    (auto simp: api_register_invalid api_register_conflict api_register_created
      well_typed_intros)

text \<open>
  Claim C36. Every response has a shape of its route's schema: a JSON route
  answers with a JSON body of a type the schema lists under the response's
  status (so the status is one the schema knows), a page route with its
  template and status 200. In particular the \<^verbatim>\<open>locked_until\<close> member of a
  403 is a time whenever it is there, so the view never calls
  \<^verbatim>\<open>isoformat\<close> on \<^verbatim>\<open>None\<close>, and no member of any response is null.
\<close>
theorem handle_well_typed: "well_typed rq (fst (handle cfg H e rq table))"
proof (cases rq)
  case (POST_api_register data)
  then show ?thesis
    by (cases rule: api_register_effect [where H=H and salt="salt_of e" and data=data
          and table=table]) (auto simp: handle_register dest: api_register_well_typed)
qed (simp_all add: api_login_well_typed api_reset_well_typed well_typed_listing)

theorem handle_well_typed_witness:
  "well_typed (POST_api_login (credentials ''alice'' ''p1''))
     (fst (handle cfg0 ref_hasher (at_time 500) (POST_api_login (credentials ''alice'' ''p1''))
        [alice_locked 900, bob])) \<and>
   body (fst (handle cfg0 ref_hasher (at_time 500) (POST_api_login (credentials ''alice'' ''p1''))
        [alice_locked 900, bob])) =
     Jsonify (JDict [(''error'', JString ''Account locked. Try again later.''),
                     (''locked_until'', JIsoformat 900)])"
  using handle_well_typed [of "POST_api_login (credentials ''alice'' ''p1'')" cfg0 ref_hasher
      "at_time 500" "[alice_locked 900, bob]"]
  by (simp add: api_login_locked [where name = "''alice''" and password = "''p1''"
        and u = "alice_locked 900"] locked_response_def jsonify_status_def
      lockout_until_isoformat_def alice_locked_def)

section \<open>The listing read back\<close>

lemma decode_user_entry [simp]: "decode_entry (user_entry u now) = Some (public u now)"
  by (simp add: decode_entry_def user_entry_def field_def as_int_def as_string_def
      as_bool_def public_def)

lemma those_map_Some: "(\<And>x. x \<in> set xs \<Longrightarrow> f x = Some (g x)) \<Longrightarrow> those (map f xs) = Some (map g xs)"
  by (induction xs) simp_all

text \<open>Decoding the listing gives back the columns it was made from.\<close>

lemma decode_api_get_users: "decode_listing (api_get_users clk table) = Some (listing clk table)"
  by (auto simp: decode_listing_def api_get_users_def listing_def query_all_def
      intro!: those_map_Some)

lemma listing_append:
  "listing clk (table @ [u]) = listing clk table @ [public u (clk (length table))]"
  by (simp add: listing_def enumerate_append_eq)

lemma listing_length [simp]: "length (listing clk table) = length table"
  by (simp add: listing_def)

text \<open>
  The listing and the login agree: a user is shown as locked out exactly
  when a login at the same instant is refused with the lockout time.
\<close>

lemma locked_response_neq [simp]:
  "locked_response u \<noteq> error_response msg c" "locked_response u \<noteq> message_response msg c"
  "error_response msg c \<noteq> locked_response u" "message_response msg c \<noteq> locked_response u"
  by (simp_all add: locked_response_def error_response_def message_response_def
      jsonify_status_def)

lemma listed_locked_iff_login:
  assumes "query_first_by_username table name = Some u" and "name \<noteq> []" and "p \<noteq> []"
  shows "listed_locked_out (public u t) \<longleftrightarrow>
     fst (api_login cfg H (\<lambda>_. t) (credentials name p) table) = locked_response u"
  using assms by (simp add: public_def api_login_credentials)

text \<open>
  Claim C33. What is registered can be read back: after a registration of
  a new user name, the body of \<^verbatim>\<open>/api/users\<close> decodes to the listing of
  the users that were there, followed by one entry with the next free key,
  the registered name, no failed attempts and no lockout.
\<close>
theorem register_listed:
  assumes "has_credentials data name password"
    and "query_first_by_username table name = None"
  shows "decode_listing (fst (handle cfg H e' GET_api_users
           (snd (handle cfg H e (POST_api_register data) table)))) =
         Some (listing (clock_of e') table @
           [\<lparr>listed_id = next_id table, listed_username = name, listed_failed_attempts = 0,
             listed_locked_out = False\<rparr>])"
proof -
  from assms have "snd (handle cfg H e (POST_api_register data) table) =
      table @ [registered_row H (salt_of e) name password table]"
    by (simp add: handle_def api_register_created)
  then show ?thesis
    by (simp add: decode_api_get_users listing_append public_def registered_row_def
        is_locked_def)
qed

theorem register_listed_witness:
  "has_credentials (credentials ''carol'' ''s3cret'') ''carol'' ''s3cret'' \<and>
   query_first_by_username [alice, bob] ''carol'' = None \<and>
   decode_listing (fst (handle cfg0 ref_hasher (at_time 700) GET_api_users
     (snd (handle cfg0 ref_hasher (at_time 600)
        (POST_api_register (credentials ''carol'' ''s3cret'')) [alice, bob])))) =
     Some [\<lparr>listed_id = 1, listed_username = ''alice'', listed_failed_attempts = 0,
             listed_locked_out = False\<rparr>,
           \<lparr>listed_id = 2, listed_username = ''bob'', listed_failed_attempts = 1,
             listed_locked_out = False\<rparr>,
           \<lparr>listed_id = 3, listed_username = ''carol'', listed_failed_attempts = 0,
             listed_locked_out = False\<rparr>]"
  using register_listed [of "credentials ''carol'' ''s3cret''" "''carol''" "''s3cret''"
      "[alice, bob]" cfg0 ref_hasher "at_time 700" "at_time 600"]
  by (simp add: listing_def public_def is_locked_def alice_def bob_def next_id_def max_id_def
      query_first_by_username_def)

end
