(* ===== verification/Column_Bounds.thy ===== *)
theory Column_Bounds
  imports App "HOL-Library.Word"
begin

text \<open>
  The two \<^verbatim>\<open>db.Integer\<close> columns of \<^verbatim>\<open>src/models.py\<close>, the key \<^verbatim>\<open>id\<close> and
  the counter \<^verbatim>\<open>failed_login_attempts\<close>. Python computes on unbounded
  integers, as the handlers of the model do; the table keeps a 64-bit signed
  value, and a Python integer out of that range cannot be written. This
  theory gives the conversion between the two and shows how far keys and
  counters are from the limit: after a run of \<open>n\<close> requests none of them
  exceeds \<open>n\<close>.
\<close>

section \<open>Integers of the table\<close>

type_synonym sqlite_integer = "64 word"

text \<open>
  Binding a Python integer as a parameter of a statement: a value out of
  range is refused with an \<^verbatim>\<open>OverflowError\<close>, here \<open>None\<close>. And reading a
  column back.
\<close>

definition bind_integer :: "int \<Rightarrow> sqlite_integer option" where
  "bind_integer i = (if - (2 ^ 63) \<le> i \<and> i < 2 ^ 63 then Some (word_of_int i) else None)"

definition column_integer :: "sqlite_integer \<Rightarrow> int" where
  "column_integer w = sint w"

definition storable :: "user \<Rightarrow> bool" where
  "storable u \<longleftrightarrow> bind_integer (user_id u) \<noteq> None \<and> bind_integer (failed_login_attempts u) \<noteq> None"

text \<open>Keys and counters between their least value and \<open>n\<close>.\<close>

definition within :: "int \<Rightarrow> db \<Rightarrow> bool" where
  "within n table \<longleftrightarrow>
     list_all (\<lambda>u. 0 < user_id u \<and> user_id u \<le> n \<and>
                  0 \<le> failed_login_attempts u \<and> failed_login_attempts u \<le> n) table"

section \<open>Lemmas\<close>

text \<open>What is written is what is read back.\<close>

lemma column_bind_integer: "bind_integer i = Some w \<Longrightarrow> column_integer w = i"
  by (auto simp: bind_integer_def column_integer_def signed_of_int
      signed_take_bit_int_eq_self split: if_splits)

lemma bind_integer_range: "bind_integer i \<noteq> None \<longleftrightarrow> - (2 ^ 63) \<le> i \<and> i < 2 ^ 63"
  by (simp add: bind_integer_def)

lemma within_Nil [simp]: "within n []"
  by (simp add: within_def)

lemma within_mono: "within n table \<Longrightarrow> n \<le> m \<Longrightarrow> within m table"
  by (auto simp: within_def list_all_iff)

lemma within_session_commit:
  assumes "within n table" and "0 < user_id u" and "user_id u \<le> n"
    and "0 \<le> failed_login_attempts u" and "failed_login_attempts u \<le> n"
  shows "within n (session_commit table u)"
  using assms set_session_commit [of table u] by (auto simp: within_def list_all_iff)

lemma within_member:
  "within n table \<Longrightarrow> u \<in> set table \<Longrightarrow>
   0 < user_id u \<and> user_id u \<le> n \<and> 0 \<le> failed_login_attempts u \<and> failed_login_attempts u \<le> n"
  by (simp add: within_def list_all_iff)

lemma max_id_within: "within n table \<Longrightarrow> 0 \<le> n \<Longrightarrow> max_id table \<le> n"
  by (induction table) (auto simp: within_def max_id_def)

lemma within_storable: "within n table \<Longrightarrow> n < 2 ^ 63 \<Longrightarrow> list_all storable table"
  by (fastforce simp: within_def list_all_iff storable_def bind_integer_def)

section \<open>One request\<close>

lemma api_login_within:
  assumes "within n table"
  shows "within (n + 1) (snd (api_login cfg H clk data table))"
proof (cases rule: api_login_effect [where data=data and table=table and clk=clk and H=H
      and cfg=cfg])
  case unchanged
  with assms show ?thesis by (simp add: within_mono)
next
  case (written u u')
  from assms written(1) have "0 < user_id u \<and> user_id u \<le> n \<and>
      0 \<le> failed_login_attempts u \<and> failed_login_attempts u \<le> n"
    by (rule within_member)
  with written(3,7) have "0 < user_id u' \<and> user_id u' \<le> n + 1 \<and>
      0 \<le> failed_login_attempts u' \<and> failed_login_attempts u' \<le> n + 1"
    by (auto simp: same_identity_def)
  with assms written(6) show ?thesis
    by (simp add: within_session_commit within_mono)
qed

lemma api_reset_within:
  assumes "within n table"
  shows "within n (snd (api_reset_password H salt clk data table))"
proof (cases rule: api_reset_effect [where data=data and table=table and clk=clk and H=H
      and salt=salt])
  case unchanged
  with assms show ?thesis by simp
next
  case (written name old new u)
  from written(2) have "u \<in> set table" by (auto dest: query_first_SomeD)
  with assms have "0 < user_id u \<and> user_id u \<le> n \<and>
      0 \<le> failed_login_attempts u \<and> failed_login_attempts u \<le> n"
    by (rule within_member)
  with assms written(5) show ?thesis by (simp add: within_session_commit)
qed

lemma api_register_within:
  assumes "within n table" and "0 \<le> n"
    and "api_register H salt data table = Inr (r, table')"
  shows "within (n + 1) table'"
proof (cases rule: api_register_effect [where H=H and salt=salt and data=data
      and table=table])
  case (unchanged r')
  with assms show ?thesis by (simp add: within_mono)
next
  case (inserted r' name password)
  with assms max_id_within [OF assms(1,2)] show ?thesis
    by (fastforce simp: within_def next_id_def list_all_iff)
qed

lemma handle_within:
  assumes "within n table" and "0 \<le> n"
  shows "within (n + 1) (snd (handle cfg H e rq table))"
proof (cases rq)
  case (POST_api_register data)
  show ?thesis
  proof (cases rule: api_register_effect [where H=H and salt="salt_of e" and data=data
        and table=table])
    case (unchanged r)
    with assms POST_api_register show ?thesis
      by (simp add: handle_register within_mono)
  next
    case (inserted r name password)
    with assms POST_api_register api_register_within [OF assms inserted(3)] show ?thesis
      by (simp add: handle_register)
  qed
next
  case (POST_api_login data)
  with assms show ?thesis by (simp add: api_login_within)
next
  case (POST_api_reset data)
  with assms show ?thesis by (simp add: api_reset_within within_mono)
qed (use assms in \<open>simp_all add: within_mono\<close>)

lemma run_within:
  assumes "within n table" and "0 \<le> n"
  shows "within (n + int (length evs)) (snd (run cfg H evs table))"
  using assms
proof (induction evs arbitrary: n table)
  case Nil
  then show ?case by simp
next
  case (Cons ev evs)
  from Cons.prems have "within (n + 1) (snd (handle cfg H (fst ev) (snd ev) table))"
    by (rule handle_within)
  with Cons.prems(2) have "within (n + 1 + int (length evs))
      (snd (run cfg H evs (snd (handle cfg H (fst ev) (snd ev) table))))"
    by (intro Cons.IH) simp_all
  then show ?case by (simp add: run_Cons add.assoc)
qed

section \<open>Keys and counters never reach the limit of the column\<close>

text \<open>
  After \<open>n\<close> requests from the empty table every key is between
  \<open>1\<close> and \<open>n\<close> and every failure counter between \<open>0\<close> and \<open>n\<close>: a request
  adds at most one row and raises at most one counter by one. So with fewer
  than \<open>2\<^sup>6\<^sup>3\<close> requests every row can be written to its 64-bit columns,
  and the unbounded integers of the handlers are the integers of the table.
\<close>

lemma run_storable:
  assumes "int (length evs) < 2 ^ 63"
  shows "within (int (length evs)) (snd (run cfg H evs create_app)) \<and>
         list_all storable (snd (run cfg H evs create_app))"
proof -
  have "within (0 + int (length evs)) (snd (run cfg H evs create_app))"
    by (rule run_within) (simp_all add: create_app_def)
  with assms show ?thesis by (simp add: within_storable)
qed

lemma run_storable_example:
  "list_all storable (snd (run cfg0 ref_hasher
     [(at_time 0, POST_api_register (credentials ''alice'' ''p1'')),
      (at_time 1000000, POST_api_login (credentials ''alice'' ''wrong'')),
      (at_time 2000000, POST_api_register (credentials ''bob'' ''hunter2''))]
     create_app)) \<and>
   map user_id (snd (run cfg0 ref_hasher
     [(at_time 0, POST_api_register (credentials ''alice'' ''p1'')),
      (at_time 1000000, POST_api_login (credentials ''alice'' ''wrong'')),
      (at_time 2000000, POST_api_register (credentials ''bob'' ''hunter2''))]
     create_app)) = [1, 2]"
proof -
  have "map user_id (snd (run cfg0 ref_hasher
     [(at_time 0, POST_api_register (credentials ''alice'' ''p1'')),
      (at_time 1000000, POST_api_login (credentials ''alice'' ''wrong'')),
      (at_time 2000000, POST_api_register (credentials ''bob'' ''hunter2''))]
     create_app)) = [1, 2]"
    by (simp add: run_Cons handle_def create_app_def api_register_credentials
        api_login_credentials registered_row_def next_id_def max_id_def check_password_def)
  with run_storable [of "[(at_time 0, POST_api_register (credentials ''alice'' ''p1'')),
      (at_time 1000000, POST_api_login (credentials ''alice'' ''wrong'')),
      (at_time 2000000, POST_api_register (credentials ''bob'' ''hunter2''))]" cfg0 ref_hasher]
  show ?thesis by simp
qed

end
