(* ===== verification/Concurrent_Bounds.thy ===== *)
theory Concurrent_Bounds
  imports Column_Bounds Concurrency
begin

text \<open>
  The bound of the theory \<open>Column_Bounds\<close> for requests that overlap: a
  request still adds at most one row and writes a counter that is at most
  one above a counter it read, so after a schedule that starts \<open>n\<close> requests
  no key and no counter exceeds \<open>n\<close>, whatever the order of the reads and
  the commits.
\<close>

section \<open>The bound on a state\<close>

text \<open>The number of requests a schedule starts.\<close>

fun started :: "'s action list \<Rightarrow> nat" where
  "started [] = 0"
| "started (Begin i e rq # as) = Suc (started as)"
| "started (Finish i # as) = started as"

text \<open>
  A write in flight within the bound, and a state within the bound: each
  request in flight may still add a row, so the largest key is as much
  below the bound as there are requests in flight.
\<close>

definition pending_within :: "int \<Rightarrow> pending \<Rightarrow> bool" where
  "pending_within n p =
     (case p of
        Update loaded obj r \<Rightarrow> 0 \<le> failed_login_attempts obj \<and> failed_login_attempts obj \<le> n
      | _ \<Rightarrow> True)"

definition cwithin :: "int \<Rightarrow> cstate \<Rightarrow> bool" where
  "cwithin n s \<longleftrightarrow>
     within n (table_of s) \<and> max_id (table_of s) + int (length (in_flight s)) \<le> n \<and>
     list_all (\<lambda>q. pending_within n (snd q)) (in_flight s)"

section \<open>Reads and commits\<close>

lemma pending_within_mono: "pending_within n p \<Longrightarrow> n \<le> m \<Longrightarrow> pending_within m p"
  by (auto simp: pending_within_def split: pending.splits)

lemma cwithin_mono: "cwithin n s \<Longrightarrow> n \<le> m \<Longrightarrow> cwithin m s"
  by (auto simp: cwithin_def list_all_iff intro: within_mono pending_within_mono)

lemma view_within:
  assumes "within n table"
  shows "pending_within (n + 1) (view cfg H e rq table)"
proof (cases rq)
  case (POST_api_login data)
  with assms show ?thesis
    by (auto simp: view_def api_login_pending_def Let_def pending_within_def
        split: option.split dest!: query_first_SomeD dest: within_member)
next
  case (POST_api_reset data)
  with assms show ?thesis
    by (auto simp: view_def api_reset_pending_def Let_def pending_within_def
        split: option.split dest!: query_first_SomeD dest: within_member)
next
  case (POST_api_register data)
  then show ?thesis
    by (simp add: view_def api_register_pending_def Let_def pending_within_def)
qed (simp_all add: view_def pending_within_def)

lemma within_session_flush:
  assumes "within n table" and "pending_within n (Update loaded obj r)"
  shows "within n (session_flush table loaded obj)"
  using assms by (auto simp: within_def session_flush_def list_all_iff pending_within_def)

lemma max_id_session_flush [simp]: "max_id (session_flush table loaded obj) = max_id table"
  by (induction table) (simp_all add: max_id_def session_flush_def)

lemma max_id_append [simp]: "max_id (table @ [u]) = max (max_id table) (user_id u)"
  by (induction table) (simp_all add: max_id_def)

lemma length_delete_less:
  "map_of xs k = Some v \<Longrightarrow> length (AList.delete k xs) < length xs"
  by (induction xs) (auto simp: less_Suc_eq_le length_delete_le split: if_splits)

lemma finish_within:
  assumes "within n table" and "pending_within n p" and "max_id table < n"
  shows "within n (snd (finish p table)) \<and> max_id (snd (finish p table)) \<le> max_id table + 1"
proof (cases p)
  case (Respond r)
  with assms show ?thesis by simp
next
  case (Update loaded obj r)
  with assms show ?thesis by (simp add: within_session_flush)
next
  case (Insert new_user r)
  from assms(3) have "0 < n" using max_id_nonneg [of table] by linarith
  with assms Insert show ?thesis
    by (auto simp: finish_def session_add_commit_Inr_iff within_def next_id_def
        split: sum.split)
qed

section \<open>Steps and schedules\<close>

lemma cstep_within:
  assumes "cwithin n s"
  shows "cwithin (n + int (started [a])) (cstep cfg H a s)"
proof (cases rule: cstep_cases [of a s cfg H])
  case (begins i e rq)
  from assms have "cwithin (n + 1) s" by (rule cwithin_mono) simp
  with assms begins show ?thesis by (simp add: cwithin_def view_within)
next
  case (commits i p)
  then have "(i, p) \<in> set (in_flight s)" by (intro map_of_SomeD)
  with assms have "within n (table_of s)" and "pending_within n p"
    and "max_id (table_of s) < n"
    by (cases "in_flight s"; auto simp: cwithin_def list_all_iff)+
  then have "within n (snd (finish p (table_of s))) \<and>
      max_id (snd (finish p (table_of s))) \<le> max_id (table_of s) + 1"
    by (rule finish_within)
  with assms commits length_delete_less [OF commits(2)] show ?thesis
    by (auto simp: cwithin_def list_all_iff AList.delete_eq)
next
  case nothing
  with assms show ?thesis by (cases a) (auto intro: cwithin_mono)
qed

lemma crun_within:
  "cwithin n s \<Longrightarrow> cwithin (n + int (started as)) (crun cfg H as s)"
proof (induction as arbitrary: n s)
  case Nil
  then show ?case by simp
next
  case (Cons a as)
  from Cons.prems have "cwithin (n + int (started [a])) (cstep cfg H a s)"
    by (rule cstep_within)
  from Cons.IH [OF this] show ?case by (cases a) (simp_all add: algebra_simps)
qed

lemma started_serial [simp]: "started (serial k evs) = length evs"
  by (induction evs arbitrary: k) simp_all

lemma cwithin_start: "cwithin 0 (start create_app)"
  by (simp add: cwithin_def create_app_def max_id_def)

text \<open>
  Claim C38. After a schedule that starts \<open>n\<close> requests from the empty
  table, in whatever order they read and commit, every key is between \<open>1\<close>
  and \<open>n\<close> and every failure counter between \<open>0\<close> and \<open>n\<close>. So with
  fewer than \<open>2\<^sup>6\<^sup>3\<close> requests every row can be written to its 64-bit
  columns, and the unbounded integers of the views are the integers of the
  table, also when requests overlap.
\<close>
theorem crun_storable:
  assumes "int (started as) < 2 ^ 63"
  shows "within (int (started as)) (table_of (crun cfg H as (start create_app))) \<and>
         list_all storable (table_of (crun cfg H as (start create_app)))"
proof -
  from crun_within [OF cwithin_start, of as cfg H]
  have "within (int (started as)) (table_of (crun cfg H as (start create_app)))"
    by (simp add: cwithin_def)
  with assms show ?thesis by (simp add: within_storable)
qed

theorem crun_storable_witness:
  "started
     [Begin 0 (at_time 0) (POST_api_register (credentials ''alice'' ''p1'')),
      Begin 2 (at_time 1) (POST_api_register (credentials ''bob'' ''hunter2'')),
      Finish 2, Finish 0,
      Begin 3 (at_time 5) (POST_api_login (credentials ''alice'' ''wrong'')), Finish 3] = 3 \<and>
   list_all storable (table_of (crun cfg0 ref_hasher
     [Begin 0 (at_time 0) (POST_api_register (credentials ''alice'' ''p1'')),
      Begin 2 (at_time 1) (POST_api_register (credentials ''bob'' ''hunter2'')),
      Finish 2, Finish 0,
      Begin 3 (at_time 5) (POST_api_login (credentials ''alice'' ''wrong'')), Finish 3]
     (start create_app)))"
  using crun_storable [of
      "[Begin 0 (at_time 0) (POST_api_register (credentials ''alice'' ''p1'')),
        Begin 2 (at_time 1) (POST_api_register (credentials ''bob'' ''hunter2'')),
        Finish 2, Finish 0,
        Begin 3 (at_time 5) (POST_api_login (credentials ''alice'' ''wrong'')), Finish 3]"
      cfg0 ref_hasher]
  by (simp del: crun.simps)

end
