(* ===== verification/Enumeration.thy ===== *)
theory Enumeration
  imports App
begin

text \<open>
  What the answers of the login route tell about whether a user name is
  registered. A single failed login is answered alike for an unknown name
  and for a wrong password, as the specification asks. The lockout is not
  silent, though: a name that is registered answers 403 sooner or later,
  and a name that is not never does. The theorem shows that as many wrong
  logins as the threshold decide the question.
\<close>

section \<open>Logins for a name that is not registered\<close>

lemma unknown_logins:
  assumes "query_first_by_username table name = None"
  shows "snd (run cfg H (login_events name attempts) table) = table \<and>
     list_all (\<lambda>r. status r \<in> {400, 401}) (fst (run cfg H (login_events name attempts) table))"
proof (induction attempts)
  case Nil
  show ?case by simp
next
  case (Cons a attempts)
  have "api_login cfg H (clock_of (fst a)) (credentials name (snd a)) table =
      (error_response ''Username and password are required'' 400, table) \<or>
    api_login cfg H (clock_of (fst a)) (credentials name (snd a)) table =
      (error_response ''Invalid credentials'' 401, table)"
    using assms
    by (cases rule: api_login_cases [where data = "credentials name (snd a)" and table = table
          and clk = "clock_of (fst a)" and H = H and cfg = cfg])
      (auto simp: api_login_invalid api_login_unknown)
  with Cons.IH show ?case by (auto simp: run_Cons)
qed

section \<open>Wrong logins for a name that is registered\<close>

text \<open>
  Whatever the clock reads at each attempt: the account is locked and
  answers 403, or the attempt counts, and the counter cannot pass the
  threshold without a 403.
\<close>

lemma registered_logins:
  assumes "table_ok table" and "name \<noteq> []"
    and "query_first_by_username table name = Some u"
    and "list_all (\<lambda>a. snd a \<noteq> [] \<and> \<not> check_password H u (snd a)) attempts"
    and "attempts \<noteq> []"
    and "LOCKOUT_ATTEMPTS cfg \<le> failed_login_attempts u + int (length attempts)"
  shows "403 \<in> set (map status (fst (run cfg H (login_events name attempts) table)))"
  using assms
proof (induction attempts arbitrary: table u)
  case Nil
  then show ?case by simp
next
  case (Cons a attempts)
  let ?data = "credentials name (snd a)"
  from Cons.prems have c: "has_credentials ?data name (snd a)" by simp
  show ?case
  proof (cases rule: api_login_cases [where data = ?data and table = table
        and clk = "clock_of (fst a)" and H = H and cfg = cfg])
    case (wrong n p v)
    with c Cons.prems have v: "n = name" "p = snd a" "v = u" by auto
    let ?u1 = "u\<lparr>failed_login_attempts := failed_login_attempts u + 1\<rparr>"
    let ?t1 = "session_commit table ?u1"
    from wrong v have step: "api_login cfg H (clock_of (fst a)) ?data table =
        (error_response ''Invalid credentials'' 401, ?t1)"
      by (simp add: api_login_wrong)
    from Cons.prems have u: "u \<in> set table" "username u = name"
      by (auto dest: query_first_SomeD)
    with Cons.prems have t1: "table_ok ?t1" "query_first_by_username ?t1 name = Some ?u1"
      by (simp_all add: session_commit_table_ok query_first_session_commit)
    from wrong v Cons.prems have "attempts \<noteq> []"
      "LOCKOUT_ATTEMPTS cfg \<le> failed_login_attempts ?u1 + int (length attempts)"
      "list_all (\<lambda>a. snd a \<noteq> [] \<and> \<not> check_password H ?u1 (snd a)) attempts"
      by (auto simp: check_password_def)
    from Cons.IH [OF t1(1) Cons.prems(2) t1(2) this(3,1,2)] step show ?thesis
      by (simp add: run_Cons)
  qed (use c Cons.prems in \<open>auto simp: run_Cons api_login_invalid api_login_branches
        dest: has_credentials_valid has_credentials_unique\<close>)
qed

section \<open>The lockout tells whether a name is registered\<close>

text \<open>
  Claim C14. As many logins with wrong passwords as the threshold tell
  whether a user name is registered, whatever the state of the account and
  whenever the attempts are made: one of them is answered 403 exactly when
  the name is in the table. For an unknown name every answer is 401 and the
  table stays as it is.
\<close>
theorem lockout_reveals_username:
  assumes "table_ok table" and "name \<noteq> []" and "attempts \<noteq> []"
    and "LOCKOUT_ATTEMPTS cfg \<le> int (length attempts)"
    and "list_all (\<lambda>a. snd a \<noteq> []) attempts"
    and "\<forall>u. query_first_by_username table name = Some u \<longrightarrow>
           0 \<le> failed_login_attempts u \<and>
           list_all (\<lambda>a. \<not> check_password H u (snd a)) attempts"
  shows "403 \<in> set (map status (fst (run cfg H (login_events name attempts) table))) \<longleftrightarrow>
         query_first_by_username table name \<noteq> None"
proof (cases "query_first_by_username table name")
  case None
  from unknown_logins [OF None, of cfg H attempts] None show ?thesis
    by (auto simp: list_all_iff)
next
  case (Some u)
  with assms have "list_all (\<lambda>a. snd a \<noteq> [] \<and> \<not> check_password H u (snd a)) attempts"
    "LOCKOUT_ATTEMPTS cfg \<le> failed_login_attempts u + int (length attempts)"
    by (auto simp: list_all_iff)
  from registered_logins [OF assms(1,2) Some this(1) assms(3) this(2)] Some
  show ?thesis by simp
qed

theorem lockout_reveals_username_witness:
  "403 \<in> set (map status (fst (run cfg0 ref_hasher
      (login_events ''alice'' [(at_time 5, ''a''), (at_time 6, ''b''), (at_time 7, ''c'')])
      [alice, bob]))) \<and>
   403 \<notin> set (map status (fst (run cfg0 ref_hasher
      (login_events ''carol'' [(at_time 5, ''a''), (at_time 6, ''b''), (at_time 7, ''c'')])
      [alice, bob])))"
  using lockout_reveals_username [where table = "[alice, bob]" and name = "''alice''"
      and cfg = cfg0 and H = ref_hasher
      and attempts = "[(at_time 5, ''a''), (at_time 6, ''b''), (at_time 7, ''c'')]"]
    lockout_reveals_username [where table = "[alice, bob]" and name = "''carol''"
      and cfg = cfg0 and H = ref_hasher
      and attempts = "[(at_time 5, ''a''), (at_time 6, ''b''), (at_time 7, ''c'')]"]
  by (simp del: login_events_simps)

end
