(* ===== verification/Hash_Secrecy.thy ===== *)
theory Hash_Secrecy
  imports App
begin

text \<open>
  What the responses tell about the stored password hashes. Two rows are
  alike when they agree on every column but the hash and their hashes
  verify the same passwords; two tables are alike when their rows are, in
  order. The theory shows that a request is answered the same on tables
  that are alike and leaves them alike, so that the responses of a run
  depend on the hashes only through the passwords they verify.
\<close>

section \<open>Rows and tables that are alike\<close>

definition alike :: "'s hasher \<Rightarrow> user \<Rightarrow> user \<Rightarrow> bool" where
  "alike H u u' \<longleftrightarrow>
     user_id u = user_id u' \<and> username u = username u' \<and>
     failed_login_attempts u = failed_login_attempts u' \<and>
     lockout_until u = lockout_until u' \<and>
     (\<forall>p. check_password H u p = check_password H u' p)"

definition alike_tables :: "'s hasher \<Rightarrow> db \<Rightarrow> db \<Rightarrow> bool" where
  "alike_tables H table table' = list_all2 (alike H) table table'"

section \<open>The table operations on tables that are alike\<close>

lemma alike_refl [simp]: "alike H u u"
  by (simp add: alike_def)

lemma alike_tables_refl [simp]: "alike_tables H table table"
  by (simp add: alike_tables_def list_all2_refl)

lemma alike_sym: "alike H u u' \<Longrightarrow> alike H u' u"
  by (simp add: alike_def)

lemma alike_trans: "alike H u u' \<Longrightarrow> alike H u' u'' \<Longrightarrow> alike H u u''"
  by (simp add: alike_def)

lemma alike_tables_sym: "alike_tables H table table' \<Longrightarrow> alike_tables H table' table"
  unfolding alike_tables_def list_all2_conv_all_nth by (auto intro: alike_sym)

lemma alike_tables_trans:
  "alike_tables H t t' \<Longrightarrow> alike_tables H t' t'' \<Longrightarrow> alike_tables H t t''"
  unfolding alike_tables_def by (rule list_all2_trans) (auto intro: alike_trans)

text \<open>
  Tables that are alike are the tables that differ in the hashes only, by
  hashes that verify the same passwords.
\<close>

lemma alike_tables_rehash:
  assumes "\<And>u p. u \<in> set table \<Longrightarrow>
      check_password_hash H (h u) p = check_password_hash H (password_hash u) p"
  shows "alike_tables H table (map (\<lambda>u. u\<lparr>password_hash := h u\<rparr>) table)"
  using assms
  by (auto simp: alike_tables_def list_all2_map2 alike_def check_password_def
      intro!: list_all2_same [THEN iffD2])

text \<open>
  With a complete and sound hasher, two hashes of one password are alike
  whatever their salts.
\<close>

lemma alike_salts:
  assumes "hasher_complete H" and "hasher_sound H"
  shows "alike H (u\<lparr>password_hash := generate_password_hash H salt p\<rparr>)
     (u\<lparr>password_hash := generate_password_hash H salt' p\<rparr>)"
  using assms by (simp add: alike_def check_password_def hasher_check_iff)

lemma alike_update:
  "alike H u u' \<Longrightarrow>
   alike H (u\<lparr>failed_login_attempts := n, lockout_until := l\<rparr>)
     (u'\<lparr>failed_login_attempts := n, lockout_until := l\<rparr>)"
  "alike H u u' \<Longrightarrow>
   alike H (u\<lparr>failed_login_attempts := n\<rparr>) (u'\<lparr>failed_login_attempts := n\<rparr>)"
  "alike H u u' \<Longrightarrow> alike H (reset_row H salt new u) (reset_row H salt new u')"
  by (simp_all add: alike_def check_password_def reset_row_def set_password_def)

lemma alike_query:
  assumes "alike_tables H table table'"
  shows "rel_option (alike H) (query_first_by_username table name)
     (query_first_by_username table' name)"
  using assms unfolding alike_tables_def
  by (induction rule: list_all2_induct) (auto simp: alike_def)

lemma alike_query_cases [consumes 1, case_names absent present]:
  assumes "alike_tables H table table'"
  obtains (absent) "query_first_by_username table name = None"
      "query_first_by_username table' name = None"
  | (present) u u' where "query_first_by_username table name = Some u"
      "query_first_by_username table' name = Some u'" "alike H u u'"
  using alike_query [OF assms, of name] by (auto elim: option.rel_cases)

lemma alike_session_commit:
  assumes "alike_tables H table table'" and "alike H v v'"
  shows "alike_tables H (session_commit table v) (session_commit table' v')"
  using assms unfolding alike_tables_def
  by (induction rule: list_all2_induct) (auto simp: alike_def)

lemma alike_next_id:
  assumes "alike_tables H table table'"
  shows "next_id table = next_id table'"
  using assms unfolding alike_tables_def next_id_def max_id_def
  by (induction rule: list_all2_induct) (auto simp: alike_def)

lemma alike_append:
  "alike_tables H table table' \<Longrightarrow> alike H u u' \<Longrightarrow>
   alike_tables H (table @ [u]) (table' @ [u'])"
  by (simp add: alike_tables_def list_all2_appendI)

lemma alikeD:
  assumes "alike H u u'"
  shows "is_locked u now = is_locked u' now" and "check_password H u p = check_password H u' p"
    and "locked_response u = locked_response u'"
    and "failed_login_attempts u = failed_login_attempts u'"
  using assms by (simp_all add: alike_def is_locked_def locked_response_def
      lockout_until_isoformat_def)

lemma alike_listing:
  assumes "alike_tables H table table'"
  shows "api_get_users clk table = api_get_users clk table'"
proof -
  have "map (\<lambda>(i, u). user_entry u (clk i)) (enumerate n table) =
      map (\<lambda>(i, u). user_entry u (clk i)) (enumerate n table')" for n
    using assms unfolding alike_tables_def
    by (induction arbitrary: n rule: list_all2_induct)
      (auto simp: user_entry_def alike_def is_locked_def)
  then show ?thesis by (simp add: api_get_users_def query_all_def)
qed

section \<open>The handlers on tables that are alike\<close>

lemma alike_login:
  assumes "alike_tables H table table'"
  shows "fst (api_login cfg H clk data table) = fst (api_login cfg H clk data table') \<and>
    alike_tables H (snd (api_login cfg H clk data table)) (snd (api_login cfg H clk data table'))"
proof (cases "py_not (data ''username'') \<or> py_not (data ''password'')")
  case True
  with assms show ?thesis by (simp add: api_login_invalid)
next
  case False
  then have c: "has_credentials data (py_str (data ''username'')) (py_str (data ''password''))"
    by (rule credentials_of_valid)
  from assms show ?thesis
  proof (cases rule: alike_query_cases [where name = "py_str (data ''username'')"])
    case absent
    with assms show ?thesis by (simp add: api_login_valid [OF c])
  next
    case (present u u')
    with assms show ?thesis
      by (simp add: api_login_valid [OF c] alikeD [OF present(3)] alike_session_commit
          alike_update)
  qed
qed

lemma alike_reset:
  assumes "alike_tables H table table'"
  shows "fst (api_reset_password H salt clk data table) =
      fst (api_reset_password H salt clk data table') \<and>
    alike_tables H (snd (api_reset_password H salt clk data table))
      (snd (api_reset_password H salt clk data table'))"
proof (cases "py_all [data ''username'', data ''old_password'', data ''new_password'']")
  case False
  with assms show ?thesis by (simp add: api_reset_invalid)
next
  case True
  then have c: "has_reset_fields data (py_str (data ''username''))
      (py_str (data ''old_password'')) (py_str (data ''new_password''))"
    by (rule reset_fields_of_valid)
  from assms show ?thesis
  proof (cases rule: alike_query_cases [where name = "py_str (data ''username'')"])
    case absent
    with assms show ?thesis by (simp add: api_reset_valid [OF c])
  next
    case (present u u')
    with assms show ?thesis
      by (simp add: api_reset_valid [OF c] alikeD [OF present(3)] alike_session_commit
          alike_update)
  qed
qed

lemma alike_register:
  assumes "alike_tables H table table'"
  shows "\<exists>r t t'. api_register H salt data table = Inr (r, t) \<and>
     api_register H salt data table' = Inr (r, t') \<and> alike_tables H t t'"
proof (cases "py_not (data ''username'') \<or> py_not (data ''password'')")
  case True
  with assms show ?thesis by (simp add: api_register_invalid)
next
  case False
  then have c: "has_credentials data (py_str (data ''username'')) (py_str (data ''password''))"
    by (rule credentials_of_valid)
  from assms show ?thesis
  proof (cases rule: alike_query_cases [where name = "py_str (data ''username'')"])
    case absent
    with assms show ?thesis
      by (simp add: api_register_valid [OF c] registered_row_def alike_next_id [of H table table']
          alike_append)
  next
    case (present u u')
    with assms show ?thesis by (simp add: api_register_valid [OF c])
  qed
qed

section \<open>Requests and runs\<close>

lemma alike_handle:
  assumes "alike_tables H table table'"
  shows "fst (handle cfg H e rq table) = fst (handle cfg H e rq table') \<and>
    alike_tables H (snd (handle cfg H e rq table)) (snd (handle cfg H e rq table'))"
proof (cases rq)
  case (POST_api_register data)
  with alike_register [OF assms, of "salt_of e" data] show ?thesis
    by (auto simp: handle_def)
next
  case (POST_api_login data)
  with alike_login [OF assms] show ?thesis by simp
next
  case GET_api_users
  with assms show ?thesis by (simp add: alike_listing [of H table table'])
next
  case (POST_api_reset data)
  with alike_reset [OF assms] show ?thesis by simp
qed (use assms in simp_all)

text \<open>
  Claim C39. The responses tell nothing about the stored hashes but which
  passwords they verify: on two tables that agree on every column but the
  hash, and whose hashes verify the same passwords, every run of requests
  is answered the same, response by response, and leaves tables that agree
  in the same way. In particular neither the salt of a stored hash nor any
  other part of it can be learnt from the responses.
\<close>
theorem run_hides_hashes:
  assumes "alike_tables H table table'"
  shows "fst (run cfg H evs table) = fst (run cfg H evs table') \<and>
    alike_tables H (snd (run cfg H evs table)) (snd (run cfg H evs table'))"
  using assms
proof (induction evs arbitrary: table table')
  case Nil
  then show ?case by simp
next
  case (Cons ev evs)
  from alike_handle [OF Cons.prems, of cfg "fst ev" "snd ev"] Cons.IH show ?case
    by (simp add: run_Cons)
qed

theorem run_hides_hashes_witness:
  "alike_tables ref_hasher [alice, bob] [alice\<lparr>password_hash := ref_generate 99 ''p1''\<rparr>, bob] \<and>
   map status (fst (run cfg0 ref_hasher
     [(at_time 5, POST_api_login (credentials ''alice'' ''guess'')),
      (at_time 6, POST_api_login (credentials ''alice'' ''p1'')), (at_time 7, GET_api_users)]
     [alice\<lparr>password_hash := ref_generate 99 ''p1''\<rparr>, bob])) = [401, 200, 200]"
proof -
  have a: "alike_tables ref_hasher [alice, bob]
      [alice\<lparr>password_hash := ref_generate 99 ''p1''\<rparr>, bob]"
    by (simp add: alike_tables_def alike_def check_password_def)
  let ?evs = "[(at_time 5, POST_api_login (credentials ''alice'' ''guess'')),
      (at_time 6, POST_api_login (credentials ''alice'' ''p1'')), (at_time 7, GET_api_users)]"
  from run_hides_hashes [OF a, of cfg0 ?evs]
  have "fst (run cfg0 ref_hasher ?evs [alice\<lparr>password_hash := ref_generate 99 ''p1''\<rparr>, bob]) =
      fst (run cfg0 ref_hasher ?evs [alice, bob])"
    by simp
  moreover have "map status (fst (run cfg0 ref_hasher ?evs [alice, bob])) = [401, 200, 200]"
    by (simp add: run_Cons api_login_credentials)
  ultimately show ?thesis using a by simp
qed

end
