(* ===== verification/Store_Failure.thy ===== *)
theory Store_Failure
  imports Overlapping_Requests
begin

text \<open>
  Requests during a failure of the store. No view of \<^verbatim>\<open>src/app.py\<close> catches
  an exception, so when a statement raises \<open>OperationalError\<close> (the
  database file cannot be opened, or SQLite reports it locked at the write)
  the exception leaves the view, Flask answers 500 and the session is
  discarded with what the view changed in memory. Every view issues one
  \<^verbatim>\<open>SELECT\<close>, after it has validated the body, and at most one commit, so a
  failure meets a request at one of these two statements or not at all.
  The theory defines the handler and the run under such failures and shows
  that a request that fails leaves no trace in the table: this is the
  requirement on \<open>StoreError\<close> in sections 4.1 and 7 of the specification.
\<close>

section \<open>Requests and failing statements\<close>

text \<open>The statement that raises while a request is served.\<close>

datatype fault = Select_fails | Commit_fails

text \<open>
  The requests that reach their \<^verbatim>\<open>SELECT\<close>: the listing, and a JSON route
  whose body passes the validation. The page routes and the requests
  answered 400 do not touch the store.
\<close>

definition queries :: "request \<Rightarrow> bool" where
  "queries rq =
     (case rq of
        POST_api_register data \<Rightarrow> \<not> (py_not (data ''username'') \<or> py_not (data ''password''))
      | POST_api_login data \<Rightarrow> \<not> (py_not (data ''username'') \<or> py_not (data ''password''))
      | POST_api_reset data \<Rightarrow>
          py_all [data ''username'', data ''old_password'', data ''new_password'']
      | GET_api_users \<Rightarrow> True
      | _ \<Rightarrow> False)"

text \<open>
  Whether the failing statement is reached: the \<^verbatim>\<open>SELECT\<close> by the requests
  that query, the commit by the requests whose view has something to write.
\<close>

definition hit :: "config \<Rightarrow> 's hasher \<Rightarrow> 's env \<Rightarrow> fault \<Rightarrow> request \<Rightarrow> db \<Rightarrow> bool" where
  "hit cfg H e f rq table =
     (case f of
        Select_fails \<Rightarrow> queries rq
      | Commit_fails \<Rightarrow> writes (view cfg H e rq table))"

text \<open>
  One request while the statement \<open>f\<close> fails: the exception escapes the
  view where the statement is reached, and the request is served as usual
  where it is not.
\<close>

definition handle_fault ::
    "config \<Rightarrow> 's hasher \<Rightarrow> 's env \<Rightarrow> fault \<Rightarrow> request \<Rightarrow> db \<Rightarrow> response \<times> db" where
  "handle_fault cfg H e f rq table =
     (if hit cfg H e f rq table then (internal_server_error, table)
      else handle cfg H e rq table)"

text \<open>
  A run of requests, each with the failure that is present while it is
  served, if there is one; and the requests of such a run that do not fail.
\<close>

definition serve_event ::
    "config \<Rightarrow> 's hasher \<Rightarrow> fault option \<times> 's env \<times> request \<Rightarrow> db \<Rightarrow> response \<times> db" where
  "serve_event cfg H ev table =
     (case fst ev of
        None \<Rightarrow> handle cfg H (fst (snd ev)) (snd (snd ev)) table
      | Some f \<Rightarrow> handle_fault cfg H (fst (snd ev)) f (snd (snd ev)) table)"

fun run_faults ::
    "config \<Rightarrow> 's hasher \<Rightarrow> (fault option \<times> 's env \<times> request) list \<Rightarrow> db \<Rightarrow>
     response list \<times> db" where
  "run_faults cfg H [] table = ([], table)"
| "run_faults cfg H (ev # evs) table =
     (let (r, table') = serve_event cfg H ev table;
          (rs, table'') = run_faults cfg H evs table'
      in (r # rs, table''))"

definition fails :: "config \<Rightarrow> 's hasher \<Rightarrow> fault option \<times> 's env \<times> request \<Rightarrow> db \<Rightarrow> bool" where
  "fails cfg H ev table =
     (case fst ev of None \<Rightarrow> False | Some f \<Rightarrow> hit cfg H (fst (snd ev)) f (snd (snd ev)) table)"

fun completed ::
    "config \<Rightarrow> 's hasher \<Rightarrow> (fault option \<times> 's env \<times> request) list \<Rightarrow> db \<Rightarrow>
     ('s env \<times> request) list" where
  "completed cfg H [] table = []"
| "completed cfg H (ev # evs) table =
     (if fails cfg H ev table then completed cfg H evs table
      else snd ev # completed cfg H evs (snd (serve_event cfg H ev table)))"

text \<open>
  Among overlapping requests: the commit of the request in flight under the
  number \<open>i\<close> raises. The request is answered 500, its session is
  discarded and the table stays. \<open>about i a\<close> says that an action is an
  action of request \<open>i\<close>.
\<close>

definition fail_commit :: "nat \<Rightarrow> cstate \<Rightarrow> cstate" where
  "fail_commit i s =
     (case map_of (in_flight s) i of
        None \<Rightarrow> s
      | Some p \<Rightarrow>
          if writes p then
            s\<lparr>in_flight := AList.delete i (in_flight s),
              answered := answered s @ [(i, internal_server_error)]\<rparr>
          else s)"

definition about :: "nat \<Rightarrow> 's action \<Rightarrow> bool" where
  "about i a = (case a of Begin j e rq \<Rightarrow> j = i | Finish j \<Rightarrow> j = i)"

section \<open>One request\<close>

lemma handle_not_500: "status (fst (handle cfg H e rq table)) \<noteq> 500"
proof (cases rq)
  case (POST_api_register data)
  then show ?thesis
    by (cases rule: api_register_effect [where H=H and salt="salt_of e" and data=data
          and table=table]) (auto simp: handle_register)
next
  case (POST_api_login data)
  with status_api_login [of cfg H "clock_of e" data table] show ?thesis by auto
next
  case (POST_api_reset data)
  with status_api_reset [of H "salt_of e" "clock_of e" data table] show ?thesis by auto
qed simp_all

text \<open>A request that does not query leaves the table as it is.\<close>

lemma handle_no_query: "\<not> queries rq \<Longrightarrow> snd (handle cfg H e rq table) = table"
  by (cases rq)
    (auto simp: queries_def handle_def api_register_invalid api_login_invalid api_reset_invalid)

lemma handle_no_write:
  assumes "table_ok table" and "\<not> writes (view cfg H e rq table)"
  shows "snd (handle cfg H e rq table) = table"
proof -
  from assms(2) obtain r where "view cfg H e rq table = Respond r"
    by (cases "view cfg H e rq table") simp_all
  with finish_view [OF assms(1), of cfg H e rq, symmetric] show ?thesis by simp
qed

lemma handle_fault_atomic:
  assumes "table_ok table"
  shows "snd (handle_fault cfg H e f rq table) = table"
    and "status (fst (handle_fault cfg H e f rq table)) = 500 \<longleftrightarrow> hit cfg H e f rq table"
proof -
  note facts = handle_fault_def hit_def handle_no_query handle_no_write handle_not_500
    internal_server_error_def
  from assms show "snd (handle_fault cfg H e f rq table) = table"
    by (cases f) (simp_all add: facts)
  from assms show "status (fst (handle_fault cfg H e f rq table)) = 500 \<longleftrightarrow> hit cfg H e f rq table"
    by (cases f) (simp_all add: facts)
qed

section \<open>Runs\<close>

lemma run_faults_Cons:
  "fst (run_faults cfg H (ev # evs) table) =
     fst (serve_event cfg H ev table) # fst (run_faults cfg H evs (snd (serve_event cfg H ev table)))"
  "snd (run_faults cfg H (ev # evs) table) =
     snd (run_faults cfg H evs (snd (serve_event cfg H ev table)))"
  by (simp_all add: split_beta)

declare run_faults.simps(2) [simp del]

lemma serve_event_cases [consumes 1, case_names failed served]:
  assumes "table_ok table"
  obtains (failed) "fails cfg H ev table" "serve_event cfg H ev table = (internal_server_error, table)"
  | (served) "\<not> fails cfg H ev table"
      "serve_event cfg H ev table = handle cfg H (fst (snd ev)) (snd (snd ev)) table"
  by (cases "fst ev") (auto simp: serve_event_def fails_def handle_fault_def)

lemma run_faults_completed:
  assumes "table_ok table"
  shows "snd (run_faults cfg H evs table) = snd (run cfg H (completed cfg H evs table) table) \<and>
    filter (\<lambda>r. status r \<noteq> 500) (fst (run_faults cfg H evs table)) =
      fst (run cfg H (completed cfg H evs table) table)"
  using assms
proof (induction evs arbitrary: table)
  case Nil
  then show ?case by simp
next
  case (Cons ev evs)
  from Cons.prems show ?case
  proof (cases rule: serve_event_cases [where cfg = cfg and H = H and ev = ev])
    case failed
    with Cons show ?thesis
      by (simp add: run_faults_Cons internal_server_error_def)
  next
    case served
    with Cons.prems Cons.IH [of "snd (handle cfg H (fst (snd ev)) (snd (snd ev)) table)"]
    show ?thesis
      by (simp add: run_faults_Cons run_Cons handle_table_ok handle_not_500)
  qed
qed

lemma length_run_faults [simp]: "length (fst (run_faults cfg H evs table)) = length evs"
  by (induction evs arbitrary: table) (simp_all add: run_faults_Cons)

lemma run_faults_table_ok: "table_ok table \<Longrightarrow> table_ok (snd (run_faults cfg H evs table))"
  by (simp add: run_faults_completed run_table_ok)

section \<open>A failed request leaves no trace\<close>



section \<open>A failed commit among overlapping requests\<close>

text \<open>
  A state with one more request in flight than another, and otherwise the
  same: the other requests take the same steps in both.
\<close>

lemma extra_step:
  assumes "table_of s' = table_of s" and "answered s' = answered s"
    and "AList.delete i (in_flight s') = in_flight s" and "map_of (in_flight s') i = Some p"
    and "\<not> about i a"
  shows "table_of (cstep cfg H a s') = table_of (cstep cfg H a s) \<and>
    answered (cstep cfg H a s') = answered (cstep cfg H a s) \<and>
    AList.delete i (in_flight (cstep cfg H a s')) = in_flight (cstep cfg H a s) \<and>
    map_of (in_flight (cstep cfg H a s')) i = Some p"
proof -
  have m: "map_of (in_flight s) j = map_of (in_flight s') j" if "j \<noteq> i" for j
    using that assms(3) [symmetric] by (simp add: delete_conv')
  show ?thesis
  proof (cases a)
    case (Begin j e rq)
    with assms m [of j] show ?thesis
      by (cases "map_of (in_flight s') j") (simp_all add: about_def cstep_simps)
  next
    case (Finish j)
    with assms m [of j] show ?thesis
      by (cases "map_of (in_flight s') j")
        (simp_all add: about_def cstep_simps delete_twist [of i j] delete_conv')
  qed
qed

lemma extra_run:
  assumes "table_of s' = table_of s" and "answered s' = answered s"
    and "AList.delete i (in_flight s') = in_flight s" and "map_of (in_flight s') i = Some p"
    and "list_all (\<lambda>a. \<not> about i a) as"
  shows "table_of (crun cfg H as s') = table_of (crun cfg H as s) \<and>
    answered (crun cfg H as s') = answered (crun cfg H as s) \<and>
    AList.delete i (in_flight (crun cfg H as s')) = in_flight (crun cfg H as s) \<and>
    map_of (in_flight (crun cfg H as s')) i = Some p"
  using assms
proof (induction as arbitrary: s s')
  case Nil
  then show ?case by simp
next
  case (Cons a as)
  from Cons.prems have "\<not> about i a" by simp
  from extra_step [OF Cons.prems(1-4) this, of cfg H] Cons.prems(5) show ?case
    by (simp add: Cons.IH)
qed

text \<open>
  A request that reads, and whose commit fails after any steps of other
  requests, leaves the state those steps alone lead to, with its 500 among
  the responses.
\<close>

lemma failed_commit_no_trace:
  assumes "map_of (in_flight s) i = None" and "writes (view cfg H e rq (table_of s))"
    and "list_all (\<lambda>a. \<not> about i a) as"
  shows "fail_commit i (crun cfg H (Begin i e rq # as) s) =
     (crun cfg H as s)\<lparr>answered := answered (crun cfg H as s) @ [(i, internal_server_error)]\<rparr>"
proof -
  let ?s' = "cstep cfg H (Begin i e rq) s"
  from assms(1) have "table_of ?s' = table_of s" "answered ?s' = answered s"
    "AList.delete i (in_flight ?s') = in_flight s"
    "map_of (in_flight ?s') i = Some (view cfg H e rq (table_of s))"
    by (simp_all add: cstep_Begin delete_fresh map_of_eq_None_iff)
  from extra_run [OF this assms(3), of cfg H] assms(2) show ?thesis
    by (simp add: fail_commit_def)
qed

end
