(* ===== verification/Startup.thy ===== *)
theory Startup
  imports Store_Failure
begin

text \<open>
  The application factory \<^verbatim>\<open>create_app\<close> of \<^verbatim>\<open>src/app.py\<close> and the main
  program, on the part of the file system they touch: the instance folder,
  which the factory creates if it can and otherwise takes as it is, and the
  SQLite database file in it, which \<^verbatim>\<open>db.create_all()\<close> creates with an
  empty \<^verbatim>\<open>users\<close> table unless the file has the table already. What the
  requests store is in that file, so it is there when the application is
  started again.
\<close>

section \<open>The file system\<close>

text \<open>
  The folders that exist, what the process may create, and the database
  files with the \<^verbatim>\<open>users\<close> table each holds. A database file without that
  table is not listed: \<^verbatim>\<open>create_all\<close> adds the table to it as it does for a
  new file, and a query on it fails.
\<close>

record filesystem =
  folders :: "string list"
  may_create :: "string \<Rightarrow> bool"
  databases :: "string \<rightharpoonup> db"

text \<open>
  \<^verbatim>\<open>os.makedirs(path)\<close>: an \<^verbatim>\<open>OSError\<close> when the folder exists and when it
  cannot be created.
\<close>

datatype os_error = FileExistsError | PermissionError

definition makedirs :: "string \<Rightarrow> filesystem \<Rightarrow> os_error + filesystem" where
  "makedirs path fs =
     (if path \<in> set (folders fs) then Inl FileExistsError
      else if \<not> may_create fs path then Inl PermissionError
      else Inr (fs\<lparr>folders := folders fs @ [path]\<rparr>))"

text \<open>
  The \<^verbatim>\<open>try\<close> statement of the factory: every \<^verbatim>\<open>OSError\<close> is passed over.
\<close>

definition ensure_instance_folder :: "string \<Rightarrow> filesystem \<Rightarrow> filesystem" where
  "ensure_instance_folder path fs =
     (case makedirs path fs of Inl e \<Rightarrow> fs | Inr fs' \<Rightarrow> fs')"

text \<open>
  \<^verbatim>\<open>db.create_all()\<close> on the database file \<open>file\<close> of the folder \<open>path\<close>:
  the table that is there stays; a new file needs the folder and the right
  to create the file, and SQLite raises \<open>OperationalError\<close> without them.
\<close>

definition create_all :: "string \<Rightarrow> string \<Rightarrow> filesystem \<Rightarrow> filesystem raises" where
  "create_all path file fs =
     (case databases fs file of
        Some table \<Rightarrow> Inr fs
      | None \<Rightarrow>
          if path \<in> set (folders fs) \<and> may_create fs file
          then Inr (fs\<lparr>databases := (databases fs)(file \<mapsto> create_app)\<rparr>)
          else Inl OperationalError)"

section \<open>The factory\<close>

text \<open>
  The application object: its configuration and its instance folder. The
  database extension reads the location of the database from the
  configuration: the path after the scheme of the URI.
\<close>

record application =
  settings :: config
  instance_path :: string

definition database_uri :: "string \<Rightarrow> string" where
  "database_uri path = ''sqlite:///'' @ path_join path ''app.db''"

definition database_file :: "application \<Rightarrow> string" where
  "database_file app = drop (length ''sqlite:///'') (SQLALCHEMY_DATABASE_URI (settings app))"

text \<open>
  \<^verbatim>\<open>create_app(config_class)\<close> for an application whose instance folder is
  \<open>path\<close>: the configuration is taken from the class and the location of
  the database replaced, the folder is made, the extensions are bound and
  the table is created. An exception of \<^verbatim>\<open>create_all\<close> leaves the factory.
\<close>

definition create_app_with ::
    "config \<Rightarrow> string \<Rightarrow> filesystem \<Rightarrow> (application \<times> filesystem) raises" where
  "create_app_with config_class path fs =
     (let app = \<lparr>settings = config_class\<lparr>SQLALCHEMY_DATABASE_URI := database_uri path\<rparr>,
                 instance_path = path\<rparr>;
          fs1 = ensure_instance_folder path fs
      in case create_all path (database_file app) fs1 of
           Inl e \<Rightarrow> Inl e
         | Inr fs2 \<Rightarrow> Inr (app, fs2))"

text \<open>
  \<^verbatim>\<open>app.run\<close>: the requests are served one after the other on the table of
  the database file, and what they commit is in the file afterwards. When
  the file has no table every query fails.
\<close>

definition app_run ::
    "'s hasher \<Rightarrow> application \<Rightarrow> ('s env \<times> request) list \<Rightarrow> filesystem \<Rightarrow>
     response list \<times> filesystem" where
  "app_run H app evs fs =
     (case databases fs (database_file app) of
        None \<Rightarrow>
          (fst (run_faults (settings app) H (map (\<lambda>ev. (Some Select_fails, ev)) evs) []), fs)
      | Some table \<Rightarrow>
          (let (rs, table') = run (settings app) H evs table
           in (rs, fs\<lparr>databases := (databases fs)(database_file app \<mapsto> table')\<rparr>)))"

text \<open>
  The main program: the configuration class is evaluated when \<^verbatim>\<open>config.py\<close>
  is imported, after \<^verbatim>\<open>load_dotenv()\<close>; then the application is made and
  run.
\<close>

definition main ::
    "'s hasher \<Rightarrow> environ \<Rightarrow> environ \<Rightarrow> string \<Rightarrow> ('s env \<times> request) list \<Rightarrow> filesystem \<Rightarrow>
     (response list \<times> filesystem) raises" where
  "main H dotenv env path evs fs =
     (case create_app_with (Config (load_dotenv dotenv env)) path fs of
        Inl e \<Rightarrow> Inl e
      | Inr (app, fs') \<Rightarrow> Inr (app_run H app evs fs'))"

text \<open>
  A file system on which the factory succeeds: the database is there, or
  the folder is there or can be made and the file can be created in it.
\<close>

definition startable :: "string \<Rightarrow> filesystem \<Rightarrow> bool" where
  "startable path fs \<longleftrightarrow>
     databases fs (path_join path ''app.db'') \<noteq> None \<or>
     (path \<in> set (folders fs) \<or> may_create fs path) \<and> may_create fs (path_join path ''app.db'')"

text \<open>
  For the examples: a file system with nothing on it and every right, one
  with no right, and the instance folder \<^verbatim>\<open>/srv/instance\<close>.
\<close>

definition fs_new :: filesystem where
  "fs_new = \<lparr>folders = [], may_create = (\<lambda>p. True), databases = Map.empty\<rparr>"

definition fs_readonly :: filesystem where
  "fs_readonly = \<lparr>folders = [], may_create = (\<lambda>p. False), databases = Map.empty\<rparr>"

definition app0 :: application where
  "app0 = \<lparr>settings = cfg0\<lparr>SQLALCHEMY_DATABASE_URI := database_uri ''/srv/instance''\<rparr>,
            instance_path = ''/srv/instance''\<rparr>"

definition fs_started :: filesystem where
  "fs_started = \<lparr>folders = [''/srv/instance''], may_create = (\<lambda>p. True),
                  databases = [''/srv/instance/app.db'' \<mapsto> []]\<rparr>"

section \<open>Lemmas\<close>

lemma ensure_instance_folder_sel [simp]:
  "databases (ensure_instance_folder path fs) = databases fs"
  "may_create (ensure_instance_folder path fs) = may_create fs"
  "path \<in> set (folders (ensure_instance_folder path fs)) \<longleftrightarrow>
     path \<in> set (folders fs) \<or> may_create fs path"
  by (auto simp: ensure_instance_folder_def makedirs_def)

lemma ensure_instance_folder_idem:
  "path \<in> set (folders fs) \<Longrightarrow> ensure_instance_folder path fs = fs"
  by (simp add: ensure_instance_folder_def makedirs_def)

lemma database_file_app [simp]:
  "database_file \<lparr>settings = cfg\<lparr>SQLALCHEMY_DATABASE_URI := database_uri path\<rparr>,
     instance_path = p\<rparr> = path_join path ''app.db''"
  by (simp add: database_file_def database_uri_def)

lemma create_app_with_cases [case_names started failed]:
  obtains (started) app fs' where "startable path fs"
      "create_app_with config_class path fs = Inr (app, fs')"
      "settings app = config_class\<lparr>SQLALCHEMY_DATABASE_URI := database_uri path\<rparr>"
      "instance_path app = path" "database_file app = path_join path ''app.db''"
      "fs' = (ensure_instance_folder path fs)\<lparr>databases :=
         (databases fs)(path_join path ''app.db'' \<mapsto>
           (case databases fs (path_join path ''app.db'') of None \<Rightarrow> [] | Some t \<Rightarrow> t))\<rparr>"
  | (failed) "\<not> startable path fs"
      "create_app_with config_class path fs = Inl OperationalError"
proof (cases "startable path fs")
  case True
  then show ?thesis
    by (intro started) (auto simp: startable_def create_app_with_def create_all_def Let_def
        create_app_def fun_upd_idem split: option.split)
next
  case False
  then show ?thesis
    by (intro failed) (auto simp: startable_def create_app_with_def create_all_def Let_def
        split: option.split)
qed


lemma ensure_instance_folder_twice [simp]:
  "ensure_instance_folder path (ensure_instance_folder path fs) = ensure_instance_folder path fs"
  by (simp add: ensure_instance_folder_def makedirs_def)

text \<open>
  Starting on a file system that holds the database leaves it as it is, but
  for the folder.
\<close>

lemma create_app_with_present:
  assumes "databases fs (path_join path ''app.db'') = Some table"
  shows "create_app_with config_class path fs =
     Inr (\<lparr>settings = config_class\<lparr>SQLALCHEMY_DATABASE_URI := database_uri path\<rparr>,
            instance_path = path\<rparr>, ensure_instance_folder path fs)"
  using assms by (simp add: create_app_with_def create_all_def Let_def)

lemma app_run_present:
  assumes "databases fs (database_file app) = Some table"
  shows "app_run H app evs fs =
     (fst (run (settings app) H evs table),
      fs\<lparr>databases := (databases fs)(database_file app \<mapsto> snd (run (settings app) H evs table))\<rparr>)"
  using assms by (simp add: app_run_def split_beta)

lemma started_database:
  assumes "create_app_with config_class path fs = Inr (app, fs')"
  shows "\<exists>table. databases fs' (database_file app) = Some table"
    and "ensure_instance_folder path fs' = fs'"
    and "app = \<lparr>settings = config_class\<lparr>SQLALCHEMY_DATABASE_URI := database_uri path\<rparr>,
            instance_path = path\<rparr>"
proof -
  let ?file = "path_join path ''app.db''"
  let ?app = "\<lparr>settings = config_class\<lparr>SQLALCHEMY_DATABASE_URI := database_uri path\<rparr>,
            instance_path = path\<rparr>"
  let ?fs1 = "ensure_instance_folder path fs"
  from assms have c: "create_all path ?file ?fs1 = Inr fs'" and a: "app = ?app"
    by (auto simp: create_app_with_def Let_def split: sum.splits)
  from c have "(\<exists>table. databases fs' ?file = Some table) \<and> folders fs' = folders ?fs1 \<and>
      may_create fs' = may_create ?fs1"
    by (auto simp: create_all_def split: option.splits if_splits)
  moreover have "ensure_instance_folder path fs' = fs'"
    if "folders fs' = folders ?fs1" "may_create fs' = may_create ?fs1"
    using that by (auto simp: ensure_instance_folder_def makedirs_def)
  ultimately show "\<exists>table. databases fs' (database_file app) = Some table"
    and "ensure_instance_folder path fs' = fs'" and "app = ?app"
    using a by simp_all
qed

text \<open>The main program fails where the factory does, and runs otherwise.\<close>

lemma main_cases:
  "main H dotenv env path evs fs =
     (if startable path fs
      then Inr (app_run H (fst (projr (create_app_with (Config (load_dotenv dotenv env)) path fs)))
             evs (snd (projr (create_app_with (Config (load_dotenv dotenv env)) path fs))))
      else Inl OperationalError)"
  by (cases rule: create_app_with_cases [of path fs "Config (load_dotenv dotenv env)"])
    (simp_all add: main_def)

text \<open>The state invariant of the table in the file is kept by a run.\<close>

lemma app_run_db_ok:
  assumes "databases fs (database_file app) = Some table" and "db_ok (settings app) table"
  shows "\<exists>table'. databases (snd (app_run H app evs fs)) (database_file app) = Some table' \<and>
     db_ok (settings app) table'"
  using assms by (simp add: app_run_present run_db_ok)

section \<open>Starting\<close>

text \<open>
  Claim C40. The factory succeeds exactly on a file system on which the
  database is there or can be made: then the database file holds the table
  it held before, or the empty table if it is new, the application runs
  with threshold 3 and a lockout of two minutes whatever the environment
  and the \<^verbatim>\<open>.env\<close> file say, and starting again changes nothing. Otherwise
  the factory raises \<open>OperationalError\<close>: the error of making the folder
  was passed over, and the failure shows when the table is created.
\<close>
theorem create_app_starts:
  "(startable path fs \<longrightarrow>
      (\<exists>app fs'. create_app_with (Config (load_dotenv dotenv env)) path fs = Inr (app, fs') \<and>
         databases fs' (database_file app) =
           Some (case databases fs (path_join path ''app.db'') of None \<Rightarrow> [] | Some t \<Rightarrow> t) \<and>
         LOCKOUT_ATTEMPTS (settings app) = 3 \<and> LOCKOUT_DURATION_MINUTES (settings app) = 2 \<and>
         config_ok (settings app) \<and>
         create_app_with (Config (load_dotenv dotenv env)) path fs' = Inr (app, fs'))) \<and>
   (\<not> startable path fs \<longrightarrow>
      create_app_with (Config (load_dotenv dotenv env)) path fs = Inl OperationalError)"
proof (cases rule: create_app_with_cases [of path fs "Config (load_dotenv dotenv env)"])
  case (started app fs')
  from started(2) have "ensure_instance_folder path fs' = fs'"
    and "app = \<lparr>settings = (Config (load_dotenv dotenv env))
             \<lparr>SQLALCHEMY_DATABASE_URI := database_uri path\<rparr>, instance_path = path\<rparr>"
    by (rule started_database)+
  moreover from started have "databases fs' (database_file app) =
      Some (case databases fs (path_join path ''app.db'') of None \<Rightarrow> [] | Some t \<Rightarrow> t)"
    by simp
  ultimately have "create_app_with (Config (load_dotenv dotenv env)) path fs' = Inr (app, fs')"
    using started(5) by (simp add: create_app_with_present)
  with started show ?thesis by (simp add: config_ok_def)
next
  case failed
  then show ?thesis by simp
qed

theorem create_app_starts_witness:
  "startable ''/srv/instance'' fs_new \<and>
   create_app_with (Config (load_dotenv Map.empty Map.empty)) ''/srv/instance'' fs_new =
     Inr (app0, fs_started) \<and>
   \<not> startable ''/srv/instance'' fs_readonly \<and>
   create_app_with (Config (load_dotenv Map.empty Map.empty)) ''/srv/instance'' fs_readonly =
     Inl OperationalError"
proof -
  have a: "startable ''/srv/instance'' fs_new" and b: "\<not> startable ''/srv/instance'' fs_readonly"
    by (simp_all add: startable_def fs_new_def fs_readonly_def)
  have "create_app_with (Config (load_dotenv Map.empty Map.empty)) ''/srv/instance'' fs_new =
     Inr (app0, fs_started)"
    by (simp add: create_app_with_def create_all_def ensure_instance_folder_def makedirs_def
        fs_new_def fs_started_def app0_def cfg0_def path_join_def create_app_def Let_def)
  with create_app_starts [of "''/srv/instance''" fs_readonly Map.empty Map.empty] a b
  show ?thesis by simp
qed

section \<open>Starting again\<close>



lemma app0_sel [simp]:
  "settings app0 = cfg0\<lparr>SQLALCHEMY_DATABASE_URI := database_uri ''/srv/instance''\<rparr>"
  "database_file app0 = ''/srv/instance/app.db''"
  by (simp_all add: app0_def path_join_def)


end
