(* ===== verification/Spec2Isabelle.thy ===== *)
theory Spec2Isabelle
  imports Auth_Prelude Config Hashing Http User_Model User_Store Auth_Invariant
    Auth_Examples Login Register Reset App Lockout_Spec Trace_Refinement Credentials
    Concurrency Overlapping_Requests Serializability Concurrent_Credentials Drain
    Request_Body Responses Column_Bounds Concurrent_Bounds Enumeration Hash_Secrecy
    Store_Failure Startup
begin

text \<open>
  \<^bold>\<open>AuthCore: a verified model of the account-lockout service.\<close>

  AuthCore is a small credential service written with Flask, Flask-SQLAlchemy
  and Flask-Bcrypt. \<^verbatim>\<open>src/config.py\<close> holds the settings, \<^verbatim>\<open>src/models.py\<close>
  the \<^verbatim>\<open>User\<close> class and the two extension objects, \<^verbatim>\<open>src/app.py\<close> the
  application factory with five page routes and four JSON routes. The JSON
  routes are the program: \<^verbatim>\<open>api_register\<close> creates a user, \<^verbatim>\<open>api_login\<close>
  checks a password and runs the lockout state machine (count failures, lock
  at the threshold, refuse while locked, reset on success),
  \<^verbatim>\<open>api_reset_password\<close> changes a password, \<^verbatim>\<open>api_get_users\<close> lists the
  users. Every handler is one read-modify-write on the \<^verbatim>\<open>users\<close> table.

  \<^bold>\<open>How the model is built.\<close> Each Python function is an Isabelle definition
  with the same name that computes the same result; effects are made
  arguments and results:
  \<^item> the table is a value that a handler takes and returns (\<open>db\<close>, the list of
    rows in insertion order);
  \<^item> the clock is an argument: a \<open>clock\<close> gives the successive readings of
    \<^verbatim>\<open>datetime.utcnow()\<close> during one request (\<open>clk 0\<close> inside \<^verbatim>\<open>is_locked\<close>,
    \<open>clk 1\<close> where \<^verbatim>\<open>api_login\<close> computes a new lockout time; reading \<open>i\<close>
    for the \<open>i\<close>-th user of the listing). Times are integers counting
    microseconds;
  \<^item> the randomness of bcrypt is an argument, the \<open>salt\<close>;
  \<^item> an exception is a value: a handler that can raise returns \<open>exn + _\<close>
    with \<open>Inl\<close> for the exception (the \<^verbatim>\<open>INSERT\<close> of a registration can,
    \<^verbatim>\<open>data.get\<close> on a body that is no dict, and \<^verbatim>\<open>db.create_all()\<close> when
    the database file cannot be opened);
  \<^item> the file system is a value that the factory takes and returns (the
    folders, what may be created, and the table of each database file);
  \<^item> Python's unbounded integers are \<open>int\<close>; \<^verbatim>\<open>None\<close>-or-value is
    \<open>option\<close>; a Python string is a \<open>string\<close>, the list of the bytes of
    its UTF-8 encoding, on which equality, emptiness and concatenation (all
    the program does with strings) are those of the Python string.
  All definitions are executable, so the theorems are applied to concrete
  tables and requests in their witnesses.

  \<^bold>\<open>Theories, in import order.\<close>
  \<^descr>[\<open>Auth_Prelude\<close>] Python truthiness of a request field (\<open>py_not\<close>,
    \<open>py_all\<close>, \<open>py_str\<close>), \<^verbatim>\<open>timedelta(minutes=...)\<close>, clocks, the exception
    type, and the two list operations behind the table (\<open>first_by\<close>,
    \<open>replace_by\<close>) with their lemmas.
  \<^descr>[\<open>Config\<close>] \<^verbatim>\<open>config.py\<close>: the record \<open>config\<close>, the class body
    \<open>Config\<close> as a function of the environment, \<open>load_dotenv\<close> (the
    variables of the \<^verbatim>\<open>.env\<close> file added to the environment, which wins),
    \<open>config_ok\<close> (both lockout settings positive).
  \<^descr>[\<open>Hashing\<close>] the \<^verbatim>\<open>bcrypt\<close> object of \<^verbatim>\<open>models.py\<close> as the interface
    record \<open>hasher\<close>; the contracts \<open>hasher_complete\<close> and \<open>hasher_sound\<close>;
    the executable instance \<open>ref_hasher\<close> and the proof that it meets both;
    the instance \<open>prefix_hasher\<close>, which reads a prefix of the password
    and is complete and not sound.
  \<^descr>[\<open>Http\<close>] request bodies (\<open>json_request\<close>: a JSON object with string
    or null members), JSON values, responses (\<open>body\<close> and \<open>status\<close>), the
    response shapes \<^verbatim>\<open>jsonify({...}), code\<close> of the handlers.
  \<^descr>[\<open>User_Model\<close>] \<^verbatim>\<open>models.py\<close>: the record \<open>user\<close> (a row), the record
    \<open>pending_user\<close> (the object before its insert), \<open>User_init\<close>,
    \<open>set_password\<close>, \<open>check_password\<close>, \<open>is_locked\<close>, \<open>repr\<close>.
  \<^descr>[\<open>User_Store\<close>] the table operations the handlers call:
    \<open>query_first_by_username\<close>, \<open>query_all\<close>, \<open>session_add_commit\<close> (the
    \<^verbatim>\<open>INSERT\<close>, with the \<^verbatim>\<open>nullable=False\<close> and \<^verbatim>\<open>unique=True\<close> constraints
    as \<open>IntegrityError\<close>, the key from \<open>next_id\<close> and the column defaults),
    \<open>session_commit\<close> (the \<^verbatim>\<open>UPDATE\<close> by primary key); the constraint
    predicate \<open>table_ok\<close>; lookup after insert and after update.
  \<^descr>[\<open>Auth_Invariant\<close>] the state invariant \<open>db_ok\<close>: \<open>table_ok\<close>, and for
    every row a non-empty user name, a non-negative counter, and a counter
    at or above the threshold whenever a lockout time is present.
  \<^descr>[\<open>Auth_Examples\<close>] concrete configuration, rows and tables for the
    witnesses.
  \<^descr>[\<open>Login\<close>] \<^verbatim>\<open>api_login\<close> as one definition with the code's branches;
    the result on each branch, a case rule over the six kinds of request, the
    effect on the table, and the lockout rules.
  \<^descr>[\<open>Register\<close>] \<^verbatim>\<open>api_register\<close>; that it cannot raise; what the new
    row holds; the duplicate-name conflict.
  \<^descr>[\<open>Reset\<close>] \<^verbatim>\<open>api_reset_password\<close>; success, refusal during a
    lockout, and what its status reveals.
  \<^descr>[\<open>App\<close>] \<open>app_config\<close> (the configuration \<^verbatim>\<open>create_app\<close> installs),
    \<^verbatim>\<open>api_get_users\<close>, the page routes, the datatype \<open>request\<close> of routes,
    \<open>handle\<close> (one request, with an escaped exception answered 500), \<open>run\<close>
    (a list of requests) and the inductive predicate \<open>reachable\<close>; the
    invariant for all reachable tables, the status codes, the retention of
    users, lockout after a run of failures (\<open>counted\<close> is the row a
    counted failure writes), the bound on the passwords checked within one
    lockout window, and that the listing does not depend on the password
    hashes.
  \<^descr>[\<open>Lockout_Spec\<close>] the contract of sections 3, 4.1 and 7 of the
    specification as functions on abstract accounts (\<open>spec_register\<close>,
    \<open>spec_login\<close>, \<open>spec_reset\<close>), the abstraction \<open>abs_db\<close> and
    \<open>outcome_of\<close>, and the refinement \<open>abs (handler x) = spec (abs x)\<close>
    for the three handlers (\<open>login_refines_spec\<close>, and the lemmas
    \<open>register_refines_spec\<close> and \<open>reset_refines_spec\<close>).
  \<^descr>[\<open>Trace_Refinement\<close>] the specification's calls (\<open>call\<close>,
    \<open>spec_call\<close>) and runs (\<open>spec_run\<close>); \<open>call_of\<close> reads the call a
    request makes, \<open>calls\<close> and \<open>outcomes\<close> those of a run; the
    single-request simulation \<open>handle_call\<close> and its lifting to runs
    (\<open>run_abs\<close>).
  \<^descr>[\<open>Credentials\<close>] the password set last for each user during a run
    (\<open>password_set\<close>, \<open>current_passwords\<close>), the invariant \<open>stores\<close>
    (the table holds a hash generated from that password), and the theorems
    that \<^verbatim>\<open>api_login\<close> accepts that password and no other; what a hasher
    that is not sound lets through (\<open>prefix_accepted\<close>).
  \<^descr>[\<open>Concurrency\<close>] requests served at the same time. Each view is
    split at its \<^verbatim>\<open>db.session.commit()\<close>: \<open>api_login_pending\<close>,
    \<open>api_register_pending\<close> and \<open>api_reset_pending\<close> are the views up to
    the commit (the same code as the handlers, with the write kept as a value
    of type \<open>pending\<close>), \<open>finish\<close> is the commit on the table as it is by
    then. \<open>session_flush\<close> is the \<^verbatim>\<open>UPDATE\<close> of a changed object as the
    session issues it: it sets the columns whose value differs from the
    loaded one. A state \<open>cstate\<close> holds the table, the requests in flight
    and the responses sent; \<open>cstep\<close> starts a request (\<open>Begin\<close>) or commits
    one (\<open>Finish\<close>); \<open>crun\<close> runs a schedule and \<open>creachable\<close> is the
    inductive set of states; \<open>serial\<close> is the schedule that serves the
    requests one after the other. The case rule \<open>cstep_cases\<close> gives the
    three kinds of step to the proofs of invariants.
  \<^descr>[\<open>Overlapping_Requests\<close>] the schedules \<open>overlapped\<close> (two requests
    that both read before either commits) and \<open>burst\<close> (all requests read
    before the first commits), the response a request has fixed by its read
    (\<open>response_of\<close>), the user name a request is about (\<open>target\<close>), and
    the theorems on what overlapping requests lose and keep.
  \<^descr>[\<open>Serializability\<close>] the requirement of section 5 of the
    specification as a condition on schedules: \<open>apart\<close> says that the
    commit of one request leaves what another reads as it is (they are about
    different user names, and a listing is apart from no write),
    \<open>isolated\<close> that no request commits while a request that is not
    apart from it is in flight, \<open>commits\<close> lists the requests of a
    schedule in the order of their commits, \<open>views\<close> is the invariant of
    the proof. The theorem: an isolated schedule is the sequential run of
    its requests in commit order.
  \<^descr>[\<open>Concurrent_Credentials\<close>] the passwords that registrations and
    resets were allowed to set during a schedule (\<open>asks\<close>, \<open>grants\<close>,
    \<open>granted\<close>), the invariant \<open>cstate_from\<close> (every hash in the table
    and every hash a request in flight is about to write was generated from
    one of them), and the theorem that under every schedule a login is
    accepted with such a password only; two overlapping resets
    (\<open>overlapped_resets\<close>).
  \<^descr>[\<open>Drain\<close>] \<open>drain\<close>, which lets the requests in flight commit,
    oldest first, until none is left: a recursion on the state with its
    termination proof, and its description as a schedule.
  \<^descr>[\<open>Request_Body\<close>] the first lines of the three POST views on the
    value \<^verbatim>\<open>request.get_json()\<close> returned, whatever it is: \<open>py_value\<close>
    (the Python values \<^verbatim>\<open>json.loads\<close> builds), \<open>truthy\<close> (what \<^verbatim>\<open>not v\<close>
    and \<^verbatim>\<open>all([...])\<close> test), \<open>dict_get\<close> (\<^verbatim>\<open>data.get\<close>, which raises
    \<^verbatim>\<open>AttributeError\<close> when \<^verbatim>\<open>data\<close> is no dict), the views
    \<open>api_register_body\<close>, \<open>api_login_body\<close> and
    \<open>api_reset_password_body\<close>, and \<open>post\<close>, a POST route with Flask's
    500 for an exception that escapes. Their result is \<open>None\<close> where a value
    that is no string reaches the database driver or bcrypt. \<open>typed_body\<close>
    holds of the bodies the handlers of \<open>Login\<close>, \<open>Register\<close> and
    \<open>Reset\<close> are about, \<open>fields_of\<close> takes the string members of a body.
  \<^descr>[\<open>Responses\<close>] the bodies of the responses as a client reads
    them: types of JSON values (\<open>json_type\<close>, \<open>has_type\<close>), the shapes
    each route answers with under each status (\<open>schema\<close>, \<open>well_typed\<close>),
    and the decoder of the listing (\<open>decode_listing\<close>) with the columns it
    gives back (\<open>listing\<close>).
  \<^descr>[\<open>Column_Bounds\<close>] the two \<^verbatim>\<open>db.Integer\<close> columns as 64-bit words
    (\<open>sqlite_integer\<close>, \<open>bind_integer\<close>, \<open>column_integer\<close>), the bound
    \<open>within\<close> on the keys and counters of a table, and how it grows with
    each request.
  \<^descr>[\<open>Concurrent_Bounds\<close>] the same bound for schedules: \<open>started\<close>
    counts the requests a schedule starts, \<open>cwithin\<close> bounds the table
    and the writes in flight, and every step keeps it.
  \<^descr>[\<open>Enumeration\<close>] runs of logins with wrong passwords for a name that
    is not registered (\<open>unknown_logins\<close>) and for one that is
    (\<open>registered_logins\<close>), and what the difference tells.
  \<^descr>[\<open>Hash_Secrecy\<close>] rows and tables that agree on every column but
    the hash and whose hashes verify the same passwords (\<open>alike\<close>,
    \<open>alike_tables\<close>); the table operations, the handlers and the runs on
    such tables.
  \<^descr>[\<open>Store_Failure\<close>] statements of the store that fail with
    \<^verbatim>\<open>OperationalError\<close>, the specification's \<open>StoreError\<close>: \<open>fault\<close>
    names the statement (the \<^verbatim>\<open>SELECT\<close> or the commit), \<open>queries\<close> the
    requests that reach their \<^verbatim>\<open>SELECT\<close>, \<open>hit\<close> the requests that issue
    the failing statement; \<open>handle_fault\<close> is one request under a fault
    (no view catches the exception, so the answer is Flask's 500 and the
    session is discarded), \<open>run_faults\<close> a run in which some requests
    meet a fault, \<open>completed\<close> the requests of it that do not fail;
    \<open>fail_commit\<close> is the commit of a request in flight that fails among
    overlapping requests.
  \<^descr>[\<open>Startup\<close>] \<^verbatim>\<open>create_app\<close> and the main program of \<^verbatim>\<open>app.py\<close> on
    the file system: \<open>makedirs\<close> with its \<^verbatim>\<open>OSError\<close>,
    \<open>ensure_instance_folder\<close> (the \<^verbatim>\<open>try\<close> statement that passes over
    it), \<open>database_uri\<close> and \<open>database_file\<close> (the location the factory
    sets and the extension reads), \<open>create_all\<close> (which keeps a table
    that is there and raises when the file cannot be created),
    \<open>create_app_with\<close> (the factory), \<open>app_run\<close> (a run on the table
    of the database file) and \<open>main\<close>; \<open>startable\<close> is the condition
    on the file system under which the factory succeeds.
  \<^descr>[\<open>Spec2Isabelle\<close>] this theory: properties that span handlers,
    and the composition of \<open>Serializability\<close> with
    \<open>Trace_Refinement\<close>; \<open>instants\<close> holds of the schedules whose
    requests read the clock at one instant each.

  \<^bold>\<open>What the theorems show.\<close> For the lockout machine: a locked account
  is not touched by a login; a success resets counter and lockout; a failure
  counts and locks exactly at the threshold, on the incremented value, with a
  lockout time strictly in the future; a login is accepted iff the user
  exists, is not locked and the password verifies; a lockout ends by itself;
  within one lockout window no more passwords are checked than the threshold
  allows.
  For the state: the invariant holds in every reachable table; no request
  deletes or renames a user; no request with string or null members ends in
  status 500 while the store works. For the contract:
  each handler refines the specification's operation, and a run of requests
  refines the specification's run of their calls. For credentials: after any
  run the password set last for a user opens the account (with a complete
  hasher) and no other password does (with a sound hasher). Across handlers: a
  registered user can log in; after a reset the new password is accepted and
  the old one is refused; the specification's scenario runs as written.
  For the stored hashes: the responses of a run are the same on tables that
  differ in the hashes only and verify the same passwords, so the responses
  tell nothing else about a hash (\<open>run_hides_hashes\<close>).
  For concurrent requests: a request that commits right after its read is the
  sequential handler, and a serial schedule is the sequential run; every
  schedule keeps the table constraints, non-empty names and non-negative
  counters; in every schedule a request other than a registration is
  answered with what the sequential handler answers on the table the
  request read (\<open>answer_fixed_at_read\<close>); a schedule in which requests
  about one account do not overlap leaves the table and sends the responses
  of the sequential run of its requests in the order of their commits
  (\<open>isolated_serial\<close>, with \<open>overlapped_serial\<close> and
  \<open>disjoint_accounts_serial\<close> for two requests); and under every
  schedule a login is accepted only with a password that a registration or
  a reset was allowed to set before the login read
  (\<open>concurrent_login_sound\<close>). Composed with the refinement of runs:
  a schedule that keeps requests about one account apart, as section 5 of
  the specification requires, yields the results and the accounts of the
  specification's run of its calls in commit order
  (\<open>isolated_refines_spec\<close>). The rest of the invariant and the lockout
  rules are lost when requests about one account overlap: failed logins
  that overlap count as one, however many they are
  (\<open>burst_counts_once\<close>, \<open>lost_update\<close>), every login of a burst has
  its password checked (\<open>burst_login_answers\<close>), a successful login
  can leave the account locked (\<open>stale_success_keeps_lock\<close>), the
  slower of two registrations of one name is answered 500
  (\<open>overlapped_register\<close>), and of two overlapping resets that are both
  answered 200 only the password of the second opens the account
  (\<open>overlapped_resets\<close>).
  The requests in flight can always be completed: \<open>drain\<close> terminates
  in a state with none in flight and one response more for each
  (\<open>drain_completes\<close>).
  For request bodies: \<open>post_on_every_body\<close> gives the answer of a POST
  route to every parsed body: 500 for a body that is no dict, 400 for a dict
  with a falsy required member of whatever type, the handler's answer for a
  dict whose required members are strings, null or absent; and it says
  exactly which bodies are left, those with a truthy member that is no
  string. For responses: every response has a shape of its route's schema
  (\<open>handle_well_typed\<close>), and a registered user is read back from the
  listing (\<open>register_listed\<close>).
  For the integer columns: after \<open>n\<close> requests no key and no counter
  exceeds \<open>n\<close>, so the integers of the handlers, which are unbounded in
  Python and in the model, fit the 64-bit columns they are written to
  (\<open>run_storable\<close>), and this holds for every schedule of overlapping
  requests as well (\<open>crun_storable\<close>).
  For failures of the store: a request whose \<^verbatim>\<open>SELECT\<close> or commit fails is
  answered 500 and leaves the table as it was, so the table and the other
  responses of a run are those of the run of the requests that did not fail,
  and the invariant is kept (\<open>failed_requests_leave_no_trace\<close>); a commit
  that fails among overlapping requests leaves every later state as if the
  request had not been made (\<open>failed_commit_no_trace\<close>). The failure is
  not reported as the typed \<open>StoreError\<close> of the specification.
  For the start: the factory succeeds exactly on a file system that is
  \<open>startable\<close>, it installs the lockout settings 3 and 2 whatever the
  environment and the \<^verbatim>\<open>.env\<close> file hold (\<open>app_config_ok\<close>), it keeps a
  table that is there, a second call changes nothing, and where the folder
  cannot be made the error of \<^verbatim>\<open>os.makedirs\<close> is passed over and the factory
  fails in \<^verbatim>\<open>db.create_all()\<close> (\<open>create_app_starts\<close>); what a run stored
  is there after a restart, so that serving requests, stopping, starting and
  serving more is one run of all of them (\<open>restart_keeps_data\<close>).
  Three theorems record behaviour of the sequential handlers that differs
  from what the specification promises: a lockout that expired leaves the
  counter at the threshold, so one further failure locks again
  (\<open>login_relock_after_expiry\<close>); a failed reset is never counted, so
  the reset route answers whether a password is right without limit
  (\<open>reset_reveals_password\<close>); and as many wrong logins as the threshold
  are answered with a 403 exactly when the user name is registered, so the
  lockout tells which names exist (\<open>lockout_reveals_username\<close>).

  \<^bold>\<open>Assumptions and bounds.\<close> The only loop of the program is the list
  comprehension of \<^verbatim>\<open>api_get_users\<close>, a \<open>map\<close> over the table. There is
  no fuel in the model: \<open>run\<close> and \<open>crun\<close> are structural recursion
  over the list of requests or actions, and \<open>drain\<close> is a recursion whose
  measure is the number of requests in flight. Theorems about a correct password assume \<open>hasher_complete\<close>;
  theorems that a wrong password is refused assume \<open>hasher_sound\<close>, which
  real bcrypt meets only up to collisions and its 72-byte input limit
  (\<open>prefix_accepted\<close> shows what is accepted without it). The
  refinement of login assumes that both clock readings of the request are
  the same instant, since the specification has one ``now''. In \<open>App\<close>,
  \<open>Lockout_Spec\<close> and \<open>Enumeration\<close> requests are served one after
  the other. In \<open>Concurrency\<close> and the theories on it a request is two
  atomic steps, its read and its commit:
  every view issues one \<^verbatim>\<open>SELECT\<close> and at most one commit, the computation
  between them touches only objects of the request, and SQLite serialises
  the single statements, so no finer interleaving can be observed. A read
  sees the writes committed before it. In \<open>Store_Failure\<close> a statement
  either takes effect or raises and has no effect, which is what SQLite
  guarantees for a transaction; a request meets at most one fault, since the
  first exception ends the view. In \<open>Startup\<close> a database file is known by
  the \<^verbatim>\<open>users\<close> table it holds, and a file can be created when its folder
  exists and the process has the right to.

  \<^bold>\<open>Not modelled.\<close> What the libraries do and the sources only call:
  Werkzeug's parsing of the HTTP request and matching of the URL and method
  (a request is a constructor of \<open>request\<close> or a \<open>json_route\<close> with a
  parsed body), Flask's answer to a body that is no JSON at all, and what
  SQLite and bcrypt do with a member that is truthy and no string (the code
  only tests truthiness, so such a value passes validation; \<open>post\<close> is
  \<open>None\<close> exactly there); bcrypt itself, which the model knows by the two
  contracts of \<open>Hashing\<close> only, so neither its cost nor its limit on the
  length of a password; the rendering of \<^verbatim>\<open>isoformat()\<close> and of the
  HTML templates; the parsing of the \<^verbatim>\<open>.env\<close> file (\<open>load_dotenv\<close> takes
  its variables); the development server and the debugger that
  \<^verbatim>\<open>app.run(debug=True)\<close> starts, of which the model keeps that requests
  are served; how long a commit waits for a locked database before it
  fails; a database file whose \<^verbatim>\<open>users\<close> table has other columns than the
  class declares; and a server that stops between the read and the commit
  of a request (in the model such a request stays in flight, and \<open>drain\<close>
  is the schedule that lets every request in flight commit). Nothing else
  of \<^verbatim>\<open>src/\<close> is left out: every function and every statement of the three
  files that changes the table or the file system is a definition.
\<close>

section \<open>Schedules of requests that read the clock once\<close>

text \<open>
  The schedules in which every request has both its clock readings at one
  instant, as the specification's operations have one ``now''.
\<close>

definition instants :: "'s action list \<Rightarrow> bool" where
  "instants as = list_all (\<lambda>a. case a of Begin i e rq \<Rightarrow> one_instant e | Finish i \<Rightarrow> True) as"

section \<open>Properties across handlers\<close>

text \<open>
  A user who has just registered can log in: with a complete hasher, the
  request body that created the user is accepted by the login handler on
  the resulting table, at any time.
\<close>

lemma register_then_login:
  assumes "hasher_complete H"
    and "has_credentials data name password"
    and "query_first_by_username table name = None"
    and "api_register H salt data table = Inr (r, table')"
  shows "status r = 201 \<and> status (fst (api_login cfg H clk data table')) = 200"
proof -
  let ?row = "registered_row H salt name password table"
  from assms(2-4) have r: "status r = 201" and t: "table' = table @ [?row]"
    by (auto simp: api_register_created)
  from assms(3) t have "query_first_by_username table' name = Some ?row"
    by (simp add: query_first_by_username_def first_by_append)
  moreover have "\<not> is_locked ?row (clk 0)" by simp
  moreover from assms(1) have "check_password H ?row password"
    by (simp add: check_password_def)
  ultimately show ?thesis
    using assms(2) r by (simp add: api_login_success)
qed

lemma register_then_login_example:
  "hasher_complete ref_hasher \<and> query_first_by_username [alice, bob] ''carol'' = None \<and>
   status (fst (api_login cfg0 ref_hasher (\<lambda>_. 77) (credentials ''carol'' ''pw'')
     (snd (projr (api_register ref_hasher 4 (credentials ''carol'' ''pw'') [alice, bob]))))) = 200"
  using register_then_login [where H=ref_hasher and data="credentials ''carol'' ''pw''"
      and name="''carol''" and password="''pw''" and table="[alice, bob]" and salt=4
      and r="message_response ''User carol registered successfully'' 201"
      and table'="[alice, bob, registered_row ref_hasher 4 ''carol'' ''pw'' [alice, bob]]"
      and cfg=cfg0 and clk="\<lambda>_. 77"]
  by (simp add: api_register_credentials)

text \<open>
  Claim C34. After a successful reset the new password logs in and the old
  one does not: with a complete and sound hasher and a new password that
  differs from the old, a login with the new password is accepted on the
  resulting table and a login with the old password is not.
\<close>
theorem reset_then_login:
  assumes "hasher_complete H" and "hasher_sound H" and "table_ok table"
    and "has_reset_fields data name old new" and "old \<noteq> new"
    and "query_first_by_username table name = Some u"
    and "check_password H u old" and "\<not> is_locked u (clk 0)"
  shows "status (fst (api_login cfg H clk' (credentials name new)
           (snd (api_reset_password H salt clk data table)))) = 200 \<and>
         status (fst (api_login cfg H clk' (credentials name old)
           (snd (api_reset_password H salt clk data table)))) \<noteq> 200"
proof -
  let ?row = "reset_row H salt new u"
  let ?t = "snd (api_reset_password H salt clk data table)"
  from assms(6) have u: "u \<in> set table" "username u = name"
    by (auto dest: query_first_SomeD)
  from assms(4) have ne: "name \<noteq> []" "old \<noteq> []" "new \<noteq> []"
    by (simp_all add: has_reset_fields_def)
  from assms(3,4,6-8) u have row: "query_first_by_username ?t name = Some ?row"
    by (simp add: api_reset_success query_first_session_commit)
  from assms(1,2,5) have pw: "check_password H ?row new" "\<not> check_password H ?row old"
    by (auto simp: check_password_def dest: hasher_soundD)
  from row pw(1) ne have "status (fst (api_login cfg H clk' (credentials name new) ?t)) = 200"
    by (simp add: api_login_success)
  moreover from row pw(2) ne
  have "status (fst (api_login cfg H clk' (credentials name old) ?t)) \<noteq> 200"
    by (simp add: api_login_credentials)
  ultimately show ?thesis by simp
qed

theorem reset_then_login_witness:
  "hasher_sound ref_hasher \<and> check_password ref_hasher bob ''hunter2'' \<and>
   status (fst (api_login cfg0 ref_hasher (\<lambda>_. 900) (credentials ''bob'' ''n3w'')
     (snd (api_reset_password ref_hasher 1 (\<lambda>_. 500)
        (reset_fields ''bob'' ''hunter2'' ''n3w'') [alice, bob])))) = 200 \<and>
   status (fst (api_login cfg0 ref_hasher (\<lambda>_. 900) (credentials ''bob'' ''hunter2'')
     (snd (api_reset_password ref_hasher 1 (\<lambda>_. 500)
        (reset_fields ''bob'' ''hunter2'' ''n3w'') [alice, bob])))) \<noteq> 200"
  using reset_then_login [where H=ref_hasher and table="[alice, bob]" and name="''bob''"
      and old="''hunter2''" and new="''n3w''" and u=bob and salt=1 and clk="\<lambda>_. 500"
      and clk'="\<lambda>_. 900" and cfg=cfg0
      and data="reset_fields ''bob'' ''hunter2'' ''n3w''"]
  by simp

text \<open>
  The scenario of the specification, run on the model with the
  default configuration (threshold 3, duration 2 minutes) from the empty
  table: registering alice answers 201; three logins with a wrong password
  answer 401, 401 and 403; a login with the right password during the
  lockout answers 403; in the end the counter is 3 and the lockout time is
  two minutes after the third attempt.
\<close>
lemma spec_scenario:
  "map status (fst (run cfg0 ref_hasher
     [(at_time 0, POST_api_register (credentials ''alice'' ''p1'')),
      (at_time 1000000, POST_api_login (credentials ''alice'' ''wrong'')),
      (at_time 2000000, POST_api_login (credentials ''alice'' ''wrong'')),
      (at_time 3000000, POST_api_login (credentials ''alice'' ''wrong'')),
      (at_time 4000000, POST_api_login (credentials ''alice'' ''p1''))]
     create_app)) = [201, 401, 401, 403, 403] \<and>
   snd (run cfg0 ref_hasher
     [(at_time 0, POST_api_register (credentials ''alice'' ''p1'')),
      (at_time 1000000, POST_api_login (credentials ''alice'' ''wrong'')),
      (at_time 2000000, POST_api_login (credentials ''alice'' ''wrong'')),
      (at_time 3000000, POST_api_login (credentials ''alice'' ''wrong'')),
      (at_time 4000000, POST_api_login (credentials ''alice'' ''p1''))]
     create_app) =
   [\<lparr>user_id = 1, username = ''alice'', password_hash = ref_generate 0 ''p1'',
     failed_login_attempts = 3, lockout_until = Some 123000000\<rparr>]"
  by (simp add: run_Cons handle_def create_app_def api_register_credentials
      api_login_credentials registered_row_def next_id_def max_id_def check_password_def)

section \<open>Isolated schedules and the specification\<close>

lemma commits_instants:
  assumes "instants as"
  shows "list_all (\<lambda>ev. one_instant (fst ev)) (map snd (commits [] as))"
proof -
  have "one_instant e" if "(i, e, rq) \<in> set (commits [] as)" for i e rq
    using commits_from [OF that] assms by (auto simp: instants_def list_all_iff)
  then show ?thesis by (auto simp: list_all_iff)
qed

text \<open>
  Claim C28. A schedule that meets the requirement of section 5 of the
  specification is served as the specification says: when no request
  commits while another request about the same account is in flight, and
  every request reads the clock at one instant, the typed results of the
  responses, in the order of the commits, and the accounts at the end are
  those of the specification's run of the calls in that order.
\<close>
theorem isolated_refines_spec:
  assumes "table_ok table" and "isolated [] as" and "instants as"
  shows "outcomes (map snd (commits [] as)) (map snd (answered (crun cfg H as (start table)))) =
           fst (spec_run cfg H (calls (map snd (commits [] as))) (abs_db table)) \<and>
         abs_db (table_of (crun cfg H as (start table))) =
           snd (spec_run cfg H (calls (map snd (commits [] as))) (abs_db table))"
proof -
  let ?evs = "map snd (commits [] as)"
  from assms(1,2) have "table_of (crun cfg H as (start table)) =
      snd (run cfg H ?evs (table_of (start table))) \<and>
    answered (crun cfg H as (start table)) =
      answered (start table) @ zip (map fst (commits [] as))
        (fst (run cfg H ?evs (table_of (start table))))"
    by (intro isolated_crun) (simp_all add: views_def)
  then have "table_of (crun cfg H as (start table)) = snd (run cfg H ?evs table)"
    and "map snd (answered (crun cfg H as (start table))) = fst (run cfg H ?evs table)"
    by simp_all
  with run_abs [OF assms(1) commits_instants [OF assms(3)], of cfg H] show ?thesis by simp
qed

theorem isolated_refines_spec_witness:
  "table_ok [alice, bob] \<and>
   isolated []
     [Begin 0 (at_time 5) (POST_api_login (credentials ''alice'' ''guess1'')),
      Begin 2 (at_time 6) (POST_api_login (credentials ''bob'' ''hunter2'')),
      Finish 2, Finish 0,
      Begin 3 (at_time 7) (POST_api_login (credentials ''alice'' ''guess2'')),
      Begin 4 (at_time 8) GET_root, Finish 3, Finish 4] \<and>
   instants
     [Begin 0 (at_time 5) (POST_api_login (credentials ''alice'' ''guess1'')),
      Begin 2 (at_time 6) (POST_api_login (credentials ''bob'' ''hunter2'')),
      Finish 2, Finish 0,
      Begin 3 (at_time 7) (POST_api_login (credentials ''alice'' ''guess2'')),
      Begin 4 (at_time 8) GET_root, Finish 3, Finish 4] \<and>
   fst (spec_run cfg0 ref_hasher
     [(0, 6, Login ''bob'' ''hunter2''), (0, 5, Login ''alice'' ''guess1''),
      (0, 7, Login ''alice'' ''guess2'')] (abs_db [alice, bob])) =
   [Inr (), Inl InvalidCredentialsError, Inl InvalidCredentialsError]"
proof -
  let ?as = "[Begin 0 (at_time 5) (POST_api_login (credentials ''alice'' ''guess1'')),
      Begin 2 (at_time 6) (POST_api_login (credentials ''bob'' ''hunter2'')),
      Finish 2, Finish 0,
      Begin 3 (at_time 7) (POST_api_login (credentials ''alice'' ''guess2'')),
      Begin 4 (at_time 8) GET_root, Finish 3, Finish 4]"
  have iso: "isolated [] ?as" by (simp add: apart_def target_def)
  have inst: "instants ?as" by (simp add: instants_def one_instant_def)
  have c: "commits [] ?as =
      [(2, at_time 6, POST_api_login (credentials ''bob'' ''hunter2'')),
       (0, at_time 5, POST_api_login (credentials ''alice'' ''guess1'')),
       (3, at_time 7, POST_api_login (credentials ''alice'' ''guess2'')),
       (4, at_time 8, GET_root)]"
    by simp
  have tok: "table_ok [alice, bob]" by simp
  from isolated_crun [of "start [alice, bob]" cfg0 ref_hasher "[]" ?as] iso
  have a: "map snd (answered (crun cfg0 ref_hasher ?as (start [alice, bob]))) =
      [message_response ''Login successful'' 200, error_response ''Invalid credentials'' 401,
       error_response ''Invalid credentials'' 401, index]"
    by (simp add: views_def c run_Cons api_login_credentials
        del: crun.simps isolated.simps commits.simps)
  from isolated_refines_spec [OF tok iso inst, of cfg0 ref_hasher] iso inst a show ?thesis
    by (simp add: c del: crun.simps isolated.simps commits.simps)
qed

end
